(* ===== verification/Go_Prelude.thy ===== *)
theory Go_Prelude
  imports Main "HOL-Library.AList" "HOL-Library.Multiset"
begin

text \<open>
  What every component shares: Go's 64-bit integers, instants and durations, error values with
  their texts, the string routines the service uses, and Go maps as association lists.
  The collection \<open>go_inv\<close> holds what the operations of the components keep of their
  invariants.
\<close>

named_theorems go_inv \<open>what every operation keeps of an invariant\<close>

section \<open>64-bit integers, instants and durations\<close>

text \<open>
  An instant is the number of nanoseconds since Go's zero time, so 0 is the instant for which
  \<open>IsZero\<close> holds. A duration is an \<open>int64\<close> number of nanoseconds.
\<close>

type_synonym instant = int
type_synonym duration = int

definition min_int64 :: int where "min_int64 = - (2 ^ 63)"
definition max_int64 :: int where "max_int64 = 2 ^ 63 - 1"

definition wrap64 :: "int \<Rightarrow> int" where
  "wrap64 x = (x + 2 ^ 63) mod 2 ^ 64 - 2 ^ 63"

lemma wrap64_id [simp]: "min_int64 \<le> x \<Longrightarrow> x \<le> max_int64 \<Longrightarrow> wrap64 x = x"
  by (simp add: wrap64_def min_int64_def max_int64_def)

lemma wrap64_bounds: "min_int64 \<le> wrap64 x \<and> wrap64 x \<le> max_int64"
proof -
  have "0 \<le> (x + 2 ^ 63) mod 2 ^ 64" "(x + 2 ^ 63) mod 2 ^ 64 < (2 ^ 64 :: int)"
    by simp_all
  then show ?thesis by (simp add: wrap64_def min_int64_def max_int64_def)
qed

text \<open>\<open>Time.IsZero\<close>, \<open>Time.Sub\<close> (it saturates) and \<open>time.Since\<close>.\<close>

definition is_zero_time :: "instant \<Rightarrow> bool" where
  "is_zero_time t \<longleftrightarrow> t = 0"

definition time_sub :: "instant \<Rightarrow> instant \<Rightarrow> duration" where
  "time_sub t u = max min_int64 (min max_int64 (t - u))"

lemma time_sub_bounds: "min_int64 \<le> time_sub t u \<and> time_sub t u \<le> max_int64"
  by (auto simp: time_sub_def min_int64_def max_int64_def)

definition nano_second :: duration where "nano_second = 1000000000"
definition nano_minute :: duration where "nano_minute = 60 * nano_second"

text \<open>Go's integer division truncates towards zero.\<close>

definition go_div :: "int \<Rightarrow> int \<Rightarrow> int" where
  "go_div a b = sgn a * sgn b * (\<bar>a\<bar> div \<bar>b\<bar>)"

definition go_mod :: "int \<Rightarrow> int \<Rightarrow> int" where
  "go_mod a b = a - b * go_div a b"

lemma go_div_nonneg [simp]: "0 \<le> a \<Longrightarrow> 0 < b \<Longrightarrow> go_div a b = a div b"
  by (cases "a = 0") (simp_all add: go_div_def)

section \<open>Error values\<close>

text \<open>
  \<open>NoRows\<close> is \<open>sql.ErrNoRows\<close>; \<open>Driver s\<close> an error of the database driver;
  \<open>Errorf s\<close> a \<open>fmt.Errorf\<close> with no \<open>%w\<close>; \<open>Wrap s e\<close> one that wraps
  \<open>e\<close> as \<open>s: %w\<close>. A fallible function returns \<open>goerr + 'a\<close>, \<open>Inl\<close> for the error.
\<close>

datatype goerr = NoRows | Driver string | Errorf string | Wrap string goerr

fun err_text :: "goerr \<Rightarrow> string" where
  "err_text NoRows = ''sql: no rows in result set''"
| "err_text (Driver s) = s"
| "err_text (Errorf s) = s"
| "err_text (Wrap s e) = s @ '': '' @ err_text e"

type_synonym 'a result = "goerr + 'a"

section \<open>Strings\<close>

fun show_nat :: "nat \<Rightarrow> string" where
  "show_nat n = (if n < 10 then [char_of (48 + n)] else show_nat (n div 10) @ [char_of (48 + n mod 10)])"

declare show_nat.simps [simp del]

definition show_int :: "int \<Rightarrow> string" where
  "show_int i = (if i < 0 then ''-'' @ show_nat (nat (- i)) else show_nat (nat i))"

text \<open>A text in double quotes.\<close>

definition quoted :: "string \<Rightarrow> string" where
  "quoted s = CHR 0x22 # s @ [CHR 0x22]"

lemma show_nat_nonempty: "show_nat n \<noteq> []"
  by (subst show_nat.simps) simp

definition read_digits :: "string \<Rightarrow> nat" where
  "read_digits s = foldl (\<lambda>n c. n * 10 + (of_char c - 48)) 0 s"

lemma read_show_nat: "read_digits (show_nat n) = n"
proof (induction n rule: show_nat.induct)
  case (1 n)
  have d: "of_char (char_of (48 + k) :: char) - 48 = k" if "k < 10" for k :: nat
    using that by simp
  show ?case
  proof (cases "n < 10")
    case True
    then show ?thesis using d by (subst show_nat.simps) (simp add: read_digits_def)
  next
    case False
    then have "read_digits (show_nat n) = read_digits (show_nat (n div 10)) * 10 + n mod 10"
      using d [of "n mod 10"] by (subst show_nat.simps) (simp add: read_digits_def)
    with 1 [OF False] show ?thesis by simp
  qed
qed

lemma show_nat_inj: "show_nat m = show_nat n \<longleftrightarrow> m = n"
  by (metis read_show_nat)

lemma hd_show_nat: "hd (show_nat n) \<noteq> CHR ''-''"
proof (induction n rule: show_nat.induct)
  case (1 n)
  show ?case
  proof (cases "n < 10")
    case True
    then show ?thesis by (subst show_nat.simps) (simp add: char_of_eq_iff take_bit_eq_mod)
  next
    case False
    with 1 show ?thesis by (subst show_nat.simps) (simp add: show_nat_nonempty)
  qed
qed

lemma show_int_inj: "show_int i = show_int j \<longleftrightarrow> i = j"
  using hd_show_nat [of "nat i"] hd_show_nat [of "nat j"]
  by (auto simp: show_int_def show_nat_inj) (metis list.sel(1))+

text \<open>\<open>strings.Contains\<close> and \<open>strings.Split\<close> with a one-character separator.\<close>

fun str_contains :: "string \<Rightarrow> string \<Rightarrow> bool" where
  "str_contains [] sub \<longleftrightarrow> sub = []"
| "str_contains (c # cs) sub \<longleftrightarrow> take (length sub) (c # cs) = sub \<or> str_contains cs sub"

lemma str_contains_nil [simp]: "str_contains s []"
  by (cases s) auto

lemma str_contains_append2: "str_contains t sub \<Longrightarrow> str_contains (s @ t) sub"
  by (induction s) auto

lemma str_contains_prefix: "str_contains (sub @ t) sub"
proof (cases "sub @ t")
  case (Cons c cs)
  then have "take (length sub) (c # cs) = sub" by (metis append_eq_conv_conj)
  with Cons show ?thesis by simp
qed simp

lemma str_contains_mid: "str_contains (s @ sub @ t) sub"
  by (rule str_contains_append2) (rule str_contains_prefix)

fun str_split :: "char \<Rightarrow> string \<Rightarrow> string list" where
  "str_split sep [] = [[]]"
| "str_split sep (c # cs) =
     (if c = sep then [] # str_split sep cs
      else (case str_split sep cs of [] \<Rightarrow> [[c]] | w # ws \<Rightarrow> (c # w) # ws))"

fun str_join :: "char \<Rightarrow> string list \<Rightarrow> string" where
  "str_join sep [] = []"
| "str_join sep [w] = w"
| "str_join sep (w # ws) = w @ sep # str_join sep ws"

lemma str_split_nonempty [simp]: "str_split sep s \<noteq> []"
  by (induction s) (auto split: list.splits)

lemma str_split_word: "sep \<notin> set w \<Longrightarrow> str_split sep w = [w]"
  by (induction w) auto

lemma str_split_append: "sep \<notin> set w \<Longrightarrow> str_split sep (w @ sep # s) = w # str_split sep s"
  by (induction w) auto

lemma str_split_join:
  "ws \<noteq> [] \<Longrightarrow> \<forall>w \<in> set ws. sep \<notin> set w \<Longrightarrow> str_split sep (str_join sep ws) = ws"
  by (induction sep ws rule: str_join.induct) (auto simp: str_split_word str_split_append)

lemma str_join_eq_Nil: "str_join sep ws = [] \<longleftrightarrow> ws = [] \<or> ws = [[]]"
  by (induction sep ws rule: str_join.induct) auto

section \<open>Go maps\<close>

text \<open>
  A Go map is an association list with distinct keys, so that \<open>len\<close> and \<open>range\<close> are
  executable. Assignment is \<^const>\<open>AList.update\<close>, \<open>delete\<close> is \<^const>\<open>AList.delete\<close>, a
  lookup \<^const>\<open>map_of\<close>. \<open>range\<close> visits the entries in an unspecified order: the functions
  that range over a map take the order as an argument.
\<close>

type_synonym ('k, 'v) gomap = "('k \<times> 'v) list"

definition map_ok :: "('k, 'v) gomap \<Rightarrow> bool" where
  "map_ok m \<longleftrightarrow> distinct (map fst m)"

lemma map_ok_Nil [simp, go_inv]: "map_ok []"
  by (simp add: map_ok_def)

lemma map_ok_update [simp, go_inv]: "map_ok m \<Longrightarrow> map_ok (AList.update k v m)"
  by (simp add: map_ok_def distinct_update)

lemma map_ok_delete [simp, go_inv]: "map_ok m \<Longrightarrow> map_ok (AList.delete k m)"
  by (simp add: map_ok_def distinct_delete)

lemma map_of_update [simp]: "map_of (AList.update k v m) = (map_of m)(k \<mapsto> v)"
  by (rule update_conv')

lemma map_of_delete [simp]: "map_of (AList.delete k m) = (map_of m)(k := None)"
  by (rule delete_conv')

lemma map_ok_in_iff: "map_ok m \<Longrightarrow> (k, v) \<in> set m \<longleftrightarrow> map_of m k = Some v"
  by (simp add: map_ok_def)

lemma update_new: "k \<notin> fst ` set m \<Longrightarrow> AList.update k v m = m @ [(k, v)]"
  by (induction m) auto

lemma length_update_new: "map_of m k = None \<Longrightarrow> length (AList.update k v m) = Suc (length m)"
  by (induction m) (auto split: if_splits)

lemma length_delete_old: "map_ok m \<Longrightarrow> map_of m k = Some v \<Longrightarrow> Suc (length (AList.delete k m)) = length m"
proof (induction m)
  case Nil
  then show ?case by simp
next
  case (Cons a m)
  obtain k' v' where a: "a = (k', v')" by force
  show ?case
  proof (cases "k' = k")
    case True
    with Cons.prems a have "map_of m k = None"
      by (simp add: map_ok_def map_of_eq_None_iff)
    then have "k \<notin> fst ` set m" by (simp add: map_of_eq_None_iff)
    then have "AList.delete k m = m" by (simp add: AList.delete_idem)
    with True a show ?thesis by simp
  next
    case False
    with Cons a show ?thesis by (simp add: map_ok_def)
  qed
qed

section \<open>Lists\<close>

lemma map_eq_conv_upd:
  "(\<And>x. x \<in> set xs \<Longrightarrow> g (f x) = g x) \<Longrightarrow> map g (map f xs) = map g xs"
  by simp

lemma filter_map_upd:
  "(\<And>x. x \<in> set xs \<Longrightarrow> P (f x) \<longleftrightarrow> P x) \<Longrightarrow> filter P (map f xs) = map f (filter P xs)"
  by (induction xs) auto

lemma concat_map_Nil [simp]: "concat (map (\<lambda>x. []) xs) = []"
  by (induction xs) auto

lemma find_Some_in: "List.find P xs = Some x \<Longrightarrow> x \<in> set xs \<and> P x"
  by (induction xs) (auto split: if_splits)

lemma find_None_all: "List.find P xs = None \<longleftrightarrow> (\<forall>x \<in> set xs. \<not> P x)"
  by (induction xs) auto

lemma find_unique:
  "distinct (map f xs) \<Longrightarrow> x \<in> set xs \<Longrightarrow> List.find (\<lambda>y. f y = f x) xs = Some x"
  by (induction xs) (auto simp: rev_image_eqI)

end
