(* ===== verification/Json.thy ===== *)
theory Json
  imports Go_Prelude Complex_Main
begin

text \<open>
  JSON values as \<open>encoding/json\<close> and PostgreSQL's JSON types see them, and the decoding of a
  value into a Go variable. Texts are kept as the values they denote. A JSON string in RFC 3339
  form is the constructor \<open>JTime\<close>, with its text and the instant it denotes: it is what a \<open>time.Time\<close>
  marshals to, and the only thing one is unmarshalled from; read as a string it is its text.
\<close>

datatype json =
    JNull
  | JBool bool
  | JNum rat
  | JStr string
  | JTime string instant
  | JArr "json list"
  | JObj "(string \<times> json) list"

definition json_type_error :: goerr where
  "json_type_error = Errorf ''json: cannot unmarshal value into Go value''"

text \<open>Decoding overwrites the variable; a JSON \<open>null\<close> leaves it as it was.\<close>

fun decode_string :: "string \<Rightarrow> json \<Rightarrow> string result" where
  "decode_string old JNull = Inr old"
| "decode_string old (JStr s) = Inr s"
| "decode_string old (JTime s t) = Inr s"
| "decode_string old _ = Inl json_type_error"

fun decode_time :: "instant \<Rightarrow> json \<Rightarrow> instant result" where
  "decode_time old JNull = Inr old"
| "decode_time old (JTime s t) = Inr t"
| "decode_time old _ = Inl (Errorf ''Time.UnmarshalJSON: input is not a JSON string'')"

fun decode_number :: "rat \<Rightarrow> json \<Rightarrow> rat result" where
  "decode_number old JNull = Inr old"
| "decode_number old (JNum n) = Inr n"
| "decode_number old _ = Inl json_type_error"

fun decode_elems :: "(json \<Rightarrow> 'a result) \<Rightarrow> json list \<Rightarrow> 'a list result" where
  "decode_elems f [] = Inr []"
| "decode_elems f (j # js) = (case f j of
     Inl e \<Rightarrow> Inl e
   | Inr x \<Rightarrow> (case decode_elems f js of Inl e \<Rightarrow> Inl e | Inr xs \<Rightarrow> Inr (x # xs)))"

text \<open>A slice of strings and a map of arbitrary values; \<open>None\<close> is the nil slice or map.\<close>

fun decode_strings :: "string list option \<Rightarrow> json \<Rightarrow> string list option result" where
  "decode_strings old JNull = Inr None"
| "decode_strings old (JArr js) = map_sum id Some (decode_elems (decode_string []) js)"
| "decode_strings old _ = Inl json_type_error"

fun decode_map :: "(string, json) gomap option \<Rightarrow> json \<Rightarrow> (string, json) gomap option result" where
  "decode_map old JNull = Inr None"
| "decode_map old (JObj ms) =
     Inr (Some (foldl (\<lambda>m (k, v). AList.update k v m) (case old of None \<Rightarrow> [] | Some m \<Rightarrow> m) ms))"
| "decode_map old _ = Inl json_type_error"

text \<open>
  A struct is decoded member by member; \<open>set_field\<close> says what a member does to the struct. Keys
  match a field's tag up to case, and a key no tag matches is ignored.
\<close>

definition lower_char :: "char \<Rightarrow> char" where
  "lower_char c = (let n = (of_char c :: nat) in if 65 \<le> n \<and> n \<le> 90 then char_of (n + 32) else c)"

definition fold_key :: "string \<Rightarrow> string" where
  "fold_key = map lower_char"

fun decode_members :: "('s \<Rightarrow> string \<Rightarrow> json \<Rightarrow> 's result) \<Rightarrow> 's \<Rightarrow> (string \<times> json) list \<Rightarrow> 's result" where
  "decode_members set_field s [] = Inr s"
| "decode_members set_field s ((k, v) # ms) = (case set_field s (fold_key k) v of
     Inl e \<Rightarrow> Inl e
   | Inr s' \<Rightarrow> decode_members set_field s' ms)"

fun decode_struct :: "('s \<Rightarrow> string \<Rightarrow> json \<Rightarrow> 's result) \<Rightarrow> 's \<Rightarrow> json \<Rightarrow> 's result" where
  "decode_struct set_field s JNull = Inr s"
| "decode_struct set_field s (JObj ms) = decode_members set_field s ms"
| "decode_struct set_field s _ = Inl json_type_error"

text \<open>\<open>Time.MarshalJSON\<close> refuses an instant outside the years 0 to 9999.\<close>

definition time_has_text :: "instant \<Rightarrow> bool" where
  "time_has_text t \<longleftrightarrow> - (31622400 * nano_second) \<le> t \<and> t < 315537897600 * nano_second"

text \<open>
  Its text, \<open>2006-01-02T15:04:05.999999999Z07:00\<close>, of an instant in UTC. The date is found in a calendar
  whose years begin in March, so that the day a leap year adds is the last; the fraction has no trailing zeros.
\<close>

definition civil_date :: "int \<Rightarrow> int \<times> int \<times> int" where
  "civil_date days = (let z = days + 306; era = z div 146097; doe = z mod 146097;
       yoe = (doe - doe div 1460 + doe div 36524 - doe div 146096) div 365;
       doy = doe - (365 * yoe + yoe div 4 - yoe div 100); mp = (5 * doy + 2) div 153;
       m = (if mp < 10 then mp + 3 else mp - 9)
     in ((if m \<le> 2 then yoe + 1 else yoe) + era * 400, m, doy - (153 * mp + 2) div 5 + 1))"

definition padded :: "nat \<Rightarrow> int \<Rightarrow> string" where
  "padded w i = (let ds = show_int i in replicate (w - length ds) CHR ''0'' @ ds)"

definition time_text :: "instant \<Rightarrow> string" where
  "time_text t = (let day = 86400 * nano_second; (y, m, d) = civil_date (t div day); ns = t mod day; s = ns div nano_second;
       frac = rev (dropWhile (\<lambda>c. c = CHR ''0'') (rev (padded 9 (ns mod nano_second))))
     in padded 4 y @ ''-'' @ padded 2 m @ ''-'' @ padded 2 d @ ''T'' @ padded 2 (s div 3600) @ '':'' @
       padded 2 (s mod 3600 div 60) @ '':'' @ padded 2 (s mod 60) @ (if frac = [] then [] else CHR ''.'' # frac) @ ''Z'')"

definition marshal_time :: "instant \<Rightarrow> json result" where
  "marshal_time t = (if time_has_text t then Inr (JTime (time_text t) t)
     else Inl (Errorf ''json: error calling MarshalJSON for type time.Time: year outside of range [0,9999]''))"

definition marshal_strings :: "string list option \<Rightarrow> json" where
  "marshal_strings ss = (case ss of None \<Rightarrow> JNull | Some xs \<Rightarrow> JArr (map JStr xs))"

definition marshal_map :: "(string, json) gomap option \<Rightarrow> json" where
  "marshal_map m = (case m of None \<Rightarrow> JNull | Some ms \<Rightarrow> JObj ms)"

lemma decode_elems_strings: "decode_elems (decode_string []) (map JStr xs) = Inr xs"
  by (induction xs) auto

lemma decode_marshal_strings [simp]: "decode_strings old (marshal_strings ss) = Inr ss"
  by (cases ss) (simp_all add: marshal_strings_def decode_elems_strings)

lemma foldl_update_append:
  "distinct (map fst (m @ ms)) \<Longrightarrow> foldl (\<lambda>m (k, v). AList.update k v m) m ms = m @ ms"
proof (induction ms arbitrary: m)
  case (Cons a ms)
  obtain k v where a: "a = (k, v)" by force
  have "AList.update k v m = m @ [(k, v)]"
    using Cons.prems a by (intro update_new) auto
  then show ?case using Cons a by simp
qed simp

lemma marshal_time_cases:
  "marshal_time t = Inr j \<Longrightarrow> j = JTime (time_text t) t"
  by (simp add: marshal_time_def split: if_splits)

end
