(* ===== verification/Event_Model.thy ===== *)
theory Event_Model
  imports Json
begin

text \<open>
  The data of \<open>internal/model/webhook.go\<close>: webhook configurations, events, subscribers and
  segments as records with the source's fields, their validation, and their JSON form as the
  struct tags give it. A pointer field is an \<open>option\<close>, a nil slice or map is \<open>None\<close>.
\<close>

section \<open>Structs\<close>

definition EventSubscriberCreated :: string where
  "EventSubscriberCreated = ''subscriber.created''"

definition EventSubscriberUnsubscribed :: string where
  "EventSubscriberUnsubscribed = ''subscriber.unsubscribed''"

definition EventSubscriberAddedToSegment :: string where
  "EventSubscriberAddedToSegment = ''subscriber.added_to_segment''"

lemmas event_name_defs = EventSubscriberCreated_def EventSubscriberUnsubscribed_def
  EventSubscriberAddedToSegment_def

record segment =
  seg_ID :: string
  seg_Name :: string

record subscriber =
  sub_ID :: string
  sub_Status :: string
  sub_Email :: string
  sub_Source :: string
  sub_FirstName :: string
  sub_LastName :: string
  sub_Segments :: "string list option"
  sub_CustomFields :: "(string, json) gomap option"
  sub_OptinIP :: string
  sub_OptinTimestamp :: instant
  sub_CreatedAt :: instant

record webhook_event =
  ev_ID :: string
  ev_WebhookID :: string
  ev_EventName :: string
  ev_EventTime :: instant
  ev_Subscriber :: subscriber
  ev_Segment :: "segment option"
  ev_Status :: string
  ev_Attempts :: int
  ev_LastAttemptAt :: "instant option"
  ev_CreatedAt :: instant
  ev_ProcessedAt :: "instant option"
  ev_NextAttemptAt :: "instant option"
  ev_ProcessingInstance :: "string option"
  ev_ProcessingStartedAt :: "instant option"

text \<open>The zero values \<open>Segment{}\<close>, \<open>Subscriber{}\<close> and \<open>WebhookEvent{}\<close>.\<close>

definition zero_segment :: segment where
  "zero_segment = \<lparr>seg_ID = [], seg_Name = []\<rparr>"

definition zero_subscriber :: subscriber where
  "zero_subscriber = \<lparr>sub_ID = [], sub_Status = [], sub_Email = [], sub_Source = [],
     sub_FirstName = [], sub_LastName = [], sub_Segments = None, sub_CustomFields = None,
     sub_OptinIP = [], sub_OptinTimestamp = 0, sub_CreatedAt = 0\<rparr>"

definition zero_event :: webhook_event where
  "zero_event = \<lparr>ev_ID = [], ev_WebhookID = [], ev_EventName = [], ev_EventTime = 0,
     ev_Subscriber = zero_subscriber, ev_Segment = None, ev_Status = [], ev_Attempts = 0,
     ev_LastAttemptAt = None, ev_CreatedAt = 0, ev_ProcessedAt = None, ev_NextAttemptAt = None,
     ev_ProcessingInstance = None, ev_ProcessingStartedAt = None\<rparr>"

section \<open>Validation\<close>

text \<open>\<open>None\<close> is the nil error.\<close>

definition isValidEventType :: "string \<Rightarrow> bool" where
  "isValidEventType t \<longleftrightarrow> t = EventSubscriberCreated \<or> t = EventSubscriberUnsubscribed \<or>
     t = EventSubscriberAddedToSegment"

definition Subscriber_Validate :: "subscriber \<Rightarrow> goerr option" where
  "Subscriber_Validate s =
     (if sub_ID s = [] then Some (Errorf ''subscriber id is required'')
      else if sub_Email s = [] then Some (Errorf ''subscriber email is required'')
      else if sub_Status s = [] then Some (Errorf ''subscriber status is required'')
      else None)"

definition Segment_Validate :: "segment \<Rightarrow> goerr option" where
  "Segment_Validate s =
     (if seg_ID s = [] then Some (Errorf ''segment id is required'')
      else if seg_Name s = [] then Some (Errorf ''segment name is required'')
      else None)"

definition Event_Validate :: "webhook_event \<Rightarrow> goerr option" where
  "Event_Validate e =
     (if \<not> isValidEventType (ev_EventName e)
      then Some (Errorf (''invalid event type: '' @ ev_EventName e))
      else if ev_WebhookID e = [] then Some (Errorf ''webhook_id is required'')
      else if is_zero_time (ev_EventTime e) then Some (Errorf ''event_time is required'')
      else case Subscriber_Validate (ev_Subscriber e) of
        Some err \<Rightarrow> Some (Wrap ''invalid subscriber'' err)
      | None \<Rightarrow>
          if ev_EventName e = EventSubscriberAddedToSegment
          then (case ev_Segment e of
              None \<Rightarrow> Some (Errorf (''segment is required for '' @ EventSubscriberAddedToSegment @ '' event''))
            | Some sg \<Rightarrow> (case Segment_Validate sg of
                  Some err \<Rightarrow> Some (Wrap ''invalid segment'' err)
                | None \<Rightarrow> None))
          else None)"

text \<open>What a valid event is, stated without the order of the checks.\<close>

definition subscriber_complete :: "subscriber \<Rightarrow> bool" where
  "subscriber_complete s \<longleftrightarrow> sub_ID s \<noteq> [] \<and> sub_Email s \<noteq> [] \<and> sub_Status s \<noteq> []"

definition event_complete :: "webhook_event \<Rightarrow> bool" where
  "event_complete e \<longleftrightarrow>
     ev_EventName e \<in> {EventSubscriberCreated, EventSubscriberUnsubscribed, EventSubscriberAddedToSegment} \<and>
     ev_WebhookID e \<noteq> [] \<and> ev_EventTime e \<noteq> 0 \<and> subscriber_complete (ev_Subscriber e) \<and>
     (ev_EventName e = EventSubscriberAddedToSegment \<longrightarrow>
        (\<exists>sg. ev_Segment e = Some sg \<and> seg_ID sg \<noteq> [] \<and> seg_Name sg \<noteq> []))"

lemma Subscriber_Validate_iff: "Subscriber_Validate s = None \<longleftrightarrow> subscriber_complete s"
  by (simp add: Subscriber_Validate_def subscriber_complete_def)

lemma Segment_Validate_iff: "Segment_Validate s = None \<longleftrightarrow> seg_ID s \<noteq> [] \<and> seg_Name s \<noteq> []"
  by (simp add: Segment_Validate_def)

lemma Event_Validate_iff: "Event_Validate e = None \<longleftrightarrow> event_complete e"
proof -
  have n: "EventSubscriberAddedToSegment \<noteq> EventSubscriberCreated"
    "EventSubscriberAddedToSegment \<noteq> EventSubscriberUnsubscribed"
    by (simp_all add: event_name_defs)
  show ?thesis
    unfolding Event_Validate_def event_complete_def isValidEventType_def is_zero_time_def
    by (auto split: option.split simp: Subscriber_Validate_iff [symmetric] Segment_Validate_iff [symmetric])
qed

section \<open>JSON form\<close>

fun set_segment_field :: "segment \<Rightarrow> string \<Rightarrow> json \<Rightarrow> segment result" where
  "set_segment_field s k v =
     (if k = ''id'' then map_sum id (\<lambda>x. s\<lparr>seg_ID := x\<rparr>) (decode_string (seg_ID s) v)
      else if k = ''name'' then map_sum id (\<lambda>x. s\<lparr>seg_Name := x\<rparr>) (decode_string (seg_Name s) v)
      else Inr s)"

definition UnmarshalSegment :: "json \<Rightarrow> segment \<Rightarrow> segment result" where
  "UnmarshalSegment j s = decode_struct set_segment_field s j"

definition marshal_segment :: "segment \<Rightarrow> json" where
  "marshal_segment s = JObj [(''id'', JStr (seg_ID s)), (''name'', JStr (seg_Name s))]"

definition set_subscriber_field :: "subscriber \<Rightarrow> string \<Rightarrow> json \<Rightarrow> subscriber result" where
  "set_subscriber_field s k v =
     (if k = ''id'' then map_sum id (\<lambda>x. s\<lparr>sub_ID := x\<rparr>) (decode_string (sub_ID s) v)
      else if k = ''status'' then map_sum id (\<lambda>x. s\<lparr>sub_Status := x\<rparr>) (decode_string (sub_Status s) v)
      else if k = ''email'' then map_sum id (\<lambda>x. s\<lparr>sub_Email := x\<rparr>) (decode_string (sub_Email s) v)
      else if k = ''source'' then map_sum id (\<lambda>x. s\<lparr>sub_Source := x\<rparr>) (decode_string (sub_Source s) v)
      else if k = ''first_name'' then map_sum id (\<lambda>x. s\<lparr>sub_FirstName := x\<rparr>) (decode_string (sub_FirstName s) v)
      else if k = ''last_name'' then map_sum id (\<lambda>x. s\<lparr>sub_LastName := x\<rparr>) (decode_string (sub_LastName s) v)
      else if k = ''segments'' then map_sum id (\<lambda>x. s\<lparr>sub_Segments := x\<rparr>) (decode_strings (sub_Segments s) v)
      else if k = ''custom_fields'' then map_sum id (\<lambda>x. s\<lparr>sub_CustomFields := x\<rparr>) (decode_map (sub_CustomFields s) v)
      else if k = ''optin_ip'' then map_sum id (\<lambda>x. s\<lparr>sub_OptinIP := x\<rparr>) (decode_string (sub_OptinIP s) v)
      else if k = ''optin_timestamp'' then map_sum id (\<lambda>x. s\<lparr>sub_OptinTimestamp := x\<rparr>) (decode_time (sub_OptinTimestamp s) v)
      else if k = ''created_at'' then map_sum id (\<lambda>x. s\<lparr>sub_CreatedAt := x\<rparr>) (decode_time (sub_CreatedAt s) v)
      else Inr s)"

definition UnmarshalSubscriber :: "json \<Rightarrow> subscriber \<Rightarrow> subscriber result" where
  "UnmarshalSubscriber j s = decode_struct set_subscriber_field s j"

definition marshal_subscriber :: "subscriber \<Rightarrow> json result" where
  "marshal_subscriber s = (case marshal_time (sub_OptinTimestamp s) of
     Inl e \<Rightarrow> Inl e
   | Inr optin \<Rightarrow> (case marshal_time (sub_CreatedAt s) of
       Inl e \<Rightarrow> Inl e
     | Inr created \<Rightarrow> Inr (JObj [
         (''id'', JStr (sub_ID s)), (''status'', JStr (sub_Status s)), (''email'', JStr (sub_Email s)),
         (''source'', JStr (sub_Source s)), (''first_name'', JStr (sub_FirstName s)),
         (''last_name'', JStr (sub_LastName s)), (''segments'', marshal_strings (sub_Segments s)),
         (''custom_fields'', marshal_map (sub_CustomFields s)), (''optin_ip'', JStr (sub_OptinIP s)),
         (''optin_timestamp'', optin), (''created_at'', created)])))"

text \<open>
  The whole event, as it is posted to the subscriber's URL: the fields tagged \<open>omitempty\<close> are left
  out when their pointer is nil.
\<close>

definition opt_member :: "string \<Rightarrow> ('a \<Rightarrow> json result) \<Rightarrow> 'a option \<Rightarrow> (string \<times> json) list result" where
  "opt_member k f v = (case v of None \<Rightarrow> Inr [] | Some x \<Rightarrow> map_sum id (\<lambda>j. [(k, j)]) (f x))"

fun seq_members :: "(string \<times> json) list result list \<Rightarrow> (string \<times> json) list result" where
  "seq_members [] = Inr []"
| "seq_members (r # rs) = (case r of
     Inl e \<Rightarrow> Inl e
   | Inr ms \<Rightarrow> map_sum id (\<lambda>ns. ms @ ns) (seq_members rs))"

definition marshal_event :: "webhook_event \<Rightarrow> json result" where
  "marshal_event e = map_sum id JObj (seq_members [
     Inr [(''id'', JStr (ev_ID e)), (''webhook_id'', JStr (ev_WebhookID e)),
          (''event_name'', JStr (ev_EventName e))],
     opt_member ''event_time'' marshal_time (Some (ev_EventTime e)),
     opt_member ''subscriber'' marshal_subscriber (Some (ev_Subscriber e)),
     opt_member ''segment'' (\<lambda>s. Inr (marshal_segment s)) (ev_Segment e),
     Inr [(''status'', JStr (ev_Status e)), (''attempts'', JNum (of_int (ev_Attempts e)))],
     opt_member ''last_attempt'' marshal_time (ev_LastAttemptAt e),
     opt_member ''created_at'' marshal_time (Some (ev_CreatedAt e)),
     opt_member ''processed_at'' marshal_time (ev_ProcessedAt e),
     opt_member ''next_attempt_at'' marshal_time (ev_NextAttemptAt e),
     opt_member ''processing_instance'' (\<lambda>s. Inr (JStr s)) (ev_ProcessingInstance e),
     opt_member ''processing_started_at'' marshal_time (ev_ProcessingStartedAt e)])"

lemma Unmarshal_marshal_segment: "UnmarshalSegment (marshal_segment s) z = Inr s"
  by (simp add: UnmarshalSegment_def marshal_segment_def fold_key_def lower_char_def)

lemma custom_fields_decode:
  "map_ok (case m of None \<Rightarrow> [] | Some ms \<Rightarrow> ms) \<Longrightarrow> decode_map None (marshal_map m) = Inr m"
  using foldl_update_append [of "[]"]
  by (cases m) (simp_all add: marshal_map_def map_ok_def)

text \<open>
  A subscriber whose times have a text and whose custom fields have distinct keys can be marshalled,
  and unmarshalling gives it back.
\<close>

definition subscriber_marshals :: "subscriber \<Rightarrow> bool" where
  "subscriber_marshals s \<longleftrightarrow> time_has_text (sub_OptinTimestamp s) \<and> time_has_text (sub_CreatedAt s) \<and>
     map_ok (case sub_CustomFields s of None \<Rightarrow> [] | Some m \<Rightarrow> m)"

lemma fold_key_tags [simp]:
  "fold_key ''id'' = ''id''" "fold_key ''name'' = ''name''" "fold_key ''status'' = ''status''"
  "fold_key ''email'' = ''email''" "fold_key ''source'' = ''source''"
  "fold_key ''first_name'' = ''first_name''" "fold_key ''last_name'' = ''last_name''"
  "fold_key ''segments'' = ''segments''" "fold_key ''custom_fields'' = ''custom_fields''"
  "fold_key ''optin_ip'' = ''optin_ip''" "fold_key ''optin_timestamp'' = ''optin_timestamp''"
  "fold_key ''created_at'' = ''created_at''"
  by (simp_all add: fold_key_def lower_char_def)

lemma Unmarshal_marshal_subscriber:
  assumes "subscriber_marshals s"
  shows "\<exists>j. marshal_subscriber s = Inr j \<and> UnmarshalSubscriber j zero_subscriber = Inr s"
proof -
  have m: "marshal_time (sub_OptinTimestamp s) = Inr (JTime (time_text (sub_OptinTimestamp s)) (sub_OptinTimestamp s))"
    "marshal_time (sub_CreatedAt s) = Inr (JTime (time_text (sub_CreatedAt s)) (sub_CreatedAt s))"
    using assms by (simp_all add: subscriber_marshals_def marshal_time_def)
  have c: "decode_map None (marshal_map (sub_CustomFields s)) = Inr (sub_CustomFields s)"
    using assms by (intro custom_fields_decode) (simp add: subscriber_marshals_def)
  show ?thesis
    by (simp add: marshal_subscriber_def m UnmarshalSubscriber_def zero_subscriber_def set_subscriber_field_def c)
qed

end
