(* ===== verification/Database.thy ===== *)
theory Database
  imports Event_Model
begin

text \<open>
  The PostgreSQL database as the service's statements see it: the three tables of
  \<open>internal/database/migrations\<close>, the rows other sessions hold locked, the notifications on
  channel \<open>webhook_event_changes\<close>, and the trigger that sends them. PostgreSQL itself is outside
  the repository: the fields \<open>db_faults\<close> (the outcome of each coming call: an error of the server or
  the connection, raised before the call has an effect, or none) and \<open>db_int4in\<close> (the server's
  input function for INTEGER) are its behaviour, and no theorem fixes them but by a hypothesis.
\<close>

section \<open>Tables\<close>

record config_row =
  cr_id :: int
  cr_name :: string
  cr_post_url :: string
  cr_events :: "string list"

record event_row =
  er_id :: int
  er_webhook_id :: int
  er_event_name :: string
  er_event_time :: instant
  er_subscriber_data :: json
  er_segment_data :: "json option"
  er_status :: string
  er_attempts :: int
  er_last_attempt_at :: "instant option"
  er_created_at :: instant
  er_processed_at :: "instant option"
  er_next_attempt_at :: "instant option"
  er_processing_instance :: "string option"
  er_processing_started_at :: "instant option"

record delivery_row =
  dr_id :: int
  dr_event_id :: int
  dr_status :: string
  dr_response :: string
  dr_error :: string
  dr_timestamp :: instant

record database =
  db_configs :: "config_row list"
  db_events :: "event_row list"
  db_deliveries :: "delivery_row list"
  db_next_event :: int
  db_next_delivery :: int
  db_notes :: "json list"
  db_locked :: "int list"
  db_faults :: "string option list"
  db_int4in :: "string \<Rightarrow> int option"

text \<open>A database action: a result, or an error, and the database afterwards.\<close>

type_synonym 'a dbm = "database \<Rightarrow> 'a result \<times> database"

definition dbm_ret :: "'a \<Rightarrow> 'a dbm" where
  "dbm_ret x d = (Inr x, d)"

definition dbm_throw :: "goerr \<Rightarrow> 'a dbm" where
  "dbm_throw e d = (Inl e, d)"

definition dbm_lift :: "'a result \<Rightarrow> 'a dbm" where
  "dbm_lift r d = (r, d)"

definition dbm_bind :: "'a dbm \<Rightarrow> ('a \<Rightarrow> 'b dbm) \<Rightarrow> 'b dbm" where
  "dbm_bind m f d = (case m d of (Inl e, d') \<Rightarrow> (Inl e, d') | (Inr x, d') \<Rightarrow> f x d')"

definition dbm_wrap :: "string \<Rightarrow> 'a dbm \<Rightarrow> 'a dbm" where
  "dbm_wrap msg m d = (case m d of (Inl e, d') \<Rightarrow> (Inl (Wrap msg e), d') | (Inr x, d') \<Rightarrow> (Inr x, d'))"

lemmas dbm_defs = dbm_ret_def dbm_throw_def dbm_lift_def dbm_bind_def dbm_wrap_def

text \<open>One call to the server: the next entry of \<open>db_faults\<close> says whether it fails.\<close>

definition db_call :: "unit dbm" where
  "db_call d = (case db_faults d of
     [] \<Rightarrow> (Inr (), d)
   | None # fs \<Rightarrow> (Inr (), d\<lparr>db_faults := fs\<rparr>)
   | Some e # fs \<Rightarrow> (Inl (Driver e), d\<lparr>db_faults := fs\<rparr>))"

definition db_statement :: "'a dbm \<Rightarrow> 'a dbm" where
  "db_statement m = dbm_bind db_call (\<lambda>_. m)"

text \<open>A text parameter compared with an INTEGER column.\<close>

definition int4_param :: "string \<Rightarrow> int dbm" where
  "int4_param s d = (case db_int4in d s of
     Some i \<Rightarrow> (Inr i, d)
   | None \<Rightarrow> (Inl (Driver (''ERROR: invalid input syntax for type integer: '' @ s @ '' (SQLSTATE 22P02)'')), d))"

text \<open>
  The documented behaviour of the INTEGER type's input and output functions: a value read is in the
  range of the type, and the text a value of the type is printed as reads back as that value.
\<close>

definition int4_range :: "int \<Rightarrow> bool" where
  "int4_range i \<longleftrightarrow> - (2 ^ 31) \<le> i \<and> i < 2 ^ 31"

definition reads_back :: "database \<Rightarrow> bool" where
  "reads_back d \<longleftrightarrow> (\<forall>i. int4_range i \<longrightarrow> db_int4in d (show_int i) = Some i) \<and>
     (\<forall>s i. db_int4in d s = Some i \<longrightarrow> int4_range i)"

section \<open>The trigger on webhook_events\<close>

definition unix_epoch :: instant where
  "unix_epoch = 62135596800 * nano_second"

definition notify_payload :: "string \<Rightarrow> int \<Rightarrow> int \<Rightarrow> instant \<Rightarrow> json" where
  "notify_payload tg_op i w now = JObj [
     (''event_id'', JStr (show_int i)), (''webhook_id'', JStr (show_int w)),
     (''operation'', JStr tg_op),
     (''timestamp'', JNum (of_int (now - unix_epoch) / of_int nano_second))]"

definition due :: "instant \<Rightarrow> event_row \<Rightarrow> bool" where
  "due now r \<longleftrightarrow> (case er_next_attempt_at r of None \<Rightarrow> True | Some t \<Rightarrow> t \<le> now)"

definition notify_webhook_event_change :: "string \<Rightarrow> instant \<Rightarrow> event_row \<Rightarrow> json list" where
  "notify_webhook_event_change tg_op now r =
     (if (tg_op = ''INSERT'' \<or> (tg_op = ''UPDATE'' \<and> er_status r = ''pending'')) \<and> due now r
      then [notify_payload tg_op (er_id r) (er_webhook_id r) now] else [])"

text \<open>
  \<open>UPDATE webhook_events SET f WHERE p\<close>, with the trigger fired for each updated row; the result is
  the number of rows affected. \<open>now\<close> is the server's CURRENT_TIMESTAMP.
\<close>

definition update_events :: "instant \<Rightarrow> (event_row \<Rightarrow> bool) \<Rightarrow> (event_row \<Rightarrow> event_row) \<Rightarrow> nat dbm" where
  "update_events now p f d = (let hit = filter p (db_events d) in
     (Inr (length hit),
      d\<lparr>db_events := map (\<lambda>r. if p r then f r else r) (db_events d),
        db_notes := db_notes d @ concat (map (\<lambda>r. notify_webhook_event_change ''UPDATE'' now (f r)) hit)\<rparr>))"

section \<open>Transactions\<close>

text \<open>
  \<open>sql.Tx\<close>: a failure rolls the tables and the notifications back to where the transaction began;
  the calls made remain made.
\<close>

definition db_rollback :: "database \<Rightarrow> database \<Rightarrow> database" where
  "db_rollback start d = start\<lparr>db_faults := db_faults d\<rparr>"

definition withTransaction :: "'a dbm \<Rightarrow> 'a dbm" where
  "withTransaction fn = dbm_bind (dbm_wrap ''failed to begin transaction'' db_call) (\<lambda>_ start.
     (case fn start of
        (Inl e, d) \<Rightarrow> (Inl e, db_rollback start d)
      | (Inr x, d) \<Rightarrow>
          (case dbm_wrap ''failed to commit transaction'' db_call d of
             (Inl e, d') \<Rightarrow> (Inl e, db_rollback start d')
           | (Inr _, d') \<Rightarrow> (Inr x, d'))))"

section \<open>Frames and errors\<close>

text \<open>What the server does to the tables: everything but the outcome of coming calls.\<close>

definition same_tables :: "database \<Rightarrow> database \<Rightarrow> bool" where
  "same_tables d d' \<longleftrightarrow> d'\<lparr>db_faults := db_faults d\<rparr> = d"

lemma same_tables_refl [simp, intro]: "same_tables d d"
  by (simp add: same_tables_def)

lemma same_tables_faults [simp, intro]: "same_tables d (d\<lparr>db_faults := fs\<rparr>)"
  by (simp add: same_tables_def)

lemma same_tables_fields:
  assumes "same_tables d d'"
  shows "db_configs d' = db_configs d" "db_events d' = db_events d"
    "db_deliveries d' = db_deliveries d" "db_next_event d' = db_next_event d"
    "db_next_delivery d' = db_next_delivery d" "db_notes d' = db_notes d"
    "db_locked d' = db_locked d" "db_int4in d' = db_int4in d"
  using arg_cong [OF assms [unfolded same_tables_def], of db_configs]
    arg_cong [OF assms [unfolded same_tables_def], of db_events]
    arg_cong [OF assms [unfolded same_tables_def], of db_deliveries]
    arg_cong [OF assms [unfolded same_tables_def], of db_next_event]
    arg_cong [OF assms [unfolded same_tables_def], of db_next_delivery]
    arg_cong [OF assms [unfolded same_tables_def], of db_notes]
    arg_cong [OF assms [unfolded same_tables_def], of db_locked]
    arg_cong [OF assms [unfolded same_tables_def], of db_int4in]
  by simp_all

lemma same_tables_sym: "same_tables d d' \<Longrightarrow> same_tables d' d"
  unfolding same_tables_def
  by (metis database.surjective database.update_convs(8) database.simps(8))

lemma same_tables_trans: "same_tables a b \<Longrightarrow> same_tables b c \<Longrightarrow> same_tables a c"
  by (simp add: same_tables_def) (metis database.update_convs(8) database.surjective)

lemma same_tables_rollback [simp, intro]: "same_tables start (db_rollback start d)"
  by (simp add: db_rollback_def)

lemma db_call_same: "same_tables d (snd (db_call d))"
  by (auto simp: db_call_def split: list.split option.split)

section \<open>Relations every action keeps\<close>

text \<open>
  \<open>db_keeps R m\<close>: whatever the database and the outcome of the calls, \<open>m\<close> relates the database
  before to the one after by \<open>R\<close>.
\<close>

definition db_keeps :: "(database \<Rightarrow> database \<Rightarrow> bool) \<Rightarrow> 'a dbm \<Rightarrow> bool" where
  "db_keeps R m \<longleftrightarrow> (\<forall>d. R d (snd (m d)))"

lemma db_keepsD: "db_keeps R m \<Longrightarrow> m d = (r, d') \<Longrightarrow> R d d'"
  by (metis db_keeps_def snd_conv)

text \<open>
  The contract a relation between databases has to meet so that it can be checked statement by
  statement: it ignores the outcome of coming calls and is transitive. The combinators of
  actions then keep it, a transaction included: rolled back it has done nothing.
\<close>

locale db_frame =
  fixes R :: "database \<Rightarrow> database \<Rightarrow> bool"
  assumes frame_same: "same_tables d d' \<Longrightarrow> R d d'"
    and frame_trans: "R a b \<Longrightarrow> R b c \<Longrightarrow> R a c"
begin

lemma keeps_pure: "(\<And>d. same_tables d (snd (m d))) \<Longrightarrow> db_keeps R m"
  by (simp add: db_keeps_def frame_same)

lemma keeps_ret: "db_keeps R (dbm_ret x)"
  by (rule keeps_pure) (simp add: dbm_defs)

lemma keeps_throw: "db_keeps R (dbm_throw e)"
  by (rule keeps_pure) (simp add: dbm_defs)

lemma keeps_lift: "db_keeps R (dbm_lift r)"
  by (rule keeps_pure) (simp add: dbm_defs)

lemma keeps_call: "db_keeps R db_call"
  by (rule keeps_pure) (rule db_call_same)

lemma keeps_int4: "db_keeps R (int4_param s)"
  by (rule keeps_pure) (auto simp: int4_param_def split: option.split)

lemma keeps_bind:
  assumes "db_keeps R m" and "\<And>x. db_keeps R (f x)"
  shows "db_keeps R (dbm_bind m f)"
  unfolding db_keeps_def
proof
  fix d
  obtain r d' where m: "m d = (r, d')" by force
  have 1: "R d d'" using db_keepsD [OF assms(1) m] .
  show "R d (snd (dbm_bind m f d))"
  proof (cases r)
    case (Inl e)
    then show ?thesis by (simp add: dbm_bind_def m 1)
  next
    case (Inr x)
    have "R d' (snd (f x d'))" using assms(2) [of x] by (simp add: db_keeps_def)
    with 1 have "R d (snd (f x d'))" by (rule frame_trans)
    then show ?thesis by (simp add: dbm_bind_def m Inr)
  qed
qed

lemma keeps_wrap: "db_keeps R m \<Longrightarrow> db_keeps R (dbm_wrap msg m)"
  by (auto simp: db_keeps_def dbm_wrap_def split: prod.split sum.split)
    (metis snd_conv)+

lemma keeps_statement: "db_keeps R m \<Longrightarrow> db_keeps R (db_statement m)"
  unfolding db_statement_def by (intro keeps_bind keeps_call)

lemma keeps_withTransaction:
  assumes "db_keeps R fn"
  shows "db_keeps R (withTransaction fn)"
  unfolding withTransaction_def
proof (intro keeps_bind keeps_wrap keeps_call)
  fix u :: unit
  show "db_keeps R (\<lambda>start. case fn start of
      (Inl e, d) \<Rightarrow> (Inl e, db_rollback start d)
    | (Inr x, d) \<Rightarrow> (case dbm_wrap ''failed to commit transaction'' db_call d of
         (Inl e, d') \<Rightarrow> (Inl e, db_rollback start d') | (Inr _, d') \<Rightarrow> (Inr x, d')))"
    unfolding db_keeps_def
  proof
    fix start
    obtain r d where fn: "fn start = (r, d)" by force
    obtain c d' where c: "dbm_wrap ''failed to commit transaction'' db_call d = (c, d')" by force
    have "R start d" using db_keepsD [OF assms fn] .
    moreover have "R d d'" using db_keepsD [OF keeps_wrap [OF keeps_call] c] .
    ultimately have "R start d'" by (rule frame_trans)
    then show "R start (snd (case fn start of
        (Inl e, d) \<Rightarrow> (Inl e, db_rollback start d)
      | (Inr x, d) \<Rightarrow> (case dbm_wrap ''failed to commit transaction'' db_call d of
           (Inl e, d') \<Rightarrow> (Inl e, db_rollback start d') | (Inr _, d') \<Rightarrow> (Inr x, d'))))"
      by (cases r; cases c) (simp_all add: fn c frame_same)
  qed
qed

lemmas keeps_intros = keeps_ret keeps_throw keeps_lift keeps_call keeps_int4 keeps_bind keeps_wrap
  keeps_statement keeps_withTransaction

end

text \<open>The least such relation: the tables stay as they are.\<close>

interpretation tables: db_frame same_tables
  by unfold_locales (auto intro: same_tables_trans)

text \<open>
  An action is atomic if an error leaves the tables as they were. A transaction makes any action
  atomic; a sequence is atomic when all but its last step only read.
\<close>

definition db_atomic :: "'a dbm \<Rightarrow> bool" where
  "db_atomic m \<longleftrightarrow> (\<forall>d e d'. m d = (Inl e, d') \<longrightarrow> same_tables d d')"

lemma atomic_if_keeps: "db_keeps same_tables m \<Longrightarrow> db_atomic m"
  unfolding db_atomic_def by (blast dest: db_keepsD)

lemma atomic_bind: "db_keeps same_tables m \<Longrightarrow> (\<And>x. db_atomic (f x)) \<Longrightarrow> db_atomic (dbm_bind m f)"
  unfolding db_atomic_def dbm_bind_def
  by (auto split: prod.splits sum.splits) (metis db_keepsD same_tables_trans)+

lemma atomic_statement: "db_atomic m \<Longrightarrow> db_atomic (db_statement m)"
  unfolding db_statement_def by (intro atomic_bind tables.keeps_call)

lemma atomic_never_fails: "(\<And>d. \<exists>x. fst (m d) = Inr x) \<Longrightarrow> db_atomic m"
  unfolding db_atomic_def by (metis fst_conv sum.distinct(1))

lemma atomic_withTransaction: "db_atomic (withTransaction fn)"
  unfolding withTransaction_def
  by (intro atomic_bind tables.keeps_wrap tables.keeps_call)
    (auto simp: db_atomic_def split: prod.splits sum.splits)

section \<open>Following a successful action\<close>

text \<open>
  Each rule opens one combinator of a successful run; together they reduce a method that returned to
  the facts about its statements.
\<close>

lemma bind_InrE [elim!]:
  assumes "dbm_bind m f d = (Inr y, d')"
  obtains x d1 where "m d = (Inr x, d1)" "f x d1 = (Inr y, d')"
  using assms by (auto simp: dbm_bind_def split: prod.splits sum.splits)

lemma wrap_InrE [elim!]:
  assumes "dbm_wrap msg m d = (Inr y, d')"
  obtains "m d = (Inr y, d')"
  using assms by (auto simp: dbm_wrap_def split: prod.splits sum.splits)

lemma call_InrE [elim!]:
  assumes "db_call d = (Inr u, d')"
  obtains "same_tables d d'"
  using assms db_call_same [of d] by simp

lemma statement_InrE [elim!]:
  assumes "db_statement m d = (Inr y, d')"
  obtains d1 where "same_tables d d1" "m d1 = (Inr y, d')"
  using assms by (auto simp: db_statement_def)

lemma int4_InrE [elim!]:
  assumes "int4_param s d = (Inr i, d')"
  obtains "d' = d" "db_int4in d s = Some i"
  using assms by (auto simp: int4_param_def split: option.splits)

lemma lift_InrE [elim!]:
  assumes "dbm_lift r d = (Inr x, d')"
  obtains "d' = d" "r = Inr x"
  using assms by (auto simp: dbm_lift_def)

lemma ret_InrE [elim!]:
  assumes "dbm_ret y d = (Inr x, d')"
  obtains "d' = d" "x = y"
  using assms by (auto simp: dbm_ret_def)

lemma withTransaction_InrE [elim!]:
  assumes "withTransaction fn d = (Inr x, d')"
  obtains d1 d2 where "same_tables d d1" "fn d1 = (Inr x, d2)" "same_tables d2 d'"
  using assms unfolding withTransaction_def
  by (auto split: prod.splits sum.splits)

text \<open>With no failing call ahead, the combinators run through.\<close>

lemma db_call_ok [simp]: "db_faults d = [] \<Longrightarrow> db_call d = (Inr (), d)"
  by (simp add: db_call_def)

lemma db_statement_ok [simp]: "db_faults d = [] \<Longrightarrow> db_statement m d = m d"
  by (simp add: db_statement_def dbm_bind_def)

lemma dbm_bind_Inr [simp]: "m d = (Inr x, d1) \<Longrightarrow> dbm_bind m f d = f x d1"
  by (simp add: dbm_bind_def)

lemma dbm_bind_Inl [simp]: "m d = (Inl e, d1) \<Longrightarrow> dbm_bind m f d = (Inl e, d1)"
  by (simp add: dbm_bind_def)

lemma withTransaction_ok:
  assumes "db_faults d = []" and "fn d = (Inr x, d')" and "db_faults d' = []"
  shows "withTransaction fn d = (Inr x, d')"
  using assms by (simp add: withTransaction_def dbm_bind_def dbm_wrap_def)

lemma withTransaction_fail:
  assumes "db_faults d = []" and "fn d = (Inl e, d')" and "db_faults d' = []"
  shows "withTransaction fn d = (Inl e, d)"
  using assms by (simp add: withTransaction_def dbm_bind_def dbm_wrap_def db_rollback_def)

end
