(* ===== verification/Interfaces.thy ===== *)
theory Interfaces
  imports Go_Prelude
begin

text \<open>
  The contracts between components: what the config cache relies on in its source, what the users
  of a queue rely on in a buffered channel, and what makes a property hold along every run of a
  component.
\<close>

section \<open>A source of webhook configurations\<close>

text \<open>\<open>WebhookConfigDTO\<close>\<close>

record config_dto =
  dto_ID :: string
  dto_Events :: "string list"
  dto_PostURL :: string

text \<open>
  \<open>fetch\<close> is the call the cache makes, \<open>current\<close> what the source holds for an id. A fetch answers with
  what is current, says \<open>NoRows\<close> only when there is nothing, and changes nothing; any other error
  tells nothing.
\<close>

locale config_source =
  fixes fetch :: "string \<Rightarrow> 'd \<Rightarrow> config_dto result \<times> 'd"
    and current :: "'d \<Rightarrow> string \<Rightarrow> config_dto option"
  assumes fetch_current: "fetch i d = (Inr w, d') \<Longrightarrow> current d i = Some w"
    and fetch_missing: "fetch i d = (Inl NoRows, d') \<Longrightarrow> current d i = None"
    and fetch_frame: "fetch i d = (r, d') \<Longrightarrow> current d' = current d"

section \<open>A bounded queue\<close>

text \<open>
  A run of sends that do not block (\<open>Some x\<close>, dropped when there is no room) and of receives (\<open>None\<close>):
  what was accepted, what was received, and the queue at the end.
\<close>

fun queue_run :: "('q \<Rightarrow> bool) \<Rightarrow> ('a \<Rightarrow> 'q \<Rightarrow> 'q) \<Rightarrow> ('q \<Rightarrow> ('a \<times> 'q) option) \<Rightarrow>
    'a option list \<Rightarrow> 'q \<Rightarrow> 'a list \<times> 'a list \<times> 'q" where
  "queue_run room send receive [] q = ([], [], q)"
| "queue_run room send receive (Some x # ops) q =
     (if room q then map_prod (\<lambda>xs. x # xs) id (queue_run room send receive ops (send x q))
      else queue_run room send receive ops q)"
| "queue_run room send receive (None # ops) q = (case receive q of
     None \<Rightarrow> queue_run room send receive ops q
   | Some (x, q') \<Rightarrow> map_prod id (map_prod (\<lambda>xs. x # xs) id) (queue_run room send receive ops q'))"

text \<open>
  What a Go channel promises its users: \<open>items\<close> are received in the order they were sent, a send that
  does not block succeeds exactly while there is room, and the capacity never changes.
\<close>

locale bounded_queue =
  fixes items :: "'q \<Rightarrow> 'a list"
    and capacity :: "'q \<Rightarrow> nat"
    and room :: "'q \<Rightarrow> bool"
    and send :: "'a \<Rightarrow> 'q \<Rightarrow> 'q"
    and receive :: "'q \<Rightarrow> ('a \<times> 'q) option"
  assumes room_iff: "room q \<longleftrightarrow> length (items q) < capacity q"
    and items_send: "room q \<Longrightarrow> items (send x q) = items q @ [x]"
    and capacity_send: "capacity (send x q) = capacity q"
    and receive_None: "receive q = None \<longleftrightarrow> items q = []"
    and receive_Some: "receive q = Some (x, q') \<Longrightarrow> items q = x # items q' \<and> capacity q' = capacity q"
begin

text \<open>
  Along every run the queue stays within its capacity, and what was in it followed by what was
  accepted is what was received followed by what is left.
\<close>

lemma run_correct:
  assumes "length (items q) \<le> capacity q" and "queue_run room send receive ops q = (acc, out, q')"
  shows "length (items q') \<le> capacity q' \<and> capacity q' = capacity q \<and> items q @ acc = out @ items q'"
  using assms
proof (induction ops arbitrary: q acc out)
  case Nil
  then show ?case by simp
next
  case (Cons op ops)
  show ?case
  proof (cases op)
    case None
    show ?thesis
    proof (cases "receive q")
      case n: None
      then have "queue_run room send receive ops q = (acc, out, q')" using Cons.prems(2) None by simp
      with Cons.prems(1) show ?thesis by (rule Cons.IH)
    next
      case (Some a)
      obtain x q1 where a: "receive q = Some (x, q1)" using Some by (metis surj_pair)
      obtain acc1 out1 where r: "queue_run room send receive ops q1 = (acc1, out1, q')" "acc = acc1" "out = x # out1"
        using Cons.prems(2) None a by (cases "queue_run room send receive ops q1") auto
      have q1: "items q = x # items q1" "capacity q1 = capacity q" using receive_Some [OF a] by auto
      with Cons.IH [OF _ r(1)] Cons.prems(1) r q1 show ?thesis by simp
    qed
  next
    case (Some x)
    show ?thesis
    proof (cases "room q")
      case True
      obtain acc1 where r: "queue_run room send receive ops (send x q) = (acc1, out, q')" "acc = x # acc1"
        using Cons.prems(2) Some True by (cases "queue_run room send receive ops (send x q)") auto
      with Cons.IH [OF _ r(1)] True show ?thesis by (simp add: items_send capacity_send room_iff)
    next
      case False
      then have "queue_run room send receive ops q = (acc, out, q')" using Cons.prems(2) Some by simp
      with Cons.prems(1) show ?thesis by (rule Cons.IH)
    qed
  qed
qed

end

section \<open>Runs of a component\<close>

text \<open>
  A component is its step function and the invariant its \<open>allowed\<close> steps keep; the invariant then
  holds after any sequence of them. \<open>rel\<close> is what the component never undoes: it holds between any
  two points of a run.
\<close>

locale component_runs =
  fixes step :: "'s \<Rightarrow> 'op \<Rightarrow> 's"
    and allowed :: "'op \<Rightarrow> bool"
    and inv :: "'s \<Rightarrow> bool"
    and rel :: "'s \<Rightarrow> 's \<Rightarrow> bool"
  assumes step_inv: "inv s \<Longrightarrow> allowed a \<Longrightarrow> inv (step s a)"
    and step_rel: "inv s \<Longrightarrow> allowed a \<Longrightarrow> rel s (step s a)"
    and rel_refl: "rel s s"
    and rel_trans: "rel s t \<Longrightarrow> rel t u \<Longrightarrow> rel s u"
begin

lemma runs_inv: "inv s \<Longrightarrow> list_all allowed ops \<Longrightarrow> inv (foldl step s ops)"
  by (induction ops arbitrary: s) (auto simp: step_inv)

lemma runs_rel: "inv s \<Longrightarrow> list_all allowed ops \<Longrightarrow> rel s (foldl step s ops)"
proof (induction ops arbitrary: s)
  case (Cons a ops)
  have "rel s (step s a)" using Cons.prems by (auto intro: step_rel)
  moreover have "rel (step s a) (foldl step (step s a) ops)"
    using Cons.prems by (intro Cons.IH step_inv) auto
  ultimately show ?case by (simp add: rel_trans)
qed (simp add: rel_refl)

end

section \<open>Refinement\<close>

text \<open>
  A concrete component refines an abstract one: as long as \<open>inv\<close> holds, which the concrete steps keep,
  each of them is a number of abstract steps, none included, between the abstractions of its states.
\<close>

locale refines =
  fixes cstep :: "'c \<Rightarrow> 'c \<Rightarrow> bool"
    and astep :: "'a \<Rightarrow> 'a \<Rightarrow> bool"
    and abstr :: "'c \<Rightarrow> 'a"
    and inv :: "'c \<Rightarrow> bool"
  assumes inv_step: "inv c \<Longrightarrow> cstep c c' \<Longrightarrow> inv c'"
    and simulates: "inv c \<Longrightarrow> cstep c c' \<Longrightarrow> astep\<^sup>*\<^sup>* (abstr c) (abstr c')"
begin

lemma run_inv: "cstep\<^sup>*\<^sup>* c c' \<Longrightarrow> inv c \<Longrightarrow> inv c'"
  by (induction rule: rtranclp_induct) (auto intro: inv_step)

lemma run_simulates: "cstep\<^sup>*\<^sup>* c c' \<Longrightarrow> inv c \<Longrightarrow> astep\<^sup>*\<^sup>* (abstr c) (abstr c')"
proof (induction rule: rtranclp_induct)
  case (step a b)
  then show ?case using run_inv [OF step.hyps(1)] by (meson rtranclp_trans simulates)
qed simp

end

end
