(* ===== verification/Repository.thy ===== *)
theory Repository
  imports Database Interfaces "HOL-Library.Option_ord" "HOL-Library.Product_Lexorder"
begin

text \<open>
  \<open>internal/repository/webhook.go\<close>: every method of \<open>WebhookRepository\<close>, with the effect of its SQL
  statements on the tables. \<open>now\<close> is the server's CURRENT_TIMESTAMP for the statement's transaction,
  \<open>clock\<close> the Go process's \<open>time.Now()\<close>.
\<close>

section \<open>Configurations\<close>

definition find_config :: "int \<Rightarrow> database \<Rightarrow> config_row option" where
  "find_config i d = List.find (\<lambda>c. cr_id c = i) (db_configs d)"

definition ValidateWebhook :: "string \<Rightarrow> string \<Rightarrow> bool dbm" where
  "ValidateWebhook webhookID eventName = db_statement (dbm_bind (int4_param webhookID) (\<lambda>i d.
     (Inr (list_ex (\<lambda>c. cr_id c = i \<and> eventName \<in> set (cr_events c)) (db_configs d)), d)))"

text \<open>The events column travels as \<open>array_to_string(events, ',')\<close> and is split again.\<close>

definition config_dto_of :: "config_row \<Rightarrow> config_dto" where
  "config_dto_of c = (let eventsStr = str_join CHR '','' (cr_events c) in
     \<lparr>dto_ID = show_int (cr_id c),
      dto_Events = (if eventsStr \<noteq> [] then str_split CHR '','' eventsStr else []),
      dto_PostURL = cr_post_url c\<rparr>)"

definition GetWebhookByID :: "string \<Rightarrow> config_dto dbm" where
  "GetWebhookByID webhookID = db_statement (dbm_bind (int4_param webhookID) (\<lambda>i d.
     case find_config i d of
       None \<Rightarrow> (Inl NoRows, d)
     | Some c \<Rightarrow> (Inr (config_dto_of c), d)))"

text \<open>
  The repository is a source of configurations for the cache: what it holds for an id is the row
  with that key.
\<close>

definition current_config :: "database \<Rightarrow> string \<Rightarrow> config_dto option" where
  "current_config d s = (case db_int4in d s of None \<Rightarrow> None | Some i \<Rightarrow> map_option config_dto_of (find_config i d))"

lemma tables_GetWebhookByID: "db_keeps same_tables (GetWebhookByID s)"
  unfolding GetWebhookByID_def
  by (intro tables.keeps_statement tables.keeps_bind tables.keeps_int4)
    (auto simp: db_keeps_def split: option.split)

lemma current_config_cong:
  "db_configs d' = db_configs d \<Longrightarrow> db_int4in d' = db_int4in d \<Longrightarrow> current_config d' = current_config d"
  by (auto simp: current_config_def find_config_def fun_eq_iff split: option.split)

lemma current_config_tables: "same_tables d d' \<Longrightarrow> current_config d' = current_config d"
  by (rule current_config_cong) (simp_all add: same_tables_fields)

interpretation repo_configs: config_source GetWebhookByID current_config
proof unfold_locales
  fix i d w d' assume "GetWebhookByID i d = (Inr w, d')"
  then show "current_config d i = Some w"
    unfolding GetWebhookByID_def
    by (auto simp: current_config_def find_config_def same_tables_fields split: option.splits)
next
  fix i d d' assume "GetWebhookByID i d = (Inl NoRows, d')"
  then show "current_config d i = None"
    using db_call_same [of d] unfolding GetWebhookByID_def db_statement_def
    by (auto simp: dbm_bind_def db_call_def int4_param_def current_config_def find_config_def
        same_tables_fields split: prod.splits sum.splits option.splits list.splits)
next
  fix i d r d' assume "GetWebhookByID i d = (r, d')"
  then show "current_config d' = current_config d"
    by (intro current_config_tables db_keepsD [OF tables_GetWebhookByID])
qed

section \<open>Storing events and attempts\<close>

definition new_event_row :: "int \<Rightarrow> int \<Rightarrow> webhook_event \<Rightarrow> json \<Rightarrow> json option \<Rightarrow> instant \<Rightarrow> event_row" where
  "new_event_row i w e sub seg now = \<lparr>er_id = i, er_webhook_id = w, er_event_name = ev_EventName e,
     er_event_time = ev_EventTime e, er_subscriber_data = sub, er_segment_data = seg,
     er_status = ''pending'', er_attempts = 0, er_last_attempt_at = None, er_created_at = now,
     er_processed_at = None, er_next_attempt_at = None, er_processing_instance = None,
     er_processing_started_at = None\<rparr>"

text \<open>
  The INSERT draws its id from the table's sequence, also when the foreign key on
  \<open>webhook_configs(id)\<close> then refuses the row.
\<close>

definition insert_event :: "instant \<Rightarrow> webhook_event \<Rightarrow> json \<Rightarrow> json option \<Rightarrow> int \<Rightarrow> string dbm" where
  "insert_event now e sub seg w d = (let i = db_next_event d; d' = d\<lparr>db_next_event := i + 1\<rparr> in
     case find_config w d of
       None \<Rightarrow> (Inl (Driver ''ERROR: insert or update on table webhook_events violates foreign key constraint (SQLSTATE 23503)''), d')
     | Some _ \<Rightarrow> (let r = new_event_row i w e sub seg now in
         (Inr (show_int i),
          d'\<lparr>db_events := db_events d' @ [r],
             db_notes := db_notes d' @ notify_webhook_event_change ''INSERT'' now r\<rparr>)))"

definition StoreEvent :: "instant \<Rightarrow> webhook_event \<Rightarrow> string dbm" where
  "StoreEvent now e = dbm_bind (dbm_lift (marshal_subscriber (ev_Subscriber e))) (\<lambda>sub.
     db_statement (dbm_bind (int4_param (ev_WebhookID e))
       (insert_event now e sub (map_option marshal_segment (ev_Segment e)))))"

definition UpdateEventAttempts :: "instant \<Rightarrow> string \<Rightarrow> int \<Rightarrow> instant option \<Rightarrow> unit dbm" where
  "UpdateEventAttempts now eventID attempts lastAttempt = db_statement (dbm_bind (int4_param eventID) (\<lambda>i.
     dbm_bind (update_events now (\<lambda>r. er_id r = i)
       (\<lambda>r. r\<lparr>er_attempts := attempts, er_last_attempt_at := lastAttempt\<rparr>)) (\<lambda>_. dbm_ret ())))"

definition insert_delivery :: "instant \<Rightarrow> string \<Rightarrow> string \<Rightarrow> string \<Rightarrow> int \<Rightarrow> unit dbm" where
  "insert_delivery now status response errStr i d =
     (let n = db_next_delivery d; d' = d\<lparr>db_next_delivery := n + 1\<rparr> in
      if i \<in> er_id ` set (db_events d)
      then (Inr (), d'\<lparr>db_deliveries := db_deliveries d' @
             [\<lparr>dr_id = n, dr_event_id = i, dr_status = status, dr_response = response,
               dr_error = errStr, dr_timestamp = now\<rparr>]\<rparr>)
      else (Inl (Driver ''ERROR: insert or update on table delivery_attempts violates foreign key constraint (SQLSTATE 23503)''), d'))"

text \<open>The error of the INSERT is dropped, so the method has no result.\<close>

definition LogDeliveryAttempt :: "instant \<Rightarrow> string \<Rightarrow> bool \<Rightarrow> string \<Rightarrow> goerr option \<Rightarrow> database \<Rightarrow> database" where
  "LogDeliveryAttempt now eventID success response err d =
     (let status = (if \<not> success then ''failed'' else ''success'');
          errStr = (case err of None \<Rightarrow> '''' | Some e \<Rightarrow> err_text e)
      in snd (db_statement (dbm_bind (int4_param eventID) (insert_delivery now status response errStr)) d))"

section \<open>Scanning a row\<close>

definition scanEventFromRow :: "event_row \<Rightarrow> webhook_event result" where
  "scanEventFromRow r =
     (let e = zero_event\<lparr>ev_ID := show_int (er_id r), ev_WebhookID := show_int (er_webhook_id r),
        ev_EventName := er_event_name r, ev_EventTime := er_event_time r,
        ev_Status := er_status r, ev_Attempts := er_attempts r,
        ev_LastAttemptAt := er_last_attempt_at r, ev_CreatedAt := er_created_at r,
        ev_ProcessedAt := er_processed_at r, ev_NextAttemptAt := er_next_attempt_at r,
        ev_ProcessingStartedAt := er_processing_started_at r,
        ev_ProcessingInstance := er_processing_instance r\<rparr>
      in case UnmarshalSubscriber (er_subscriber_data r) zero_subscriber of
        Inl err \<Rightarrow> Inl (Wrap ''error parsing subscriber data'' err)
      | Inr sub \<Rightarrow> (case er_segment_data r of
          None \<Rightarrow> Inr (e\<lparr>ev_Subscriber := sub\<rparr>)
        | Some j \<Rightarrow> (case UnmarshalSegment j zero_segment of
            Inl err \<Rightarrow> Inl (Wrap ''error parsing segment data'' err)
          | Inr sg \<Rightarrow> Inr (e\<lparr>ev_Subscriber := sub, ev_Segment := Some sg\<rparr>))))"

fun prepareEventsFromRows :: "event_row list \<Rightarrow> (webhook_event list \<times> string list) result" where
  "prepareEventsFromRows [] = Inr ([], [])"
| "prepareEventsFromRows (r # rs) = (case scanEventFromRow r of
     Inl e \<Rightarrow> Inl (Wrap ''error scanning event row'' e)
   | Inr ev \<Rightarrow> map_sum id (\<lambda>(evs, ids). (ev # evs, ev_ID ev # ids)) (prepareEventsFromRows rs))"

section \<open>Claiming one event\<close>

definition mark_processing :: "string \<Rightarrow> instant \<Rightarrow> event_row \<Rightarrow> event_row" where
  "mark_processing inst now r = r\<lparr>er_status := ''processing'', er_processing_instance := Some inst,
     er_processing_started_at := Some now, er_attempts := er_attempts r + 1\<rparr>"

text \<open>\<open>SELECT ... WHERE id = $1 AND status = 'pending' FOR UPDATE SKIP LOCKED\<close>\<close>

definition select_pending :: "int \<Rightarrow> event_row dbm" where
  "select_pending i d = (case List.find (\<lambda>r. er_id r = i \<and> er_status r = ''pending'' \<and> i \<notin> set (db_locked d)) (db_events d) of
     None \<Rightarrow> (Inl NoRows, d)
   | Some r \<Rightarrow> (Inr r, d))"

definition not_claimable :: "string \<Rightarrow> goerr" where
  "not_claimable eventID = Errorf (''event '' @ eventID @ '' not found or already being processed'')"

definition fetch_error :: "string \<Rightarrow> 'a dbm \<Rightarrow> 'a dbm" where
  "fetch_error eventID m d = (case m d of
     (Inl NoRows, d') \<Rightarrow> (Inl (not_claimable eventID), d')
   | (Inl e, d') \<Rightarrow> (Inl (Wrap (''error fetching event '' @ eventID) e), d')
   | (Inr x, d') \<Rightarrow> (Inr x, d'))"

definition claim_tx :: "instant \<Rightarrow> string \<Rightarrow> string \<Rightarrow> webhook_event dbm" where
  "claim_tx now eventID processingInstance =
     dbm_bind (fetch_error eventID (dbm_bind (db_statement (dbm_bind (int4_param eventID) select_pending))
                (\<lambda>r. dbm_lift (scanEventFromRow r)))) (\<lambda>event.
     dbm_bind (dbm_wrap (''error marking event '' @ ev_ID event @ '' as processing'')
       (db_statement (dbm_bind (int4_param (ev_ID event)) (\<lambda>i.
          update_events now (\<lambda>r. er_id r = i) (mark_processing processingInstance now))))) (\<lambda>_.
     dbm_ret event))"

definition GetAndMarkEventByID :: "instant \<Rightarrow> string \<Rightarrow> string \<Rightarrow> webhook_event dbm" where
  "GetAndMarkEventByID now eventID processingInstance =
     dbm_bind (withTransaction (claim_tx now eventID processingInstance))
       (\<lambda>event. dbm_ret (event\<lparr>ev_ProcessingInstance := Some processingInstance\<rparr>))"

section \<open>Releasing, retrying, finishing\<close>

definition release_row :: "event_row \<Rightarrow> event_row" where
  "release_row r = r\<lparr>er_status := ''pending'', er_processing_instance := None,
     er_processing_started_at := None\<rparr>"

definition ReleaseEvent :: "instant \<Rightarrow> string \<Rightarrow> unit dbm" where
  "ReleaseEvent now eventID = withTransaction (
     dbm_bind (dbm_wrap ''failed to release event''
       (db_statement (dbm_bind (int4_param eventID) (\<lambda>i.
          update_events now (\<lambda>r. er_id r = i) release_row)))) (\<lambda>_. dbm_ret ()))"

definition retry_row :: "instant \<Rightarrow> instant \<Rightarrow> event_row \<Rightarrow> event_row" where
  "retry_row now nextAttemptAt r = r\<lparr>er_status := ''pending'', er_last_attempt_at := Some now,
     er_next_attempt_at := Some nextAttemptAt, er_processing_instance := None,
     er_processing_started_at := None\<rparr>"

definition UpdateRetrySchedule :: "instant \<Rightarrow> instant \<Rightarrow> string \<Rightarrow> duration \<Rightarrow> unit dbm" where
  "UpdateRetrySchedule now clock eventID delay = (let nextAttemptAt = clock + delay in
     withTransaction (
       dbm_bind (dbm_wrap ''failed to schedule retry''
         (db_statement (dbm_bind (int4_param eventID) (\<lambda>i.
            update_events now (\<lambda>r. er_id r = i) (retry_row now nextAttemptAt))))) (\<lambda>rowsAffected.
       if rowsAffected = 0
       then dbm_throw (Errorf (''event '' @ eventID @ '' not found or already processed''))
       else dbm_ret ())))"

definition stalled :: "instant \<Rightarrow> event_row \<Rightarrow> bool" where
  "stalled limit r \<longleftrightarrow> er_status r = ''processing'' \<and>
     (case er_processing_started_at r of None \<Rightarrow> False | Some t \<Rightarrow> t < limit)"

definition UpdateStalledEventsToPending :: "instant \<Rightarrow> instant \<Rightarrow> duration \<Rightarrow> nat dbm" where
  "UpdateStalledEventsToPending now clock stalledTimeout = dbm_wrap ''failed to cleanup stalled events''
     (db_statement (update_events now (stalled (clock - stalledTimeout)) release_row))"

definition UpdateEventStatus :: "instant \<Rightarrow> string \<Rightarrow> string \<Rightarrow> unit dbm" where
  "UpdateEventStatus now eventID status = dbm_wrap (''failed to update event status to '' @ status)
     (db_statement (dbm_bind (int4_param eventID) (\<lambda>i.
        dbm_bind (update_events now (\<lambda>r. er_id r = i) (\<lambda>r. r\<lparr>er_status := status\<rparr>)) (\<lambda>_. dbm_ret ()))))"

section \<open>Well-formed tables\<close>

text \<open>
  A row is well formed if its status is one of the four the service uses, its attempts are not
  negative, and its claim columns agree with its status: a pending row names no instance, a
  processing row names the instance and the time it started.
\<close>

definition row_ok :: "event_row \<Rightarrow> bool" where
  "row_ok r \<longleftrightarrow> er_status r \<in> {''pending'', ''processing'', ''success'', ''failed''} \<and> 0 \<le> er_attempts r \<and>
     (er_status r = ''pending'' \<longrightarrow> er_processing_instance r = None \<and> er_processing_started_at r = None) \<and>
     (er_status r = ''processing'' \<longrightarrow> er_processing_instance r \<noteq> None \<and> er_processing_started_at r \<noteq> None)"

text \<open>Ids are drawn from the sequence, and every event and attempt refers to a row that exists.\<close>

definition db_wf :: "database \<Rightarrow> bool" where
  "db_wf d \<longleftrightarrow> distinct (map er_id (db_events d)) \<and> (\<forall>r \<in> set (db_events d). er_id r < db_next_event d \<and> row_ok r) \<and>
     (\<forall>r \<in> set (db_events d). er_webhook_id r \<in> cr_id ` set (db_configs d)) \<and>
     (\<forall>a \<in> set (db_deliveries d). dr_event_id a \<in> er_id ` set (db_events d))"

definition wf_kept :: "database \<Rightarrow> database \<Rightarrow> bool" where
  "wf_kept d d' \<longleftrightarrow> (db_wf d \<longrightarrow> db_wf d')"

text \<open>
  History: no event and no delivery attempt ever disappears, the columns written by the INSERT never
  change, and configurations are not touched.
\<close>

definition same_origin :: "event_row \<Rightarrow> event_row \<Rightarrow> bool" where
  "same_origin r r' \<longleftrightarrow> er_id r' = er_id r \<and> er_webhook_id r' = er_webhook_id r \<and>
     er_event_name r' = er_event_name r \<and> er_event_time r' = er_event_time r \<and>
     er_subscriber_data r' = er_subscriber_data r \<and> er_segment_data r' = er_segment_data r \<and>
     er_created_at r' = er_created_at r"

definition db_grows :: "database \<Rightarrow> database \<Rightarrow> bool" where
  "db_grows d d' \<longleftrightarrow> db_configs d' = db_configs d \<and> db_int4in d' = db_int4in d \<and> db_next_event d \<le> db_next_event d' \<and>
     (\<exists>new. list_all2 same_origin (db_events d @ new) (db_events d')) \<and>
     (\<exists>new. db_deliveries d' = db_deliveries d @ new)"

lemma same_origin_refl [simp, intro]: "same_origin r r"
  by (simp add: same_origin_def)

lemma same_origin_trans: "same_origin a b \<Longrightarrow> same_origin b c \<Longrightarrow> same_origin a c"
  by (simp add: same_origin_def)

lemma same_tables_wf: "same_tables d d' \<Longrightarrow> db_wf d' \<longleftrightarrow> db_wf d"
  by (simp add: db_wf_def same_tables_fields)

lemma list_all2_same_origin_refl: "list_all2 same_origin xs xs"
  by (simp add: list_all2_same)

lemma list_all2_extend: "\<exists>new. list_all2 same_origin (xs @ new) (xs @ ys)"
  by (rule exI, rule list_all2_same_origin_refl)

lemma db_grows_trans:
  assumes "db_grows a b" and "db_grows b c"
  shows "db_grows a c"
proof -
  obtain n1 n2 where n1: "list_all2 same_origin (db_events a @ n1) (db_events b)"
    and n2: "list_all2 same_origin (db_events b @ n2) (db_events c)"
    using assms by (auto simp: db_grows_def)
  have "list_all2 same_origin ((db_events a @ n1) @ n2) (db_events b @ n2)"
    using n1 by (rule list_all2_appendI) (rule list_all2_same_origin_refl)
  then have "list_all2 same_origin (db_events a @ (n1 @ n2)) (db_events c)"
    using list_all2_trans [OF same_origin_trans _ n2] by simp
  moreover obtain x y where "db_deliveries b = db_deliveries a @ x" "db_deliveries c = db_deliveries b @ y"
    using assms by (auto simp: db_grows_def)
  ultimately show ?thesis using assms by (auto simp: db_grows_def)
qed

interpretation wf: db_frame wf_kept
  by unfold_locales (auto simp: wf_kept_def same_tables_wf)

interpretation hist: db_frame db_grows
proof unfold_locales
  fix d d' assume "same_tables d d'"
  then show "db_grows d d'"
    by (auto simp: db_grows_def same_tables_fields intro!: exI [of _ "[]"] list_all2_same_origin_refl)
qed (rule db_grows_trans)

text \<open>What an UPDATE has to do to one row for the statement to keep each relation.\<close>

lemma update_events_wf:
  assumes "\<And>r. row_ok r \<Longrightarrow> p r \<Longrightarrow> row_ok (f r)"
    and "\<And>r. er_id (f r) = er_id r" and "\<And>r. er_webhook_id (f r) = er_webhook_id r"
  shows "db_keeps wf_kept (update_events now p f)"
proof -
  have ids: "map er_id (map (\<lambda>r. if p r then f r else r) rs) = map er_id rs" for rs
    using assms(2) by (intro map_eq_conv_upd) simp
  have img: "er_id ` (\<lambda>r. if p r then f r else r) ` A = er_id ` A" for A
    unfolding image_image using assms(2) by (intro image_cong) auto
  show ?thesis
    unfolding db_keeps_def wf_kept_def update_events_def Let_def snd_conv db_wf_def
    using assms by (auto simp del: map_map if_image_distrib simp: ids img)
qed

lemma update_events_grows:
  assumes "\<And>r. same_origin r (f r)"
  shows "db_keeps db_grows (update_events now p f)"
proof -
  have "list_all2 same_origin rs (map (\<lambda>r. if p r then f r else r) rs)" for rs
    using assms by (induction rs) auto
  then show ?thesis
    by (auto simp: db_keeps_def db_grows_def update_events_def Let_def intro!: exI [of _ "[]"])
qed

lemma row_ok_mark: "row_ok r \<Longrightarrow> row_ok (mark_processing inst now r)"
  by (simp add: row_ok_def mark_processing_def)

lemma row_ok_release: "row_ok r \<Longrightarrow> row_ok (release_row r)"
  by (simp add: row_ok_def release_row_def)

lemma row_ok_retry: "row_ok r \<Longrightarrow> row_ok (retry_row now t r)"
  by (simp add: row_ok_def retry_row_def)

lemma row_ok_attempts: "row_ok r \<Longrightarrow> 0 \<le> n \<Longrightarrow> row_ok (r\<lparr>er_attempts := n, er_last_attempt_at := t\<rparr>)"
  by (simp add: row_ok_def)

lemma row_ok_status: "row_ok r \<Longrightarrow> st \<in> {''success'', ''failed''} \<Longrightarrow> row_ok (r\<lparr>er_status := st\<rparr>)"
  by (auto simp: row_ok_def)

lemmas row_ok_intros = row_ok_mark row_ok_release row_ok_retry row_ok_attempts row_ok_status

lemma same_origin_updates [simp]:
  "same_origin r (mark_processing inst now r)" "same_origin r (release_row r)"
  "same_origin r (retry_row now t r)" "same_origin r (r\<lparr>er_attempts := n, er_last_attempt_at := u\<rparr>)"
  "same_origin r (r\<lparr>er_status := st\<rparr>)"
  by (simp_all add: same_origin_def mark_processing_def release_row_def retry_row_def)

lemma row_update_ids [simp]:
  "er_id (mark_processing inst now r) = er_id r" "er_webhook_id (mark_processing inst now r) = er_webhook_id r"
  "er_id (release_row r) = er_id r" "er_webhook_id (release_row r) = er_webhook_id r"
  "er_id (retry_row now t r) = er_id r" "er_webhook_id (retry_row now t r) = er_webhook_id r"
  by (simp_all add: mark_processing_def release_row_def retry_row_def)

section \<open>Every method keeps the tables well formed, and loses nothing\<close>

lemma wf_select_pending: "db_keeps wf_kept (select_pending i)"
  by (rule wf.keeps_pure) (auto simp: select_pending_def split: option.split)

lemma hist_select_pending: "db_keeps db_grows (select_pending i)"
  by (rule hist.keeps_pure) (auto simp: select_pending_def split: option.split)

lemma tables_select_pending: "db_keeps same_tables (select_pending i)"
  by (rule tables.keeps_pure) (auto simp: select_pending_def split: option.split)

lemma fetch_error_snd [simp]: "snd (fetch_error eventID m d) = snd (m d)"
  by (auto simp: fetch_error_def split: prod.split sum.split goerr.split)

lemma keeps_fetch_error: "db_keeps R m \<Longrightarrow> db_keeps R (fetch_error eventID m)"
  by (simp add: db_keeps_def)

lemma wf_insert_event:
  "db_keeps wf_kept (insert_event now e sub seg w)"
  unfolding db_keeps_def wf_kept_def
proof (intro allI impI)
  fix d assume wf: "db_wf d"
  show "db_wf (snd (insert_event now e sub seg w d))"
  proof (cases "find_config w d")
    case None
    with wf show ?thesis by (auto simp: insert_event_def Let_def db_wf_def intro: less_trans)
  next
    case (Some c)
    then have "w \<in> cr_id ` set (db_configs d)"
      unfolding find_config_def by (auto dest: find_Some_in)
    moreover have "db_next_event d \<notin> er_id ` set (db_events d)"
      using wf by (auto simp: db_wf_def)
    ultimately show ?thesis using wf Some
      by (auto simp: insert_event_def Let_def db_wf_def new_event_row_def row_ok_def intro: less_trans)
  qed
qed

lemma hist_insert_event: "db_keeps db_grows (insert_event now e sub seg w)"
  by (auto simp: db_keeps_def db_grows_def insert_event_def Let_def list_all2_extend
      list_all2_extend [of _ "[]", simplified] split: option.split)

lemma wf_insert_delivery: "db_keeps wf_kept (insert_delivery now st rs er i)"
  by (auto simp: db_keeps_def wf_kept_def insert_delivery_def Let_def db_wf_def)

lemma hist_insert_delivery: "db_keeps db_grows (insert_delivery now st rs er i)"
  by (auto simp: db_keeps_def db_grows_def insert_delivery_def Let_def list_all2_same_origin_refl
      intro: exI [of _ "[]"])

lemma wf_StoreEvent: "db_keeps wf_kept (StoreEvent now e)"
  unfolding StoreEvent_def by (intro wf.keeps_intros wf_insert_event)

lemma hist_StoreEvent: "db_keeps db_grows (StoreEvent now e)"
  unfolding StoreEvent_def by (intro hist.keeps_intros hist_insert_event)

lemma wf_UpdateEventAttempts: "0 \<le> n \<Longrightarrow> db_keeps wf_kept (UpdateEventAttempts now eventID n la)"
  unfolding UpdateEventAttempts_def
  by (intro wf.keeps_intros update_events_wf) (simp_all add: row_ok_intros)

lemma hist_UpdateEventAttempts: "db_keeps db_grows (UpdateEventAttempts now eventID n la)"
  unfolding UpdateEventAttempts_def by (intro hist.keeps_intros update_events_grows) simp

lemma wf_LogDeliveryAttempt: "wf_kept d (LogDeliveryAttempt now eventID success response err d)"
proof -
  have "db_keeps wf_kept (db_statement (dbm_bind (int4_param eventID) (insert_delivery now st response er)))" for st er
    by (intro wf.keeps_intros wf_insert_delivery)
  then show ?thesis by (simp add: LogDeliveryAttempt_def db_keeps_def)
qed

lemma hist_LogDeliveryAttempt: "db_grows d (LogDeliveryAttempt now eventID success response err d)"
proof -
  have "db_keeps db_grows (db_statement (dbm_bind (int4_param eventID) (insert_delivery now st response er)))" for st er
    by (intro hist.keeps_intros hist_insert_delivery)
  then show ?thesis by (simp add: LogDeliveryAttempt_def db_keeps_def)
qed

lemma wf_GetAndMarkEventByID: "db_keeps wf_kept (GetAndMarkEventByID now eventID inst)"
  unfolding GetAndMarkEventByID_def claim_tx_def
  by (intro wf.keeps_intros keeps_fetch_error wf_select_pending update_events_wf)
    (simp_all add: row_ok_intros)

lemma hist_GetAndMarkEventByID: "db_keeps db_grows (GetAndMarkEventByID now eventID inst)"
  unfolding GetAndMarkEventByID_def claim_tx_def
  by (intro hist.keeps_intros keeps_fetch_error hist_select_pending update_events_grows) simp

lemma wf_ReleaseEvent: "db_keeps wf_kept (ReleaseEvent now eventID)"
  unfolding ReleaseEvent_def by (intro wf.keeps_intros update_events_wf) (simp_all add: row_ok_intros)

lemma hist_ReleaseEvent: "db_keeps db_grows (ReleaseEvent now eventID)"
  unfolding ReleaseEvent_def by (intro hist.keeps_intros update_events_grows) simp

lemma keeps_if: "(b \<Longrightarrow> db_keeps R m) \<Longrightarrow> (\<not> b \<Longrightarrow> db_keeps R n) \<Longrightarrow> db_keeps R (if b then m else n)"
  by simp

lemma wf_UpdateRetrySchedule: "db_keeps wf_kept (UpdateRetrySchedule now clock eventID delay)"
  unfolding UpdateRetrySchedule_def Let_def
  by (intro wf.keeps_intros keeps_if update_events_wf) (simp_all add: row_ok_intros)

lemma hist_UpdateRetrySchedule: "db_keeps db_grows (UpdateRetrySchedule now clock eventID delay)"
  unfolding UpdateRetrySchedule_def Let_def
  by (intro hist.keeps_intros keeps_if update_events_grows) simp

lemma wf_UpdateStalledEventsToPending: "db_keeps wf_kept (UpdateStalledEventsToPending now clock timeout)"
  unfolding UpdateStalledEventsToPending_def
  by (intro wf.keeps_intros update_events_wf) (simp_all add: row_ok_intros)

lemma hist_UpdateStalledEventsToPending: "db_keeps db_grows (UpdateStalledEventsToPending now clock timeout)"
  unfolding UpdateStalledEventsToPending_def by (intro hist.keeps_intros update_events_grows) simp

lemma wf_UpdateEventStatus:
  "st \<in> {''success'', ''failed''} \<Longrightarrow> db_keeps wf_kept (UpdateEventStatus now eventID st)"
  unfolding UpdateEventStatus_def by (intro wf.keeps_intros update_events_wf) (simp_all add: row_ok_intros)

lemma hist_UpdateEventStatus: "db_keeps db_grows (UpdateEventStatus now eventID st)"
  unfolding UpdateEventStatus_def by (intro hist.keeps_intros update_events_grows) simp

lemmas repository_wf [go_inv] = wf_StoreEvent wf_UpdateEventAttempts wf_LogDeliveryAttempt
  wf_GetAndMarkEventByID wf_ReleaseEvent wf_UpdateRetrySchedule wf_UpdateStalledEventsToPending
  wf_UpdateEventStatus

lemmas repository_hist [go_inv] = hist_StoreEvent hist_UpdateEventAttempts hist_LogDeliveryAttempt
  hist_GetAndMarkEventByID hist_ReleaseEvent hist_UpdateRetrySchedule
  hist_UpdateStalledEventsToPending hist_UpdateEventStatus

section \<open>What a claim does\<close>

lemma select_pending_InrE [elim!]:
  assumes "select_pending i d = (Inr r, d')"
  obtains "d' = d" "r \<in> set (db_events d)" "er_id r = i" "er_status r = ''pending''" "i \<notin> set (db_locked d)"
  using assms by (auto simp: select_pending_def split: option.splits dest!: find_Some_in)

lemma fetch_error_InrE [elim!]:
  assumes "fetch_error eventID m d = (Inr x, d')"
  obtains "m d = (Inr x, d')"
  using assms by (auto simp: fetch_error_def split: prod.splits sum.splits goerr.splits)

lemma scan_fields:
  assumes "scanEventFromRow r = Inr ev"
  shows "ev_ID ev = show_int (er_id r)" "ev_WebhookID ev = show_int (er_webhook_id r)"
    "ev_EventName ev = er_event_name r" "ev_EventTime ev = er_event_time r"
    "ev_Status ev = er_status r" "ev_Attempts ev = er_attempts r" "ev_CreatedAt ev = er_created_at r"
    "UnmarshalSubscriber (er_subscriber_data r) zero_subscriber = Inr (ev_Subscriber ev)"
    "case er_segment_data r of None \<Rightarrow> ev_Segment ev = None
       | Some j \<Rightarrow> \<exists>sg. UnmarshalSegment j zero_segment = Inr sg \<and> ev_Segment ev = Some sg"
  using assms by (auto simp: scanEventFromRow_def Let_def zero_event_def split: sum.splits option.splits)

text \<open>The rows after \<open>UPDATE ... WHERE id = i\<close>.\<close>

definition set_row :: "int \<Rightarrow> (event_row \<Rightarrow> event_row) \<Rightarrow> event_row list \<Rightarrow> event_row list" where
  "set_row i f rs = map (\<lambda>r. if er_id r = i then f r else r) rs"

lemma update_one_InrE [elim!]:
  assumes "update_events now (\<lambda>r. er_id r = i) f d = (Inr n, d')"
  obtains "n = length (filter (\<lambda>r. er_id r = i) (db_events d))"
    "d' = d\<lparr>db_events := set_row i f (db_events d), db_notes := db_notes d @
       concat (map (\<lambda>r. notify_webhook_event_change ''UPDATE'' now (f r)) (filter (\<lambda>r. er_id r = i) (db_events d)))\<rparr>"
  using assms by (auto simp: update_events_def Let_def set_row_def)

lemma notify_marked [simp]:
  "notify_webhook_event_change ''UPDATE'' now (mark_processing inst t r) = []"
  by (simp add: notify_webhook_event_change_def mark_processing_def)

text \<open>
  A claim that returns an event has found that event's row pending and unlocked, has marked exactly
  that row as processing, and has changed nothing else.
\<close>

lemma claim_InrE:
  assumes c: "GetAndMarkEventByID now s inst d = (Inr ev, d')" and rb: "reads_back d"
  obtains i r d1 where "db_int4in d s = Some i" "r \<in> set (db_events d)" "er_id r = i"
    "er_status r = ''pending''" "i \<notin> set (db_locked d)" "int4_range i"
    "scanEventFromRow r = Inr (ev\<lparr>ev_ProcessingInstance := er_processing_instance r\<rparr>)"
    "ev_ProcessingInstance ev = Some inst"
    "same_tables (d\<lparr>db_events := set_row i (mark_processing inst now) (db_events d)\<rparr>) d'"
proof -
  from bind_InrE [OF c [unfolded GetAndMarkEventByID_def]]
  obtain ev0 where tx: "withTransaction (claim_tx now s inst) d = (Inr ev0, d')"
    and ev: "ev = ev0\<lparr>ev_ProcessingInstance := Some inst\<rparr>"
    by (metis ret_InrE)
  from tx obtain d1 d4 where d1: "same_tables d d1" "claim_tx now s inst d1 = (Inr ev0, d4)"
    and fin: "same_tables d4 d'" by auto
  from d1(2) obtain d2 d3 r i j where st: "same_tables d1 d2" "same_tables d2 d3"
    and i: "db_int4in d2 s = Some i"
    and r: "r \<in> set (db_events d2)" "er_id r = i" "er_status r = ''pending''" "i \<notin> set (db_locked d2)"
    and sc: "scanEventFromRow r = Inr ev0" and j: "db_int4in d3 (ev_ID ev0) = Some j"
    and d4: "d4 = d3\<lparr>db_events := set_row j (mark_processing inst now) (db_events d3)\<rparr>"
    unfolding claim_tx_def by auto
  have e2: "same_tables d d2" and e3: "same_tables d d3" using st d1(1) by (blast intro: same_tables_trans)+
  note f2 = same_tables_fields [OF e2] and f3 = same_tables_fields [OF e3]
  have rng: "int4_range i" using rb i by (simp add: reads_back_def f2)
  have "j = i" using j rb rng r(2) sc by (simp add: reads_back_def f3 scan_fields)
  have "same_tables (d\<lparr>db_events := set_row i (mark_processing inst now) (db_events d)\<rparr>) d4"
    using e3 by (simp add: same_tables_def d4 \<open>j = i\<close> f3)
  then have "same_tables (d\<lparr>db_events := set_row i (mark_processing inst now) (db_events d)\<rparr>) d'"
    using fin by (rule same_tables_trans)
  moreover have "ev_ProcessingInstance ev0 = er_processing_instance r"
    using sc by (auto simp: scanEventFromRow_def Let_def split: sum.splits option.splits)
  ultimately show thesis
    using i r rng sc ev by (intro that [of i r]) (simp_all add: f2)
qed

lemma set_row_ids [simp]:
  assumes "\<And>r. er_id (f r) = er_id r"
  shows "map er_id (set_row i f rs) = map er_id rs"
  unfolding set_row_def using assms by (intro map_eq_conv_upd) simp

lemma set_row_other: "r \<in> set rs \<Longrightarrow> er_id r \<noteq> i \<Longrightarrow> r \<in> set (set_row i f rs)"
  by (force simp: set_row_def)

lemma in_set_row:
  assumes "r' \<in> set (set_row i f rs)"
  obtains r where "r \<in> set rs" "r' = (if er_id r = i then f r else r)"
  using assms by (auto simp: set_row_def)

text \<open>Looking a row up by id.\<close>

definition event_by_id :: "int \<Rightarrow> database \<Rightarrow> event_row option" where
  "event_by_id i d = List.find (\<lambda>r. er_id r = i) (db_events d)"

lemma event_by_id_in:
  "distinct (map er_id (db_events d)) \<Longrightarrow> r \<in> set (db_events d) \<Longrightarrow> event_by_id (er_id r) d = Some r"
  unfolding event_by_id_def by (rule find_unique)

lemma event_by_id_SomeD: "event_by_id i d = Some r \<Longrightarrow> r \<in> set (db_events d) \<and> er_id r = i"
  unfolding event_by_id_def by (rule find_Some_in)

lemma find_set_row:
  assumes "\<And>r. er_id (f r) = er_id r"
  shows "List.find (\<lambda>r. er_id r = j) (set_row i f rs) =
    map_option (\<lambda>r. if j = i then f r else r) (List.find (\<lambda>r. er_id r = j) rs)"
  unfolding set_row_def using assms by (induction rs) auto

lemma find_event_snoc:
  "i \<notin> er_id ` set rs \<Longrightarrow> er_id r = i \<Longrightarrow> List.find (\<lambda>r. er_id r = i) (rs @ [r]) = Some r"
  by (induction rs) auto

text \<open>The state of one event after a claim, in terms of the state before.\<close>

lemma claim_event_by_id:
  assumes c: "GetAndMarkEventByID now s inst d = (Inr ev, d')" and rb: "reads_back d" and wf: "db_wf d"
  obtains i r where "db_int4in d s = Some i" "event_by_id i d = Some r" "er_status r = ''pending''"
    "i \<notin> set (db_locked d)" "event_by_id i d' = Some (mark_processing inst now r)"
    "\<And>j. j \<noteq> i \<Longrightarrow> event_by_id j d' = event_by_id j d"
    "db_notes d' = db_notes d" "db_deliveries d' = db_deliveries d" "db_configs d' = db_configs d"
    "db_int4in d' = db_int4in d" "db_locked d' = db_locked d"
    "ev_ID ev = show_int i" "ev_Attempts ev = er_attempts r" "ev_ProcessingInstance ev = Some inst"
proof -
  from claim_InrE [OF c rb] obtain i r where
    i: "db_int4in d s = Some i" and r: "r \<in> set (db_events d)" "er_id r = i" "er_status r = ''pending''"
      "i \<notin> set (db_locked d)"
    and sc: "scanEventFromRow r = Inr (ev\<lparr>ev_ProcessingInstance := er_processing_instance r\<rparr>)"
    and pi: "ev_ProcessingInstance ev = Some inst"
    and st: "same_tables (d\<lparr>db_events := set_row i (mark_processing inst now) (db_events d)\<rparr>) d'"
    by blast
  have bi: "event_by_id i d = Some r" using wf r by (auto simp: db_wf_def dest: event_by_id_in)
  note f = same_tables_fields [OF st]
  show thesis
    by (rule that [of i r]) (use i r bi pi scan_fields(1,6) [OF sc] in
        \<open>simp_all add: f event_by_id_def find_set_row option.map_id0 option.map_ident\<close>)
qed

text \<open>C1: a claim is exclusive. Once a call has returned an event, a later call for the same id
  fails, whichever instance makes it and whatever faults it meets, until the row is released.\<close>

theorem claim_exclusive:
  assumes wf: "db_wf d" and rb: "reads_back d"
    and first: "GetAndMarkEventByID now s inst d = (Inr ev, d1)"
  shows "\<exists>e. fst (GetAndMarkEventByID now' (ev_ID ev) inst' d1) = Inl e"
proof (rule ccontr)
  assume "\<not> ?thesis"
  then obtain ev2 d2 where second: "GetAndMarkEventByID now' (ev_ID ev) inst' d1 = (Inr ev2, d2)"
    by (metis prod.collapse sum.exhaust)
  from claim_event_by_id [OF first rb wf] obtain i r where
    i: "event_by_id i d1 = Some (mark_processing inst now r)" "ev_ID ev = show_int i" "db_int4in d s = Some i"
      "db_int4in d1 = db_int4in d" .
  then have rb1: "reads_back d1" using rb by (simp add: reads_back_def)
  have wf1: "db_wf d1" using wf db_keepsD [OF wf_GetAndMarkEventByID first] by (simp add: wf_kept_def)
  from claim_event_by_id [OF second rb1 wf1] obtain j r2 where
    j: "db_int4in d1 (ev_ID ev) = Some j" "event_by_id j d1 = Some r2" "er_status r2 = ''pending''" .
  have "int4_range i" using rb i(3) by (simp add: reads_back_def)
  then have "j = i" using j(1) i(2) rb1 by (simp add: reads_back_def)
  with i(1) j(2,3) show False by (auto simp: mark_processing_def)
qed

section \<open>What the methods do when no call fails\<close>

lemma update_one_ok:
  "update_events now (\<lambda>r. er_id r = i) f d =
     (Inr (length (filter (\<lambda>r. er_id r = i) (db_events d))),
      d\<lparr>db_events := set_row i f (db_events d),
        db_notes := db_notes d @ concat (map (\<lambda>r. notify_webhook_event_change ''UPDATE'' now (f r))
          (filter (\<lambda>r. er_id r = i) (db_events d)))\<rparr>)"
  by (simp add: update_events_def set_row_def Let_def)

lemma int4_param_ok: "db_int4in d s = Some i \<Longrightarrow> int4_param s d = (Inr i, d)"
  by (simp add: int4_param_def)

lemma filter_id_unique:
  "distinct (map er_id rs) \<Longrightarrow> r \<in> set rs \<Longrightarrow> er_id r = i \<Longrightarrow> filter (\<lambda>r. er_id r = i) rs = [r]"
proof (induction rs)
  case (Cons a rs)
  then show ?case
    by (cases "er_id a = i") (auto simp: filter_empty_conv image_iff)
qed simp

lemma wf_distinct: "db_wf d \<Longrightarrow> distinct (map er_id (db_events d))"
  by (simp add: db_wf_def)

lemma wf_filter_id:
  assumes "db_wf d" and "event_by_id i d = Some r"
  shows "filter (\<lambda>r. er_id r = i) (db_events d) = [r]"
  using assms by (intro filter_id_unique wf_distinct) (auto dest: event_by_id_SomeD)

lemma select_pending_ok:
  assumes "db_wf d" and "event_by_id i d = Some r" and "er_status r = ''pending''" and "i \<notin> set (db_locked d)"
  shows "select_pending i d = (Inr r, d)"
proof -
  have "List.find (\<lambda>x. er_id x = i \<and> er_status x = ''pending'' \<and> i \<notin> set (db_locked d)) rs = Some r"
    if "distinct (map er_id rs)" "r \<in> set rs" for rs
    using that assms(3,4) event_by_id_SomeD [OF assms(2)] by (induction rs) (auto simp: rev_image_eqI)
  then show ?thesis
    using wf_distinct [OF assms(1)] event_by_id_SomeD [OF assms(2)] by (simp add: select_pending_def)
qed

lemma claim_ok:
  assumes nf: "db_faults d = []" and wf: "db_wf d" and rb: "reads_back d"
    and s: "db_int4in d s = Some i" and r: "event_by_id i d = Some r"
    and ok: "er_status r = ''pending''" "i \<notin> set (db_locked d)" and sc: "scanEventFromRow r = Inr ev"
  shows "GetAndMarkEventByID now s inst d = (Inr (ev\<lparr>ev_ProcessingInstance := Some inst\<rparr>),
     d\<lparr>db_events := set_row i (mark_processing inst now) (db_events d)\<rparr>)"
proof -
  have "int4_range i" using rb s by (simp add: reads_back_def)
  then have e: "db_int4in d (ev_ID ev) = Some i"
    using rb scan_fields(1) [OF sc] event_by_id_SomeD [OF r] by (simp add: reads_back_def)
  have "claim_tx now s inst d = (Inr ev, d\<lparr>db_events := set_row i (mark_processing inst now) (db_events d)\<rparr>)"
    using nf by (simp add: claim_tx_def fetch_error_def dbm_wrap_def dbm_ret_def dbm_lift_def sc update_one_ok
        int4_param_ok [OF s] int4_param_ok [OF e] select_pending_ok [OF wf r ok] wf_filter_id [OF wf r])
  then show ?thesis
    using nf by (simp add: GetAndMarkEventByID_def withTransaction_ok dbm_ret_def)
qed

lemma claim_refused:
  assumes nf: "db_faults d = []" and s: "db_int4in d s = Some i"
    and r: "\<And>r. r \<in> set (db_events d) \<Longrightarrow> er_id r = i \<Longrightarrow> er_status r \<noteq> ''pending'' \<or> i \<in> set (db_locked d)"
  shows "GetAndMarkEventByID now s inst d = (Inl (not_claimable s), d)"
proof -
  have "List.find (\<lambda>r. er_id r = i \<and> er_status r = ''pending'' \<and> i \<notin> set (db_locked d)) (db_events d) = None"
    unfolding find_None_all using r by blast
  then have "select_pending i d = (Inl NoRows, d)" by (simp add: select_pending_def)
  then have "db_statement (dbm_bind (int4_param s) select_pending) d = (Inl NoRows, d)"
    using nf int4_param_ok [OF s] by simp
  then have "claim_tx now s inst d = (Inl (not_claimable s), d)"
    by (simp add: claim_tx_def fetch_error_def)
  then have "withTransaction (claim_tx now s inst) d = (Inl (not_claimable s), d)"
    using nf by (intro withTransaction_fail)
  then show ?thesis by (simp add: GetAndMarkEventByID_def)
qed

lemma find_config_ex: "w \<in> cr_id ` set (db_configs d) \<Longrightarrow> \<exists>c. find_config w d = Some c"
  by (cases "find_config w d") (auto simp: find_config_def find_None_all)

lemma StoreEvent_ok:
  assumes "db_faults d = []" and "db_int4in d (ev_WebhookID e) = Some w" and "w \<in> cr_id ` set (db_configs d)"
    and "marshal_subscriber (ev_Subscriber e) = Inr j"
  shows "StoreEvent now e d = (Inr (show_int (db_next_event d)),
    (let r = new_event_row (db_next_event d) w e j (map_option marshal_segment (ev_Segment e)) now in
     d\<lparr>db_next_event := db_next_event d + 1, db_events := db_events d @ [r],
       db_notes := db_notes d @ [notify_payload ''INSERT'' (db_next_event d) w now]\<rparr>))"
proof -
  obtain c where "find_config w d = Some c" using find_config_ex [OF assms(3)] by blast
  then show ?thesis
    using assms by (simp add: StoreEvent_def dbm_lift_def int4_param_ok insert_event_def Let_def
        notify_webhook_event_change_def due_def new_event_row_def)
qed

text \<open>The event a claim of a stored row returns, but for the instance, and the database with that row.\<close>

definition stored_event :: "int \<Rightarrow> int \<Rightarrow> instant \<Rightarrow> webhook_event \<Rightarrow> webhook_event" where
  "stored_event i w now e = zero_event\<lparr>ev_ID := show_int i, ev_WebhookID := show_int w,
      ev_EventName := ev_EventName e, ev_EventTime := ev_EventTime e, ev_Status := ''pending'',
      ev_CreatedAt := now, ev_Subscriber := ev_Subscriber e, ev_Segment := ev_Segment e\<rparr>"

definition stored_db :: "instant \<Rightarrow> event_row \<Rightarrow> database \<Rightarrow> database" where
  "stored_db now r d = d\<lparr>db_next_event := er_id r + 1, db_events := db_events d @ [r],
     db_notes := db_notes d @ [notify_payload ''INSERT'' (er_id r) (er_webhook_id r) now]\<rparr>"

lemma store_row:
  assumes nf: "db_faults d = []" and wf: "db_wf d"
    and w: "db_int4in d (ev_WebhookID e) = Some w" "w \<in> cr_id ` set (db_configs d)"
    and m: "subscriber_marshals (ev_Subscriber e)"
  obtains r where "StoreEvent now e d = (Inr (show_int (db_next_event d)), stored_db now r d)" "db_wf (stored_db now r d)"
    "event_by_id (db_next_event d) (stored_db now r d) = Some r" "er_status r = ''pending''" "er_webhook_id r = w"
    "er_id r = db_next_event d" "er_event_name r = ev_EventName e" "er_attempts r = 0"
    "scanEventFromRow r = Inr (stored_event (db_next_event d) w now e)"
proof -
  from Unmarshal_marshal_subscriber [OF m] obtain j where
    j: "marshal_subscriber (ev_Subscriber e) = Inr j" "UnmarshalSubscriber j zero_subscriber = Inr (ev_Subscriber e)"
    by blast
  let ?n = "db_next_event d"
  let ?r = "new_event_row ?n w e j (map_option marshal_segment (ev_Segment e)) now"
  have r: "er_id ?r = ?n" "er_webhook_id ?r = w" "er_status ?r = ''pending''" "er_event_name ?r = ev_EventName e" "er_attempts ?r = 0"
    by (simp_all add: new_event_row_def)
  have st: "StoreEvent now e d = (Inr (show_int ?n), stored_db now ?r d)"
    using StoreEvent_ok [OF nf w j(1), of now] by (simp add: stored_db_def Let_def r)
  have wf1: "db_wf (stored_db now ?r d)" using wf db_keepsD [OF wf_StoreEvent st] by (simp add: wf_kept_def)
  have "distinct (map er_id (db_events (stored_db now ?r d)))" using wf1 by (simp add: db_wf_def)
  then have "event_by_id ?n (stored_db now ?r d) = Some ?r"
    using event_by_id_in [of "stored_db now ?r d" ?r] r(1) by (simp add: stored_db_def)
  moreover have "scanEventFromRow ?r = Inr (stored_event ?n w now e)"
    by (cases "ev_Segment e") (simp_all add: scanEventFromRow_def new_event_row_def Let_def j(2) stored_event_def
        zero_event_def Unmarshal_marshal_segment)
  ultimately show ?thesis using that [of ?r] st wf1 r by blast
qed


section \<open>The methods of the delivery worker when no call fails\<close>

text \<open>The database after \<open>UPDATE webhook_events SET f WHERE id = i\<close>.\<close>

definition row_updated :: "instant \<Rightarrow> int \<Rightarrow> (event_row \<Rightarrow> event_row) \<Rightarrow> database \<Rightarrow> database" where
  "row_updated now i f d = d\<lparr>db_events := set_row i f (db_events d),
     db_notes := db_notes d @ concat (map (\<lambda>r. notify_webhook_event_change ''UPDATE'' now (f r))
       (filter (\<lambda>r. er_id r = i) (db_events d)))\<rparr>"

lemma row_updated_fields [simp]:
  "db_configs (row_updated now i f d) = db_configs d" "db_deliveries (row_updated now i f d) = db_deliveries d"
  "db_next_event (row_updated now i f d) = db_next_event d" "db_next_delivery (row_updated now i f d) = db_next_delivery d"
  "db_locked (row_updated now i f d) = db_locked d" "db_faults (row_updated now i f d) = db_faults d"
  "db_int4in (row_updated now i f d) = db_int4in d" "db_events (row_updated now i f d) = set_row i f (db_events d)"
  by (simp_all add: row_updated_def)

lemma event_by_id_row_updated:
  assumes "\<And>r. er_id (f r) = er_id r"
  shows "event_by_id j (row_updated now i f d) = map_option (\<lambda>r. if j = i then f r else r) (event_by_id j d)"
  using assms by (simp add: event_by_id_def find_set_row)

lemma in_ids_iff: "i \<in> er_id ` set (db_events d) \<longleftrightarrow> (\<exists>r. event_by_id i d = Some r)"
proof (cases "event_by_id i d")
  case None
  then have "\<forall>r \<in> set (db_events d). er_id r \<noteq> i" by (simp add: event_by_id_def find_None_all)
  then have "i \<notin> er_id ` set (db_events d)" by blast
  with None show ?thesis by simp
next
  case (Some r)
  then have "i \<in> er_id ` set (db_events d)" using event_by_id_SomeD [OF Some] by blast
  with Some show ?thesis by blast
qed

lemma update_param_ok:
  assumes "db_faults d = []" and "db_int4in d s = Some i"
  shows "db_statement (dbm_bind (int4_param s) (\<lambda>i. update_events now (\<lambda>r. er_id r = i) f)) d =
    (Inr (length (filter (\<lambda>r. er_id r = i) (db_events d))), row_updated now i f d)"
  using assms by (simp add: int4_param_ok update_one_ok row_updated_def)

lemma UpdateEventStatus_ok:
  assumes "db_faults d = []" and "db_int4in d s = Some i"
  shows "UpdateEventStatus now s st d = (Inr (), row_updated now i (\<lambda>r. r\<lparr>er_status := st\<rparr>) d)"
  using assms by (simp add: UpdateEventStatus_def dbm_wrap_def int4_param_ok update_one_ok row_updated_def dbm_ret_def)

lemma UpdateEventAttempts_ok:
  assumes "db_faults d = []" and "db_int4in d s = Some i"
  shows "UpdateEventAttempts now s n la d =
    (Inr (), row_updated now i (\<lambda>r. r\<lparr>er_attempts := n, er_last_attempt_at := la\<rparr>) d)"
  using assms by (simp add: UpdateEventAttempts_def int4_param_ok update_one_ok row_updated_def dbm_ret_def)

lemma UpdateRetrySchedule_ok:
  assumes nf: "db_faults d = []" and s: "db_int4in d s = Some i" and r: "event_by_id i d = Some r"
  shows "UpdateRetrySchedule now clock s delay d = (Inr (), row_updated now i (retry_row now (clock + delay)) d)"
proof -
  have "filter (\<lambda>r. er_id r = i) (db_events d) \<noteq> []"
    using event_by_id_SomeD [OF r] by (auto simp: filter_empty_conv)
  then show ?thesis
    using nf s by (simp add: UpdateRetrySchedule_def Let_def withTransaction_ok dbm_wrap_def int4_param_ok
        update_one_ok row_updated_def dbm_ret_def)
qed

lemma LogDeliveryAttempt_ok:
  assumes "db_faults d = []" and "db_int4in d s = Some i" and "event_by_id i d = Some r"
  shows "LogDeliveryAttempt now s success response err d = d\<lparr>db_next_delivery := db_next_delivery d + 1,
    db_deliveries := db_deliveries d @ [\<lparr>dr_id = db_next_delivery d, dr_event_id = i,
      dr_status = (if success then ''success'' else ''failed''), dr_response = response,
      dr_error = (case err of None \<Rightarrow> [] | Some e \<Rightarrow> err_text e), dr_timestamp = now\<rparr>]\<rparr>"
proof -
  have "i \<in> er_id ` set (db_events d)" using assms(3) by (simp add: in_ids_iff)
  then show ?thesis
    using assms by (simp add: LogDeliveryAttempt_def int4_param_ok insert_delivery_def Let_def)
qed

end
