(* ===== verification/Fair_Batch.thy ===== *)
theory Fair_Batch
  imports Repository
begin

text \<open>
  The batch claim of \<open>internal/repository/webhook.go\<close>: the query of \<open>GetEventsToProcess\<close>, common table
  expression by common table expression, the resolution of the column names of its select list, and
  the methods that mark a batch as processing.
\<close>

section \<open>Column names\<close>

text \<open>
  A column named without its table is looked up in every item of the FROM clause: none is an error,
  more than one is an ambiguous reference.
\<close>

definition webhook_events_columns :: "string list" where
  "webhook_events_columns = [''id'', ''webhook_id'', ''event_name'', ''event_time'', ''subscriber_data'',
     ''segment_data'', ''status'', ''created_at'', ''processed_at'', ''attempts'', ''last_attempt_at'',
     ''next_attempt_at'', ''processing_instance'', ''processing_started_at'']"

definition getEventSelectSQL :: "string list" where
  "getEventSelectSQL = [''id'', ''webhook_id'', ''event_name'', ''event_time'', ''subscriber_data'',
     ''segment_data'', ''status'', ''attempts'', ''last_attempt_at'', ''created_at'', ''processed_at'',
     ''next_attempt_at'', ''processing_instance'', ''processing_started_at'']"

type_synonym from_item = "string \<times> string list"

definition resolve_column :: "from_item list \<Rightarrow> string \<Rightarrow> string result" where
  "resolve_column from_items c = (case filter (\<lambda>(a, cs). c \<in> set cs) from_items of
     [] \<Rightarrow> Inl (Driver (''ERROR: column '' @ c @ '' does not exist (SQLSTATE 42703)''))
   | [(a, cs)] \<Rightarrow> Inr a
   | _ \<Rightarrow> Inl (Driver (''ERROR: column reference '' @ c @ '' is ambiguous (SQLSTATE 42702)'')))"

fun resolve_select :: "from_item list \<Rightarrow> string list \<Rightarrow> string list result" where
  "resolve_select from_items [] = Inr []"
| "resolve_select from_items (c # cs) = (case resolve_column from_items c of
     Inl e \<Rightarrow> Inl e
   | Inr a \<Rightarrow> map_sum id (\<lambda>as. a # as) (resolve_select from_items cs))"

definition single_event_from :: "from_item list" where
  "single_event_from = [(''webhook_events'', webhook_events_columns)]"

definition fair_query_from :: "from_item list" where
  "fair_query_from = [(''e'', webhook_events_columns), (''ws'', [''id'', ''rn'']), (''epw'', [''count''])]"

section \<open>The fair selection\<close>

definition ready :: "instant \<Rightarrow> event_row \<Rightarrow> bool" where
  "ready now r \<longleftrightarrow> er_status r = ''pending'' \<and> due now r"

text \<open>\<open>ORDER BY next_attempt_at NULLS FIRST, created_at\<close>\<close>

definition fair_key :: "event_row \<Rightarrow> instant option \<times> instant" where
  "fair_key r = (er_next_attempt_at r, er_created_at r)"

definition webhook_count :: "instant \<Rightarrow> event_row list \<Rightarrow> nat" where
  "webhook_count now rows = length (remdups (map er_webhook_id (filter (ready now) rows)))"

text \<open>\<open>GREATEST(1, CEIL($1::float / NULLIF(count, 0)))\<close>; GREATEST ignores a NULL.\<close>

definition events_per_webhook :: "nat \<Rightarrow> nat \<Rightarrow> nat" where
  "events_per_webhook limit n =
     (if n = 0 then 1 else max 1 (nat \<lceil>rat_of_nat limit / rat_of_nat n\<rceil>))"

definition webhook_partition :: "instant \<Rightarrow> event_row list \<Rightarrow> int \<Rightarrow> event_row list" where
  "webhook_partition now rows w = sort_key fair_key (filter (\<lambda>r. ready now r \<and> er_webhook_id r = w) rows)"

definition row_number :: "instant \<Rightarrow> event_row list \<Rightarrow> event_row \<Rightarrow> nat" where
  "row_number now rows r = Suc (length (takeWhile (\<lambda>x. er_id x \<noteq> er_id r)
     (webhook_partition now rows (er_webhook_id r))))"

definition fair_rows :: "instant \<Rightarrow> nat \<Rightarrow> database \<Rightarrow> event_row list" where
  "fair_rows now limit d = (let rows = db_events d;
       epw = events_per_webhook limit (webhook_count now rows) in
     take limit (filter (\<lambda>r. er_id r \<notin> set (db_locked d))
       (sort_key fair_key (filter (\<lambda>r. ready now r \<and> row_number now rows r \<le> epw) rows))))"

text \<open>The server resolves the names before it runs the query.\<close>

definition GetEventsToProcess :: "instant \<Rightarrow> nat \<Rightarrow> event_row list dbm" where
  "GetEventsToProcess now limit = db_statement
     (dbm_bind (dbm_lift (resolve_select fair_query_from getEventSelectSQL)) (\<lambda>_ d.
        (Inr (fair_rows now limit d), d)))"

section \<open>Marking a batch\<close>

fun int4_params :: "string list \<Rightarrow> int list dbm" where
  "int4_params [] = dbm_ret []"
| "int4_params (s # ss) = dbm_bind (int4_param s) (\<lambda>i. dbm_bind (int4_params ss) (\<lambda>is. dbm_ret (i # is)))"

definition markEventsProcessing :: "instant \<Rightarrow> string list \<Rightarrow> string \<Rightarrow> unit dbm" where
  "markEventsProcessing now eventIDs inst = db_statement (dbm_bind (int4_params eventIDs) (\<lambda>is.
     dbm_bind (update_events now (\<lambda>r. er_id r \<in> set is) (mark_processing inst now)) (\<lambda>_. dbm_ret ())))"

text \<open>What follows the query in \<open>GetAndMarkEventsForProcessing\<close>: the rows are scanned and marked.\<close>

definition prepare_and_mark :: "instant \<Rightarrow> string \<Rightarrow> event_row list \<Rightarrow> webhook_event list dbm" where
  "prepare_and_mark now inst rows =
     dbm_bind (dbm_wrap ''failed to prepare events'' (dbm_lift (prepareEventsFromRows rows))) (\<lambda>(events, eventIDs).
       if events = [] then dbm_ret events
       else dbm_bind (dbm_wrap ''failed to mark events as processing'' (markEventsProcessing now eventIDs inst))
         (\<lambda>_. dbm_ret events))"

definition GetAndMarkEventsForProcessing :: "instant \<Rightarrow> nat \<Rightarrow> string \<Rightarrow> webhook_event list dbm" where
  "GetAndMarkEventsForProcessing now limit inst =
     dbm_bind (dbm_wrap ''failed to get events to process'' (GetEventsToProcess now limit)) (prepare_and_mark now inst)"

section \<open>The names of the two queries\<close>

lemma single_event_resolves:
  "resolve_select single_event_from getEventSelectSQL = Inr (replicate 14 ''webhook_events'')"
  by (simp add: single_event_from_def getEventSelectSQL_def webhook_events_columns_def resolve_column_def
      numeral_eq_Suc)

lemma fair_query_ambiguous:
  "resolve_select fair_query_from getEventSelectSQL =
     Inl (Driver ''ERROR: column reference id is ambiguous (SQLSTATE 42702)'')"
  by (simp add: fair_query_from_def getEventSelectSQL_def webhook_events_columns_def resolve_column_def)

lemma batch_claim_fails:
  "\<exists>e d'. GetAndMarkEventsForProcessing now limit inst d = (Inl (Wrap ''failed to get events to process'' e), d') \<and>
     same_tables d d'"
proof -
  obtain r d' where c: "db_call d = (r, d')" by force
  then have "same_tables d d'" using db_call_same [of d] by simp
  with c show ?thesis
    by (cases r) (simp_all add: GetAndMarkEventsForProcessing_def GetEventsToProcess_def db_statement_def
        dbm_bind_def dbm_wrap_def dbm_lift_def fair_query_ambiguous)
qed

text \<open>C15: the batch query never runs. Its select list names \<open>id\<close> without a table while both
  \<open>webhook_events\<close> and \<open>webhook_selection\<close> have that column, so every call of
  \<open>GetAndMarkEventsForProcessing\<close> fails and leaves the tables as they were; with no failing call
  the error is the server's error about the ambiguous column.\<close>

theorem batch_claim_always_fails:
  "(\<exists>e d'. GetAndMarkEventsForProcessing now limit inst d = (Inl (Wrap ''failed to get events to process'' e), d') \<and>
     same_tables d d') \<and>
   GetAndMarkEventsForProcessing now limit inst (d\<lparr>db_faults := []\<rparr>) = (Inl (Wrap ''failed to get events to process''
     (Driver ''ERROR: column reference id is ambiguous (SQLSTATE 42702)'')), d\<lparr>db_faults := []\<rparr>)"
  using batch_claim_fails [of now limit inst d]
  by (simp add: GetAndMarkEventsForProcessing_def GetEventsToProcess_def dbm_wrap_def dbm_lift_def
      dbm_bind_def fair_query_ambiguous)

section \<open>What the selection would return\<close>

lemma ready_in_partition:
  "r \<in> set rows \<Longrightarrow> ready now r \<Longrightarrow> r \<in> set (webhook_partition now rows (er_webhook_id r))"
  by (simp add: webhook_partition_def)

lemma row_number_take:
  assumes d: "distinct (map er_id rows)" and r: "r \<in> set rows" "ready now r" and k: "row_number now rows r \<le> k"
  shows "r \<in> set (take k (webhook_partition now rows (er_webhook_id r)))"
proof -
  let ?P = "webhook_partition now rows (er_webhook_id r)"
  let ?j = "length (takeWhile (\<lambda>x. er_id x \<noteq> er_id r) ?P)"
  have rP: "r \<in> set ?P" using r by (rule ready_in_partition)
  have sub: "set ?P \<subseteq> set rows" by (auto simp: webhook_partition_def)
  have "takeWhile (\<lambda>x. er_id x \<noteq> er_id r) ?P \<noteq> ?P"
    using rP by (auto simp: takeWhile_eq_all_conv)
  then have "?j \<noteq> length ?P" by (metis takeWhile_eq_take take_all order_refl)
  then have "?j < length ?P" using length_takeWhile_le [of "\<lambda>x. er_id x \<noteq> er_id r" ?P] by linarith
  then have "er_id (?P ! ?j) = er_id r" using nth_length_takeWhile by blast
  moreover have "?P ! ?j \<in> set rows" using \<open>?j < length ?P\<close> sub nth_mem by blast
  ultimately have "?P ! ?j = r" using d r(1) by (auto simp: distinct_map dest: inj_onD)
  moreover have "?j < k" using k by (simp add: row_number_def)
  ultimately show ?thesis using \<open>?j < length ?P\<close>
    by (metis length_take min_less_iff_conj nth_mem nth_take)
qed

lemma length_filter_subset:
  "distinct xs \<Longrightarrow> set (filter P xs) \<subseteq> set ys \<Longrightarrow> length (filter P xs) \<le> length ys"
  by (metis card_length card_mono distinct_card distinct_filter finite_set order_trans)


end
