(* ===== verification/Channel.thy ===== *)
theory Channel
  imports Interfaces
begin

text \<open>
  Go's buffered channels: the two event channels of the service are made with a capacity, sent to
  with a \<open>select\<close> that does not block, and received from by the workers.
\<close>

record 'a chan =
  ch_cap :: nat
  ch_buf :: "'a list"

definition make_chan :: "nat \<Rightarrow> 'a chan" where
  "make_chan n = \<lparr>ch_cap = n, ch_buf = []\<rparr>"

definition chan_len :: "'a chan \<Rightarrow> nat" where
  "chan_len c = length (ch_buf c)"

definition chan_room :: "'a chan \<Rightarrow> bool" where
  "chan_room c \<longleftrightarrow> chan_len c < ch_cap c"

definition chan_send :: "'a \<Rightarrow> 'a chan \<Rightarrow> 'a chan" where
  "chan_send x c = c\<lparr>ch_buf := ch_buf c @ [x]\<rparr>"

definition chan_recv :: "'a chan \<Rightarrow> ('a \<times> 'a chan) option" where
  "chan_recv c = (case ch_buf c of [] \<Rightarrow> None | x # xs \<Rightarrow> Some (x, c\<lparr>ch_buf := xs\<rparr>))"

text \<open>\<open>select { case c <- x: ... default: ... }\<close>: whether the value went in, and the channel after.\<close>

definition select_send :: "'a \<Rightarrow> 'a chan \<Rightarrow> bool \<times> 'a chan" where
  "select_send x c = (if chan_room c then (True, chan_send x c) else (False, c))"

interpretation chan: bounded_queue ch_buf ch_cap chan_room chan_send chan_recv
  by unfold_locales (auto simp: chan_room_def chan_len_def chan_send_def chan_recv_def split: list.splits)

definition chan_ok :: "'a chan \<Rightarrow> bool" where
  "chan_ok c \<longleftrightarrow> chan_len c \<le> ch_cap c"

lemma chan_ok_make [simp, go_inv]: "chan_ok (make_chan n)"
  by (simp add: chan_ok_def chan_len_def make_chan_def)

lemma chan_ok_select_send [go_inv]: "chan_ok c \<Longrightarrow> chan_ok (snd (select_send x c))"
  by (auto simp: select_send_def chan_ok_def chan_room_def chan_len_def chan_send_def)

lemma chan_cap_send [simp]: "ch_cap (chan_send x c) = ch_cap c"
  by (simp add: chan_send_def)

lemma chan_buf_send [simp]: "ch_buf (chan_send x c) = ch_buf c @ [x]"
  by (simp add: chan_send_def)

lemma chan_recv_None [simp]: "chan_recv c = None \<longleftrightarrow> ch_buf c = []"
  by (rule chan.receive_None)

lemma chan_recv_Some [elim]:
  assumes "chan_recv c = Some (x, c')"
  obtains "ch_buf c = x # ch_buf c'" "ch_cap c' = ch_cap c"
  using chan.receive_Some [OF assms] that by blast

end
