(* ===== verification/Float64.thy ===== *)
theory Float64
  imports Go_Prelude "HOL-Library.Log_Nat"
begin

text \<open>
  Go's \<open>float64\<close>: IEEE 754 binary64 with rounding to nearest, ties to even. A finite value is
  the rational number it denotes; every arithmetic operation is the exact rational result,
  rounded. The sign of zero is not kept, since no operation of the service reads it. The
  conversion to an integer truncates, and is implementation-dependent out of range: there it is a
  parameter, as the Go specification says.
\<close>

datatype float64 = NaN | PosInf | NegInf | Fin rat

section \<open>Rounding\<close>

text \<open>\<open>ilog2 x\<close> is the exponent of the binade of \<open>x > 0\<close>.\<close>

definition ilog2 :: "rat \<Rightarrow> int" where
  "ilog2 x = (let (a, b) = quotient_of x; k = bitlen a - bitlen b
              in if 2 powi k \<le> x then k else k - 1)"

definition round_half_even :: "rat \<Rightarrow> int" where
  "round_half_even x = (let f = \<lfloor>x\<rfloor>; r = x - of_int f in
     if r < 1 / 2 then f else if 1 / 2 < r then f + 1 else if even f then f else f + 1)"

definition quantum_exp :: "rat \<Rightarrow> int" where
  "quantum_exp x = max (- 1074) (ilog2 \<bar>x\<bar> - 52)"

definition round_rat :: "rat \<Rightarrow> rat" where
  "round_rat x = (if x = 0 then 0
     else of_int (round_half_even (x / 2 powi quantum_exp x)) * 2 powi quantum_exp x)"

definition f64_inf :: "rat \<Rightarrow> float64" where
  "f64_inf s = (if 0 < s then PosInf else if s < 0 then NegInf else NaN)"

text \<open>A result whose rounded magnitude reaches \<open>2 ^ 1024\<close> is infinite.\<close>

definition f64_round :: "rat \<Rightarrow> float64" where
  "f64_round x = (let y = round_rat x in if y = 0 \<or> ilog2 \<bar>y\<bar> < 1024 then Fin y else f64_inf y)"

section \<open>Operations\<close>

definition f64_of_int :: "int \<Rightarrow> float64" where
  "f64_of_int i = f64_round (of_int i)"

fun f64_neg :: "float64 \<Rightarrow> float64" where
  "f64_neg NaN = NaN"
| "f64_neg PosInf = NegInf"
| "f64_neg NegInf = PosInf"
| "f64_neg (Fin x) = Fin (- x)"

fun f64_add :: "float64 \<Rightarrow> float64 \<Rightarrow> float64" where
  "f64_add (Fin x) (Fin y) = f64_round (x + y)"
| "f64_add PosInf (Fin _) = PosInf"
| "f64_add (Fin _) PosInf = PosInf"
| "f64_add PosInf PosInf = PosInf"
| "f64_add NegInf (Fin _) = NegInf"
| "f64_add (Fin _) NegInf = NegInf"
| "f64_add NegInf NegInf = NegInf"
| "f64_add _ _ = NaN"

fun f64_sign :: "float64 \<Rightarrow> rat" where
  "f64_sign PosInf = 1"
| "f64_sign NegInf = - 1"
| "f64_sign (Fin x) = sgn x"
| "f64_sign NaN = 0"

fun f64_mul :: "float64 \<Rightarrow> float64 \<Rightarrow> float64" where
  "f64_mul NaN _ = NaN"
| "f64_mul _ NaN = NaN"
| "f64_mul (Fin x) (Fin y) = f64_round (x * y)"
| "f64_mul a b = f64_inf (f64_sign a * f64_sign b)"

text \<open>A zero divisor stands for \<open>+0\<close>, the only zero the service divides by.\<close>

fun f64_div :: "float64 \<Rightarrow> float64 \<Rightarrow> float64" where
  "f64_div NaN _ = NaN"
| "f64_div _ NaN = NaN"
| "f64_div (Fin x) (Fin y) = (if y = 0 then f64_inf x else f64_round (x / y))"
| "f64_div (Fin _) _ = Fin 0"
| "f64_div a (Fin y) = f64_inf (f64_sign a * (if y < 0 then - 1 else 1))"
| "f64_div _ _ = NaN"

text \<open>\<open>math.Pow(2, k)\<close> for an integral \<open>k\<close>.\<close>

definition f64_pow2 :: "int \<Rightarrow> float64" where
  "f64_pow2 k = (if 1024 \<le> k then PosInf else if k < - 1074 then Fin 0 else Fin (2 powi k))"

text \<open>The comparisons of Go are those of the class \<open>ord\<close>: with \<open>NaN\<close> they are false.\<close>

instantiation float64 :: ord
begin

fun less_float64 :: "float64 \<Rightarrow> float64 \<Rightarrow> bool" where
  "less_float64 (Fin x) (Fin y) \<longleftrightarrow> x < y"
| "less_float64 (Fin _) PosInf \<longleftrightarrow> True"
| "less_float64 NegInf (Fin _) \<longleftrightarrow> True"
| "less_float64 NegInf PosInf \<longleftrightarrow> True"
| "less_float64 _ _ \<longleftrightarrow> False"

definition less_eq_float64 :: "float64 \<Rightarrow> float64 \<Rightarrow> bool" where
  "less_eq_float64 a b \<longleftrightarrow> a < b \<or> (a = b \<and> a \<noteq> NaN)"

instance ..

end

text \<open>\<open>==\<close> on floats, and \<open>math.Max\<close> (\<open>+Inf\<close> wins over \<open>NaN\<close>, \<open>NaN\<close> over the rest).\<close>

definition f64_eq :: "float64 \<Rightarrow> float64 \<Rightarrow> bool" where
  "f64_eq a b \<longleftrightarrow> a = b \<and> a \<noteq> NaN"

definition f64_max :: "float64 \<Rightarrow> float64 \<Rightarrow> float64" where
  "f64_max a b = (if a = PosInf \<or> b = PosInf then PosInf
     else if a = NaN \<or> b = NaN then NaN else if b < a then a else b)"

definition trunc_rat :: "rat \<Rightarrow> int" where
  "trunc_rat x = (if 0 \<le> x then \<lfloor>x\<rfloor> else - \<lfloor>- x\<rfloor>)"

text \<open>\<open>int64(f)\<close>; \<open>oor\<close> is what the implementation gives for a value out of range.\<close>

definition f64_to_int64 :: "(float64 \<Rightarrow> int) \<Rightarrow> float64 \<Rightarrow> int" where
  "f64_to_int64 oor f = (case f of
     Fin x \<Rightarrow> if min_int64 \<le> trunc_rat x \<and> trunc_rat x \<le> max_int64 then trunc_rat x else oor f
   | _ \<Rightarrow> oor f)"

text \<open>\<open>Duration.Seconds\<close>: whole seconds and the remaining nanoseconds, converted apart.\<close>

definition duration_seconds :: "duration \<Rightarrow> float64" where
  "duration_seconds d = f64_add (f64_of_int (go_div d nano_second))
     (f64_div (f64_of_int (go_mod d nano_second)) (Fin 1000000000))"

section \<open>Rounding keeps representable bounds\<close>

lemma powi_split: "(2::rat) powi (a + b) = 2 powi a * 2 powi b"
  by (simp add: power_int_add)

lemma powi_mono: "a \<le> b \<Longrightarrow> (2::rat) powi a \<le> 2 powi b"
  by (rule power_int_increasing) auto

lemma powi_less_imp: "(2::rat) powi a < 2 powi b \<Longrightarrow> a < b"
  by (metis linorder_not_le powi_mono)

lemma rhe_ge:
  assumes "of_int n \<le> x"
  shows "n \<le> round_half_even x"
proof -
  have "n \<le> \<lfloor>x\<rfloor>" using assms by (simp add: le_floor_iff)
  then show ?thesis by (auto simp: round_half_even_def Let_def)
qed

lemma rhe_le:
  assumes "x \<le> of_int n"
  shows "round_half_even x \<le> n"
proof (cases "x = of_int n")
  case False
  with assms have "\<lfloor>x\<rfloor> < n" by (simp add: floor_less_iff)
  then show ?thesis by (auto simp: round_half_even_def Let_def)
qed (simp add: round_half_even_def)

lemma bitlen_rat:
  assumes a: "0 < a"
  shows "2 powi (bitlen a - 1) \<le> (of_int a :: rat) \<and> (of_int a :: rat) < 2 powi (bitlen a)"
proof -
  have 1: "1 \<le> bitlen a"
    using a bitlen_eq_zero_iff [of a] bitlen_nonneg [of a] by linarith
  have "2 ^ nat (bitlen a - 1) \<le> a" "a < 2 ^ nat (bitlen a)"
    using bitlen_bounds [OF a] by auto
  then have "(2 ^ nat (bitlen a - 1)) \<le> (of_int a :: rat)" "(of_int a :: rat) < 2 ^ nat (bitlen a)"
    by (metis of_int_le_iff of_int_numeral of_int_power,
        metis of_int_less_iff of_int_numeral of_int_power)
  with 1 show ?thesis by (simp add: power_int_nonneg_exp)
qed

lemma ilog2_bounds:
  assumes x: "0 < x"
  shows "2 powi ilog2 x \<le> x \<and> x < 2 powi (ilog2 x + 1)"
proof -
  obtain a b where q: "quotient_of x = (a, b)" by force
  have b: "0 < b" using q by (rule quotient_of_denom_pos)
  have xab: "x = of_int a / of_int b" using q by (rule quotient_of_div)
  with x b have a: "0 < a" by (simp add: zero_less_divide_iff)
  let ?k = "bitlen a - bitlen b"
  note pa = bitlen_rat [OF a] and pb = bitlen_rat [OF b]
  have bp: "0 < (of_int b :: rat)" using b by simp
  have "2 powi (?k - 1) * of_int b \<le> 2 powi (?k - 1) * (2 powi (bitlen b) :: rat)"
    using pb by (intro mult_left_mono) auto
  also have "\<dots> = 2 powi (bitlen a - 1)" by (simp flip: power_int_add)
  finally have lo: "2 powi (?k - 1) \<le> x"
    using pa bp by (simp add: xab pos_le_divide_eq)
  have "(of_int a :: rat) < 2 powi (?k + 1) * 2 powi (bitlen b - 1)"
    using pa by (simp flip: power_int_add)
  also have "\<dots> \<le> 2 powi (?k + 1) * of_int b"
    using pb by (intro mult_left_mono) auto
  finally have hi: "x < 2 powi (?k + 1)" using bp by (simp add: xab pos_divide_less_eq)
  show ?thesis using lo hi by (auto simp: ilog2_def q Let_def)
qed

lemma ilog2_unique:
  assumes "2 powi k \<le> x" and "x < 2 powi (k + 1)"
  shows "ilog2 x = k"
proof -
  have x: "0 < x" using assms(1) by (rule less_le_trans [rotated]) simp
  note b = ilog2_bounds [OF x]
  have "ilog2 x < k + 1" using b assms(2) by (intro powi_less_imp) simp
  moreover have "k < ilog2 x + 1" using b assms(1) by (intro powi_less_imp) simp
  ultimately show ?thesis by simp
qed

text \<open>A representable number: an integer of at most 53 bits, scaled by a power of two.\<close>

definition is_f64 :: "rat \<Rightarrow> bool" where
  "is_f64 x \<longleftrightarrow> (\<exists>m e. x = of_int m * 2 powi e \<and> \<bar>m\<bar> \<le> 2 ^ 53 \<and> - 1074 \<le> e)"

lemma is_f64_zero [simp]: "is_f64 0"
  unfolding is_f64_def by (rule exI [of _ 0]) (auto intro: exI [of _ 0])

lemma is_f64_int: "\<bar>i\<bar> \<le> 2 ^ 53 \<Longrightarrow> is_f64 (of_int i)"
  unfolding is_f64_def by (intro exI [of _ i] exI [of _ 0]) simp

lemma is_f64_powi: "- 1074 \<le> e \<Longrightarrow> is_f64 (2 powi e)"
  unfolding is_f64_def by (intro exI [of _ 1] exI [of _ e]) simp

lemma is_f64_scale: "\<bar>m\<bar> \<le> 2 ^ 53 \<Longrightarrow> - 1074 \<le> e \<Longrightarrow> is_f64 (of_int m * 2 powi e)"
  unfolding is_f64_def by blast

lemma is_f64_neg:
  assumes "is_f64 x"
  shows "is_f64 (- x)"
proof -
  obtain m e where "x = of_int m * 2 powi e" "\<bar>m\<bar> \<le> 2 ^ 53" "- 1074 \<le> e"
    using assms by (auto simp: is_f64_def)
  then have "- x = of_int (- m) * 2 powi e" "\<bar>- m\<bar> \<le> 2 ^ 53" by simp_all
  with \<open>- 1074 \<le> e\<close> show ?thesis unfolding is_f64_def by blast
qed

text \<open>
  Either a representable number is a multiple of the quantum of \<open>x\<close>, or its magnitude is at
  most the power of two at the foot of the binade of \<open>x\<close>.
\<close>

lemma f64_multiple_or_below:
  assumes y: "is_f64 y" and x: "x \<noteq> 0"
  obtains n where "y = of_int n * 2 powi quantum_exp x"
  | "\<bar>y\<bar> \<le> 2 powi ilog2 \<bar>x\<bar>" "quantum_exp x = ilog2 \<bar>x\<bar> - 52"
proof -
  obtain m e where y': "y = of_int m * 2 powi e" and m: "\<bar>m\<bar> \<le> 2 ^ 53" and e: "- 1074 \<le> e"
    using y by (auto simp: is_f64_def)
  let ?q = "quantum_exp x"
  consider "?q \<le> e" | "e < ?q" by linarith
  then show thesis
  proof cases
    case 1
    then have "(2 :: rat) powi e = of_int (2 ^ nat (e - ?q)) * 2 powi ?q"
      using powi_split [of "e - ?q" ?q] by (simp add: power_int_nonneg_exp)
    then have "y = of_int (m * 2 ^ nat (e - ?q)) * 2 powi ?q" by (simp add: y')
    then show thesis by (rule that(1))
  next
    case 2
    with e have q: "?q = ilog2 \<bar>x\<bar> - 52" by (simp add: quantum_exp_def)
    have "\<bar>y\<bar> = of_int \<bar>m\<bar> * 2 powi e" by (simp add: y' abs_mult power_int_abs)
    also have "\<dots> \<le> of_int (2 ^ 53) * 2 powi e"
      using m by (intro mult_right_mono) (simp_all only: of_int_le_iff, simp)
    also have "\<dots> = 2 powi (53 + e)" by (simp only: powi_split) simp
    also have "\<dots> \<le> 2 powi ilog2 \<bar>x\<bar>" using 2 q by (intro powi_mono) simp
    finally show thesis using q by (rule that(2))
  qed
qed

lemma round_rat_multiple_ge:
  assumes "x \<noteq> 0" and "of_int n * 2 powi quantum_exp x \<le> x"
  shows "of_int n * 2 powi quantum_exp x \<le> round_rat x"
proof -
  have "of_int n \<le> x / 2 powi quantum_exp x"
    using assms(2) by (simp add: pos_le_divide_eq)
  then have "n \<le> round_half_even (x / 2 powi quantum_exp x)" by (rule rhe_ge)
  then show ?thesis using assms(1) by (simp add: round_rat_def)
qed

lemma round_rat_multiple_le:
  assumes "x \<noteq> 0" and "x \<le> of_int n * 2 powi quantum_exp x"
  shows "round_rat x \<le> of_int n * 2 powi quantum_exp x"
proof -
  have "x / 2 powi quantum_exp x \<le> of_int n"
    using assms(2) by (simp add: pos_divide_le_eq)
  then have "round_half_even (x / 2 powi quantum_exp x) \<le> n" by (rule rhe_le)
  then show ?thesis using assms(1) by (simp add: round_rat_def)
qed

lemma binade_foot_multiple:
  assumes "quantum_exp x = ilog2 \<bar>x\<bar> - 52"
  shows "2 powi ilog2 \<bar>x\<bar> = of_int (2 ^ 52) * (2 :: rat) powi quantum_exp x"
  using powi_split [of 52 "quantum_exp x"] assms by simp

text \<open>Rounding never crosses a representable number.\<close>

lemma round_rat_ge:
  assumes y: "is_f64 y" and le: "y \<le> x"
  shows "y \<le> round_rat x"
proof (cases "x = 0")
  case True
  with le show ?thesis by (simp add: round_rat_def)
next
  case x: False
  from y x show ?thesis
  proof (cases rule: f64_multiple_or_below)
    case (1 n)
    with x le show ?thesis using round_rat_multiple_ge [of x n] by simp
  next
    case 2
    let ?p = "(2 :: rat) powi ilog2 \<bar>x\<bar>"
    note foot = binade_foot_multiple [OF 2(2)]
    have px: "?p \<le> \<bar>x\<bar>" using ilog2_bounds [of "\<bar>x\<bar>"] x by simp
    show ?thesis
    proof (cases "0 < x")
      case True
      then have "of_int (2 ^ 52) * 2 powi quantum_exp x \<le> x" using px foot by simp
      then have "of_int (2 ^ 52) * 2 powi quantum_exp x \<le> round_rat x"
        by (rule round_rat_multiple_ge [OF x])
      then have "?p \<le> round_rat x" using foot by simp
      with 2(1) show ?thesis by linarith
    next
      case False
      with px le 2(1) have "y = x" "y = - ?p" by linarith+
      then have "y = of_int (- (2 ^ 52)) * 2 powi quantum_exp x" using foot by simp
      with \<open>y = x\<close> show ?thesis using round_rat_multiple_ge [OF x, of "- (2 ^ 52)"] by simp
    qed
  qed
qed

lemma round_rat_le:
  assumes y: "is_f64 y" and le: "x \<le> y"
  shows "round_rat x \<le> y"
proof (cases "x = 0")
  case True
  with le show ?thesis by (simp add: round_rat_def)
next
  case x: False
  from y x show ?thesis
  proof (cases rule: f64_multiple_or_below)
    case (1 n)
    with x le show ?thesis using round_rat_multiple_le [of x n] by simp
  next
    case 2
    let ?p = "(2 :: rat) powi ilog2 \<bar>x\<bar>"
    note foot = binade_foot_multiple [OF 2(2)]
    have px: "?p \<le> \<bar>x\<bar>" using ilog2_bounds [of "\<bar>x\<bar>"] x by simp
    show ?thesis
    proof (cases "x < 0")
      case True
      then have "x \<le> of_int (- (2 ^ 52)) * 2 powi quantum_exp x" using px foot by simp
      then have "round_rat x \<le> of_int (- (2 ^ 52)) * 2 powi quantum_exp x"
        by (rule round_rat_multiple_le [OF x])
      then have "round_rat x \<le> - ?p" using foot by simp
      with 2(1) show ?thesis by linarith
    next
      case False
      with px le 2(1) have "y = x" "y = ?p" by linarith+
      with foot show ?thesis using round_rat_multiple_le [OF x, of "2 ^ 52"] by simp
    qed
  qed
qed

lemma round_rat_exact: "is_f64 x \<Longrightarrow> round_rat x = x"
  by (intro antisym round_rat_le round_rat_ge) auto

lemma f64_round_exact:
  assumes "is_f64 x" and "\<bar>x\<bar> < 2 powi 1024"
  shows "f64_round x = Fin x"
proof (cases "x = 0")
  case False
  have "2 powi ilog2 \<bar>x\<bar> < (2 :: rat) powi 1024"
    using ilog2_bounds [of "\<bar>x\<bar>"] False assms(2) by simp
  then have "ilog2 \<bar>x\<bar> < 1024" by (rule powi_less_imp)
  with assms(1) show ?thesis by (simp add: f64_round_def round_rat_exact)
qed (simp add: f64_round_def round_rat_def)

lemma f64_round_within:
  assumes lo: "is_f64 a" "a \<le> x" and hi: "is_f64 b" "x \<le> b"
    and fin: "\<bar>a\<bar> < 2 powi 1024" "\<bar>b\<bar> < 2 powi 1024"
  obtains y where "f64_round x = Fin y" "a \<le> y" "y \<le> b"
proof -
  let ?y = "round_rat x"
  have b: "a \<le> ?y" "?y \<le> b" using round_rat_ge [OF lo] round_rat_le [OF hi] by auto
  with fin have "\<bar>?y\<bar> < 2 powi 1024" by linarith
  moreover have "2 powi ilog2 \<bar>?y\<bar> \<le> \<bar>?y\<bar>" if "?y \<noteq> 0" using ilog2_bounds [of "\<bar>?y\<bar>"] that by simp
  ultimately have "ilog2 \<bar>?y\<bar> < 1024" if "?y \<noteq> 0" using that by (intro powi_less_imp) simp
  then have "f64_round x = Fin ?y" by (auto simp: f64_round_def Let_def)
  with b show thesis by (intro that)
qed

lemma pow_lt_1024: "\<bar>i\<bar> \<le> 2 ^ 64 \<Longrightarrow> \<bar>of_int i :: rat\<bar> < 2 powi 1024"
proof -
  assume "\<bar>i\<bar> \<le> 2 ^ 64"
  then have "\<bar>of_int i :: rat\<bar> \<le> of_int (2 ^ 64)" by (simp only: of_int_abs [symmetric] of_int_le_iff)
  also have "\<dots> < 2 powi 1024" by simp
  finally show ?thesis .
qed

lemma f64_of_int_exact:
  assumes "\<bar>i\<bar> \<le> 2 ^ 53"
  shows "f64_of_int i = Fin (of_int i)"
  unfolding f64_of_int_def
  using assms by (intro f64_round_exact is_f64_int pow_lt_1024) simp_all

end
