(* ===== verification/Event_Queue.thy ===== *)
theory Event_Queue
  imports Fair_Batch Channel Float64
begin

text \<open>
  \<open>internal/service/event_queue_manager.go\<close> and \<open>event_queue_listener.go\<close>: how events get into the
  table and from the table into the channel the delivery workers read. The goroutines with their
  tickers, the connections and the heartbeat only decide when these operations run.
\<close>

type_synonym event_queue = "webhook_event chan"

section \<open>The manager\<close>

definition EnqueueEvent :: "instant \<Rightarrow> webhook_event \<Rightarrow> string dbm" where
  "EnqueueEvent now e = dbm_wrap ''failed to store event'' (StoreEvent now e)"

definition ScheduleRetry :: "instant \<Rightarrow> instant \<Rightarrow> string \<Rightarrow> duration \<Rightarrow> unit dbm" where
  "ScheduleRetry now clock eventID delay = UpdateRetrySchedule now clock eventID delay"

text \<open>Errors are logged and dropped.\<close>

definition releaseEvent :: "instant \<Rightarrow> string \<Rightarrow> database \<Rightarrow> database" where
  "releaseEvent now eventID d = snd (ReleaseEvent now eventID d)"

definition stalledTimeout :: duration where
  "stalledTimeout = 3 * nano_minute"

definition CleanupStalledEvents :: "instant \<Rightarrow> instant \<Rightarrow> database \<Rightarrow> database" where
  "CleanupStalledEvents now clock d = snd (UpdateStalledEventsToPending now clock stalledTimeout d)"

text \<open>
  The loop of a backup poll over the claimed events. \<open>stop\<close> says at each round whether the stop
  channel is closed; \<open>room\<close> is what the workers have taken from the channel before each round.
\<close>

fun poll_enqueue :: "instant \<Rightarrow> (nat \<Rightarrow> bool) \<Rightarrow> (nat \<Rightarrow> event_queue \<Rightarrow> event_queue) \<Rightarrow> webhook_event list \<Rightarrow>
    event_queue \<times> database \<Rightarrow> event_queue \<times> database" where
  "poll_enqueue now stop taken [] (q, d) = (q, d)"
| "poll_enqueue now stop taken (event # events) (q, d) =
     (if stop 0 then (q, d)
      else (case select_send event (taken 0 q) of
          (True, q') \<Rightarrow> poll_enqueue now (\<lambda>n. stop (Suc n)) (\<lambda>n. taken (Suc n)) events (q', d)
        | (False, q') \<Rightarrow> poll_enqueue now (\<lambda>n. stop (Suc n)) (\<lambda>n. taken (Suc n)) events
            (q', releaseEvent now (ev_ID event) d)))"

text \<open>
  The transaction of the poll: any error and an empty batch roll it back, so it has no result then.
\<close>

definition poll_claim :: "instant \<Rightarrow> nat \<Rightarrow> string \<Rightarrow> database \<Rightarrow> webhook_event list \<times> database" where
  "poll_claim now maxEvents instanceID d0 = (case db_call d0 of
     (Inl e, d) \<Rightarrow> ([], d)
   | (Inr _, start) \<Rightarrow> (case GetAndMarkEventsForProcessing now maxEvents instanceID start of
       (Inl e, d) \<Rightarrow> ([], db_rollback start d)
     | (Inr events, d) \<Rightarrow>
         if events = [] then ([], db_rollback start d)
         else (case db_call d of
             (Inl e, d') \<Rightarrow> ([], db_rollback start d')
           | (Inr _, d') \<Rightarrow> (events, d'))))"

definition pollEvents :: "instant \<Rightarrow> (nat \<Rightarrow> bool) \<Rightarrow> (nat \<Rightarrow> event_queue \<Rightarrow> event_queue) \<Rightarrow> nat \<Rightarrow> string \<Rightarrow>
    event_queue \<times> database \<Rightarrow> event_queue \<times> database" where
  "pollEvents now stop taken maxEvents instanceID = (\<lambda>(q, d).
     if chan_len q \<ge> ch_cap q * 3 div 4 then (q, d)
     else (case poll_claim now maxEvents instanceID d of
         ([], d') \<Rightarrow> (q, d')
       | (events, d') \<Rightarrow> poll_enqueue now stop taken events (q, d')))"

section \<open>The retry scheduler\<close>

text \<open>
  \<open>check_retry_events()\<close> of \<open>sql/event_triggers.sql\<close>: a notification for each of at most 50 pending rows
  whose retry time has come; the cursor returns the rows in an order of its own, \<open>ord\<close>.
\<close>

definition ready_retry :: "instant \<Rightarrow> event_row \<Rightarrow> bool" where
  "ready_retry now r \<longleftrightarrow> er_status r = ''pending'' \<and>
     (case er_next_attempt_at r of None \<Rightarrow> False | Some t \<Rightarrow> t \<le> now) \<and>
     (er_processing_instance r = None \<or>
      (case er_processing_started_at r of None \<Rightarrow> False | Some t \<Rightarrow> t < now - 3 * nano_minute))"

definition check_retry_events :: "instant \<Rightarrow> (event_row list \<Rightarrow> event_row list) \<Rightarrow> int dbm" where
  "check_retry_events now ord d = (let rows = take 50 (ord (filter (ready_retry now) (db_events d))) in
     (Inr (int (length rows)),
      d\<lparr>db_notes := db_notes d @ map (\<lambda>r. notify_payload ''RETRY'' (er_id r) (er_webhook_id r) now) rows\<rparr>))"

definition processReadyRetries :: "instant \<Rightarrow> (event_row list \<Rightarrow> event_row list) \<Rightarrow> database \<Rightarrow> database" where
  "processReadyRetries now ord d = snd (db_statement (check_retry_events now ord) d)"

section \<open>Queue metrics\<close>

text \<open>A count whose query fails keeps its zero value.\<close>

definition count_status :: "string \<Rightarrow> database \<Rightarrow> nat \<times> database" where
  "count_status st d = (case db_call d of
     (Inl e, d') \<Rightarrow> (0, d')
   | (Inr _, d') \<Rightarrow> (length (filter (\<lambda>r. er_status r = st) (db_events d')), d'))"

definition group_counts :: "event_row list \<Rightarrow> (int \<times> string \<times> nat) list" where
  "group_counts rows = map (\<lambda>(w, st). (w, st, length (filter (\<lambda>r. er_webhook_id r = w \<and> er_status r = st) rows)))
     (remdups (map (\<lambda>r. (er_webhook_id r, er_status r)) rows))"

type_synonym webhook_metrics = "(string, (string, nat) gomap) gomap"

definition add_metric :: "webhook_metrics \<Rightarrow> int \<times> string \<times> nat \<Rightarrow> webhook_metrics" where
  "add_metric m row = (case row of (w, st, n) \<Rightarrow>
     (let webhookID = show_int w;
          m' = (case map_of m webhookID of None \<Rightarrow> AList.update webhookID [] m | Some _ \<Rightarrow> m);
          inner = (case map_of m' webhookID of None \<Rightarrow> [] | Some x \<Rightarrow> x)
      in AList.update webhookID (AList.update st n inner) m'))"

record queue_metrics =
  qm_pending :: nat
  qm_processing :: nat
  qm_success :: nat
  qm_failed :: nat
  qm_webhook_metrics :: webhook_metrics

definition GetQueueMetrics :: "database \<Rightarrow> queue_metrics \<times> database" where
  "GetQueueMetrics d0 =
     (let (pendingCount, d1) = count_status ''pending'' d0;
          (processingCount, d2) = count_status ''processing'' d1;
          (completedCount, d3) = count_status ''success'' d2;
          (failedCount, d4) = count_status ''failed'' d3;
          (webhookMetrics, d5) = (case db_call d4 of
              (Inl e, d) \<Rightarrow> ([], d)
            | (Inr _, d) \<Rightarrow> (foldl add_metric [] (group_counts (db_events d)), d))
      in (\<lparr>qm_pending = pendingCount, qm_processing = processingCount, qm_success = completedCount,
           qm_failed = failedCount, qm_webhook_metrics = webhookMetrics\<rparr>, d5))"

section \<open>The listener\<close>

record event_notification =
  en_EventID :: string
  en_WebhookID :: string
  en_Operation :: string
  en_Timestamp :: float64

definition zero_notification :: event_notification where
  "zero_notification = \<lparr>en_EventID = [], en_WebhookID = [], en_Operation = [], en_Timestamp = Fin 0\<rparr>"

fun decode_float :: "float64 \<Rightarrow> json \<Rightarrow> float64 result" where
  "decode_float old (JNum n) = (case f64_round n of Fin x \<Rightarrow> Inr (Fin x) | _ \<Rightarrow> Inl json_type_error)"
| "decode_float old JNull = Inr old"
| "decode_float old _ = Inl json_type_error"

definition set_notification_field :: "event_notification \<Rightarrow> string \<Rightarrow> json \<Rightarrow> event_notification result" where
  "set_notification_field s k v =
     (if k = ''event_id'' then map_sum id (\<lambda>x. s\<lparr>en_EventID := x\<rparr>) (decode_string (en_EventID s) v)
      else if k = ''webhook_id'' then map_sum id (\<lambda>x. s\<lparr>en_WebhookID := x\<rparr>) (decode_string (en_WebhookID s) v)
      else if k = ''operation'' then map_sum id (\<lambda>x. s\<lparr>en_Operation := x\<rparr>) (decode_string (en_Operation s) v)
      else if k = ''timestamp'' then map_sum id (\<lambda>x. s\<lparr>en_Timestamp := x\<rparr>) (decode_float (en_Timestamp s) v)
      else Inr s)"

text \<open>\<open>None\<close> is a payload that is not JSON.\<close>

definition decode_notification :: "json option \<Rightarrow> event_notification result" where
  "decode_notification payload = (case payload of
     None \<Rightarrow> Inl (Errorf ''invalid character looking for beginning of value'')
   | Some j \<Rightarrow> decode_struct set_notification_field zero_notification j)"

definition notClaimableText :: string where
  "notClaimableText = ''not found or already being processed''"

text \<open>
  \<open>taken\<close> is what the workers receive from the channel until the send goes through or the 500
  milliseconds are over; the result is the error, if any, with the channel and the database.
\<close>

definition event_handleNotification :: "instant \<Rightarrow> instant \<Rightarrow> string \<Rightarrow> (event_queue \<Rightarrow> event_queue) \<Rightarrow> json option \<Rightarrow>
    event_queue \<times> database \<Rightarrow> unit result \<times> event_queue \<times> database" where
  "event_handleNotification now now' instanceID taken payload = (\<lambda>(q, d).
     case decode_notification payload of
       Inl err \<Rightarrow> (Inl (Wrap ''error parsing event notification payload'' err), q, d)
     | Inr notification \<Rightarrow> (case GetAndMarkEventByID now (en_EventID notification) instanceID d of
         (Inl err, d') \<Rightarrow>
           if str_contains (err_text err) notClaimableText then (Inr (), q, d')
           else (Inl (Wrap ''error getting and marking event'' err), q, d')
       | (Inr event, d') \<Rightarrow> (case select_send event (taken q) of
           (True, q') \<Rightarrow> (Inr (), q', d')
         | (False, q') \<Rightarrow> (case ReleaseEvent now' (ev_ID event) d' of
             (Inl err, d'') \<Rightarrow> (Inl (Wrap (''error releasing event '' @ ev_ID event) err), q', d'')
           | (Inr _, d'') \<Rightarrow>
               (Inl (Errorf (''event queue is full, could not enqueue event: '' @ ev_ID event)), q', d'')))))"

section \<open>Every operation keeps the tables well formed, and loses nothing\<close>

lemma snd_db_call: "same_tables d d' \<Longrightarrow> db_call d = (r, d'') \<Longrightarrow> same_tables d d''"
  using db_call_same [of d] by simp

lemma poll_claim_fails: "\<exists>d'. poll_claim now n inst d = ([], d') \<and> same_tables d d'"
proof -
  obtain r d1 where c: "db_call d = (r, d1)" by force
  then have s1: "same_tables d d1" using db_call_same [of d] by simp
  obtain e d2 where g: "GetAndMarkEventsForProcessing now n inst d1 = (Inl e, d2)"
    using batch_claim_fails [of now n inst d1] by blast
  show ?thesis
    using c g s1 same_tables_trans [OF s1 same_tables_rollback] by (cases r) (simp_all add: poll_claim_def)
qed

lemma pollEvents_tables: "\<exists>d'. pollEvents now stop taken n inst (q, d) = (q, d') \<and> same_tables d d'"
  using poll_claim_fails [of now n inst d] by (auto simp: pollEvents_def)

lemma same_tables_wf_kept: "same_tables d d' \<Longrightarrow> wf_kept d d'"
  by (simp add: wf_kept_def same_tables_wf)

lemma same_tables_grows: "same_tables d d' \<Longrightarrow> db_grows d d'"
  by (auto simp: db_grows_def same_tables_fields intro!: exI [of _ "[]"] list_all2_same_origin_refl)

lemma wf_EnqueueEvent: "db_keeps wf_kept (EnqueueEvent now e)"
  unfolding EnqueueEvent_def by (intro wf.keeps_intros wf_StoreEvent)

lemma hist_EnqueueEvent: "db_keeps db_grows (EnqueueEvent now e)"
  unfolding EnqueueEvent_def by (intro hist.keeps_intros hist_StoreEvent)

lemma wf_check_retry: "db_keeps wf_kept (check_retry_events now ord)"
  by (simp add: db_keeps_def wf_kept_def check_retry_events_def Let_def db_wf_def)

lemma hist_check_retry: "db_keeps db_grows (check_retry_events now ord)"
  by (auto simp: db_keeps_def db_grows_def check_retry_events_def Let_def
      intro!: exI [of _ "[]"] list_all2_same_origin_refl)

lemma wf_processReadyRetries: "wf_kept d (processReadyRetries now ord d)"
proof -
  have "db_keeps wf_kept (db_statement (check_retry_events now ord))" by (intro wf.keeps_intros wf_check_retry)
  then show ?thesis by (simp add: processReadyRetries_def db_keeps_def)
qed

lemma hist_processReadyRetries: "db_grows d (processReadyRetries now ord d)"
proof -
  have "db_keeps db_grows (db_statement (check_retry_events now ord))" by (intro hist.keeps_intros hist_check_retry)
  then show ?thesis by (simp add: processReadyRetries_def db_keeps_def)
qed

lemma wf_CleanupStalledEvents: "wf_kept d (CleanupStalledEvents now clock d)"
  using wf_UpdateStalledEventsToPending by (simp add: CleanupStalledEvents_def db_keeps_def)

lemma hist_CleanupStalledEvents: "db_grows d (CleanupStalledEvents now clock d)"
  using hist_UpdateStalledEventsToPending by (simp add: CleanupStalledEvents_def db_keeps_def)

lemma handle_keeps:
  assumes "\<And>a b c. R a b \<Longrightarrow> R b c \<Longrightarrow> R a c" and "\<And>a. R a a"
    and "\<And>s. db_keeps R (GetAndMarkEventByID now s inst)" and "\<And>s. db_keeps R (ReleaseEvent now' s)"
    and h: "event_handleNotification now now' inst taken payload (q, d) = (r, q', d')"
  shows "R d d'"
proof (cases "decode_notification payload")
  case (Inl e)
  then show ?thesis using h assms(2) by (simp add: event_handleNotification_def)
next
  case (Inr n)
  obtain g d1 where g: "GetAndMarkEventByID now (en_EventID n) inst d = (g, d1)" by (metis surj_pair)
  have R1: "R d d1" using db_keepsD [OF assms(3) g] .
  show ?thesis
  proof (cases g)
    case (Inl e)
    then show ?thesis using h g R1 Inr by (auto simp: event_handleNotification_def split: if_splits)
  next
    case e: (Inr ev)
    obtain b q1 where sel: "select_send ev (taken q) = (b, q1)" by (metis surj_pair)
    obtain x d2 where x: "ReleaseEvent now' (ev_ID ev) d1 = (x, d2)" by (metis surj_pair)
    have "R d d2" using assms(1) [OF R1 db_keepsD [OF assms(4) x]] .
    then show ?thesis using h g R1 Inr e sel x
      by (auto simp: event_handleNotification_def split: bool.splits sum.splits)
  qed
qed

lemma wf_handleNotification:
  "event_handleNotification now now' inst taken payload (q, d) = (r, q', d') \<Longrightarrow> wf_kept d d'"
  by (rule handle_keeps [where R = wf_kept])
    (auto simp: wf_kept_def intro: wf_GetAndMarkEventByID wf_ReleaseEvent)

lemma hist_handleNotification:
  "event_handleNotification now now' inst taken payload (q, d) = (r, q', d') \<Longrightarrow> db_grows d d'"
  by (rule handle_keeps [where R = db_grows])
    (auto intro: hist_GetAndMarkEventByID hist_ReleaseEvent db_grows_trans same_tables_grows)

lemmas queue_wf [go_inv] = wf_EnqueueEvent wf_processReadyRetries wf_CleanupStalledEvents wf_handleNotification

lemmas queue_hist [go_inv] = hist_EnqueueEvent hist_processReadyRetries hist_CleanupStalledEvents
  hist_handleNotification

section \<open>Notifications reach the channel\<close>

definition stamp_ok :: "instant \<Rightarrow> bool" where
  "stamp_ok t \<longleftrightarrow> \<bar>t - unix_epoch\<bar> \<le> 2 ^ 62 * nano_second"

lemma stamp_finite:
  assumes "stamp_ok t"
  shows "\<exists>y. f64_round (of_int (t - unix_epoch) / of_int nano_second) = Fin y"
proof -
  let ?x = "of_int (t - unix_epoch) / of_int nano_second :: rat"
  have "\<bar>of_int (t - unix_epoch) :: rat\<bar> \<le> of_int (2 ^ 62 * nano_second)"
    using assms unfolding stamp_ok_def of_int_abs [symmetric] of_int_le_iff .
  then have "\<bar>?x\<bar> \<le> 2 powi 62" by (simp add: nano_second_def abs_le_iff field_simps)
  then have b: "- (2 powi 62) \<le> ?x" "?x \<le> 2 powi 62" by (simp_all only: abs_le_iff) linarith+
  have f: "is_f64 (2 powi 62)" "is_f64 (- (2 powi 62))" using is_f64_powi [of 62] is_f64_neg by simp_all
  have "\<bar>- (2 powi 62) :: rat\<bar> < 2 powi 1024" "\<bar>2 powi 62 :: rat\<bar> < 2 powi 1024" by simp_all
  from f64_round_within [OF f(2) b(1) f(1) b(2) this] show ?thesis by metis
qed

lemma decode_notify_payload:
  assumes "stamp_ok t"
  shows "\<exists>n. decode_notification (Some (notify_payload tg_op i w t)) = Inr n \<and> en_EventID n = show_int i"
proof -
  have k: "fold_key ''event_id'' = ''event_id''" "fold_key ''webhook_id'' = ''webhook_id''"
    "fold_key ''operation'' = ''operation''" "fold_key ''timestamp'' = ''timestamp''"
    by (simp_all add: fold_key_def lower_char_def)
  obtain y where "f64_round (of_int (t - unix_epoch) / of_int nano_second) = Fin y"
    using stamp_finite [OF assms] by blast
  then show ?thesis
    by (simp add: decode_notification_def notify_payload_def k set_notification_field_def zero_notification_def)
qed

text \<open>The rows after a method that updates one row by its id, when no call fails.\<close>

lemma ReleaseEvent_ok:
  assumes nf: "db_faults d = []" and wf: "db_wf d" and s: "db_int4in d s = Some i" and r: "event_by_id i d = Some r"
  shows "ReleaseEvent now s d = (Inr (), d\<lparr>db_events := set_row i release_row (db_events d),
    db_notes := db_notes d @ notify_webhook_event_change ''UPDATE'' now (release_row r)\<rparr>)"
  using nf by (simp add: ReleaseEvent_def withTransaction_ok dbm_wrap_def dbm_ret_def update_one_ok
      int4_param_ok [OF s] wf_filter_id [OF wf r])

lemma claimed_wf:
  assumes "db_wf d"
  shows "db_wf (d\<lparr>db_events := set_row i (mark_processing inst now) (db_events d)\<rparr>)"
proof -
  have "db_keeps wf_kept (update_events now (\<lambda>r. er_id r = i) (mark_processing inst now))"
    by (rule update_events_wf) (simp_all add: row_ok_mark)
  then show ?thesis using assms by (simp add: db_keeps_def wf_kept_def update_one_ok)
qed

lemma set_row_set_row:
  assumes "\<And>r. er_id (f r) = er_id r"
  shows "set_row i g (set_row i f rs) = set_row i (\<lambda>r. g (f r)) rs"
  unfolding set_row_def using assms by simp

text \<open>
  A notification puts its event into the channel: when no call fails and the channel has room, handling the
  notification of a pending, unlocked event claims the row for this instance and sends the event.
\<close>

lemma handle_sends:
  assumes nf: "db_faults d = []" and wf: "db_wf d" and rb: "reads_back d" and i: "int4_range i" "i \<notin> set (db_locked d)"
    and r: "event_by_id i d = Some r" "er_status r = ''pending''" "scanEventFromRow r = Inr ev"
    and t: "stamp_ok t" and room: "chan_room (taken q)"
  shows "event_handleNotification now now' inst taken (Some (notify_payload tg_op i w t)) (q, d) =
    (Inr (), chan_send (ev\<lparr>ev_ProcessingInstance := Some inst\<rparr>) (taken q),
     d\<lparr>db_events := set_row i (mark_processing inst now) (db_events d)\<rparr>)"
proof -
  obtain n where n: "decode_notification (Some (notify_payload tg_op i w t)) = Inr n" "en_EventID n = show_int i"
    using decode_notify_payload [OF t] by blast
  have s: "db_int4in d (show_int i) = Some i" using rb i(1) by (simp add: reads_back_def)
  show ?thesis
    using n claim_ok [OF nf wf rb s r(1,2) i(2) r(3), of now inst] room
    by (simp add: event_handleNotification_def select_send_def)
qed

text \<open>When the channel stays full, the handler gives the event back with one attempt more.\<close>

lemma handle_gives_back:
  assumes nf: "db_faults d = []" and wf: "db_wf d" and rb: "reads_back d" and i: "int4_range i" "i \<notin> set (db_locked d)"
    and r: "event_by_id i d = Some r" "er_status r = ''pending''" "scanEventFromRow r = Inr ev"
    and t: "stamp_ok t" and room: "\<not> chan_room (taken q)"
  shows "event_handleNotification now now' inst taken (Some (notify_payload tg_op i w t)) (q, d) =
    (Inl (Errorf (''event queue is full, could not enqueue event: '' @ show_int i)), taken q,
     d\<lparr>db_events := set_row i (\<lambda>r. release_row (mark_processing inst now r)) (db_events d),
       db_notes := db_notes d @ notify_webhook_event_change ''UPDATE'' now' (r\<lparr>er_attempts := er_attempts r + 1\<rparr>)\<rparr>) \<and>
    release_row (mark_processing inst now r) = r\<lparr>er_attempts := er_attempts r + 1\<rparr>"
proof -
  obtain n where n: "decode_notification (Some (notify_payload tg_op i w t)) = Inr n" "en_EventID n = show_int i"
    using decode_notify_payload [OF t] by blast
  have s: "db_int4in d (show_int i) = Some i" using rb i(1) by (simp add: reads_back_def)
  have id: "er_id r = i" using event_by_id_SomeD [OF r(1)] by simp
  let ?d1 = "d\<lparr>db_events := set_row i (mark_processing inst now) (db_events d)\<rparr>"
  have c: "GetAndMarkEventByID now (show_int i) inst d = (Inr (ev\<lparr>ev_ProcessingInstance := Some inst\<rparr>), ?d1)"
    by (rule claim_ok [OF nf wf rb s r(1,2) i(2) r(3)])
  have r1: "event_by_id i ?d1 = Some (mark_processing inst now r)"
    using r(1) by (simp add: event_by_id_def find_set_row)
  have e: "ev_ID ev = show_int i" using scan_fields(1) [OF r(3)] id by simp
  have rel: "ReleaseEvent now' (show_int i) ?d1 = (Inr (), ?d1\<lparr>db_events := set_row i release_row (db_events ?d1),
      db_notes := db_notes ?d1 @ notify_webhook_event_change ''UPDATE'' now' (release_row (mark_processing inst now r))\<rparr>)"
    by (rule ReleaseEvent_ok [OF _ claimed_wf [OF wf] _ r1]) (simp_all add: nf s)
  have "row_ok r" using wf event_by_id_SomeD [OF r(1)] by (simp add: db_wf_def)
  then have undo: "release_row (mark_processing inst now r) = r\<lparr>er_attempts := er_attempts r + 1\<rparr>"
    using r(2) by (simp add: row_ok_def release_row_def mark_processing_def)
  then show ?thesis
    using n c room rel by (simp add: event_handleNotification_def select_send_def e set_row_set_row)
qed

text \<open>C19: a full channel burns an attempt. When the channel stays full, the handler gives the event back:
  the row is as it was before the claim except that its attempts are one more, the release sends the
  next notification for it if it is due, and the handler returns an error.\<close>

theorem full_queue_burns_attempt:
  assumes nf: "db_faults d = []" and wf: "db_wf d" and rb: "reads_back d" and i: "int4_range i" "i \<notin> set (db_locked d)"
    and r: "event_by_id i d = Some r" "er_status r = ''pending''" "scanEventFromRow r = Inr ev"
    and t: "stamp_ok t" and room: "\<not> chan_room (taken q)"
  shows "\<exists>e d'. event_handleNotification now now' inst taken (Some (notify_payload tg_op i w t)) (q, d) = (Inl e, taken q, d') \<and>
    event_by_id i d' = Some (r\<lparr>er_attempts := er_attempts r + 1\<rparr>) \<and>
    (\<forall>j. j \<noteq> i \<longrightarrow> event_by_id j d' = event_by_id j d) \<and>
    db_notes d' = db_notes d @ (if due now' r then [notify_payload ''UPDATE'' i (er_webhook_id r) now'] else [])"
proof -
  note h = handle_gives_back [where taken = taken and q = q, OF assms, of now now' inst tg_op w]
  have "er_id r = i" using event_by_id_SomeD [OF r(1)] by simp
  then show ?thesis
    unfolding conjunct1 [OF h] using r(1,2) conjunct2 [OF h]
    by (auto simp: event_by_id_def find_set_row notify_webhook_event_change_def due_def
        option.map_id0 option.map_ident cong: option.case_cong)
qed

lemma str_contains_not_claimable: "str_contains (err_text (not_claimable s)) notClaimableText"
proof -
  have "err_text (not_claimable s) = (''event '' @ s @ '' '') @ notClaimableText @ []"
    by (simp add: not_claimable_def notClaimableText_def)
  then show ?thesis by (simp only: str_contains_mid)
qed

text \<open>of two instances that get the same notification, one delivers. After the first one has put the
  event into its channel, the handler of any other instance reports no error, changes no row, and
  sends nothing.\<close>

theorem second_instance_ignores:
  assumes nf: "db_faults d = []" and wf: "db_wf d" and rb: "reads_back d" and i: "int4_range i" "i \<notin> set (db_locked d)"
    and r: "event_by_id i d = Some r" "er_status r = ''pending''" "scanEventFromRow r = Inr ev"
    and t: "stamp_ok t" and room: "chan_room (taken q)"
    and h: "event_handleNotification now now' inst taken (Some (notify_payload tg_op i w t)) (q, d) = (x, q1, d1)"
  shows "event_handleNotification u u' inst' taken' (Some (notify_payload tg_op i w t)) (p, d1) = (Inr (), p, d1)"
proof -
  obtain n where n: "decode_notification (Some (notify_payload tg_op i w t)) = Inr n" "en_EventID n = show_int i"
    using decode_notify_payload [OF t] by blast
  have s: "db_int4in d (show_int i) = Some i" using rb i(1) by (simp add: reads_back_def)
  let ?d1 = "d\<lparr>db_events := set_row i (mark_processing inst now) (db_events d)\<rparr>"
  have d1: "d1 = ?d1"
    using h n claim_ok [OF nf wf rb s r(1,2) i(2) r(3), of now inst] room
    by (simp add: event_handleNotification_def select_send_def)
  have c: "GetAndMarkEventByID u (show_int i) inst' d1 = (Inl (not_claimable (show_int i)), d1)"
  proof (rule claim_refused)
    fix x assume "x \<in> set (db_events d1)" "er_id x = i"
    then obtain y where "x = (if er_id y = i then mark_processing inst now y else y)"
      by (auto simp: d1 elim: in_set_row)
    then show "er_status x \<noteq> ''pending'' \<or> i \<in> set (db_locked d1)"
      using \<open>er_id x = i\<close> by (cases "er_id y = i") (simp_all add: mark_processing_def)
  qed (simp_all add: d1 nf s)
  note str_contains_not_claimable [of "show_int i"]
  then show ?thesis using n c by (simp add: event_handleNotification_def)
qed

section \<open>The background routines\<close>

definition permutes :: "('a list \<Rightarrow> 'a list) \<Rightarrow> bool" where
  "permutes ord \<longleftrightarrow> (\<forall>xs. mset (ord xs) = mset xs)"

lemma permutesD: "permutes ord \<Longrightarrow> set (ord xs) = set xs \<and> length (ord xs) = length xs"
  unfolding permutes_def by (metis mset_eq_length mset_eq_setD)

lemma permutes_distinct: "permutes ord \<Longrightarrow> distinct (map f (ord xs)) = distinct (map f xs)"
  unfolding permutes_def by (metis mset_eq_imp_distinct_iff mset_map)

text \<open>the retry scheduler wakes the events whose time has come. When the call does not fail, it sends
  at most 50 notifications, each for a different pending event whose \<open>next_attempt_at\<close> has passed,
  reports their number, leaves the rows alone, and leaves out no such event as long as there are at
  most 50.\<close>

theorem retry_scheduler_correct:
  assumes wf: "db_wf d" and nf: "db_faults d = []" and ord: "permutes ord"
  shows "\<exists>rows. distinct (map er_id rows) \<and> length rows = min 50 (length (filter (ready_retry now) (db_events d))) \<and>
    set rows \<subseteq> {r \<in> set (db_events d). ready_retry now r} \<and>
    (length (filter (ready_retry now) (db_events d)) \<le> 50 \<longrightarrow> set rows = {r \<in> set (db_events d). ready_retry now r}) \<and>
    check_retry_events now ord d = (Inr (int (length rows)), processReadyRetries now ord d) \<and>
    processReadyRetries now ord d = d\<lparr>db_notes := db_notes d @
      map (\<lambda>r. notify_payload ''RETRY'' (er_id r) (er_webhook_id r) now) rows\<rparr>"
proof -
  let ?ready = "filter (ready_retry now) (db_events d)"
  let ?rows = "take 50 (ord ?ready)"
  note p = permutesD [OF ord, of ?ready]
  have "distinct (map er_id ?ready)" using wf_distinct [OF wf] by (simp add: distinct_map_filter)
  then have "distinct (map er_id (ord ?ready))" by (simp add: permutes_distinct [OF ord])
  then have "distinct (map er_id ?rows)" by (simp add: take_map [symmetric] distinct_take)
  moreover have "set ?rows \<subseteq> {r \<in> set (db_events d). ready_retry now r}"
    using p set_take_subset [of 50 "ord ?ready"] by auto
  moreover have "length ?ready \<le> 50 \<longrightarrow> set ?rows = {r \<in> set (db_events d). ready_retry now r}"
    using p by auto
  ultimately show ?thesis
    using nf p by (intro exI [of _ ?rows]) (simp add: check_retry_events_def processReadyRetries_def Let_def)
qed

text \<open>the cleanup returns exactly the stalled events to the pending ones. When the call does not fail,
  a row is released if and only if an instance has been processing it for more than three minutes,
  every other row is as it was, and no stalled row is left.\<close>

theorem cleanup_releases_stalled:
  assumes "db_faults d = []"
  shows "db_events (CleanupStalledEvents now clock d) =
      map (\<lambda>r. if stalled (clock - 3 * nano_minute) r then release_row r else r) (db_events d) \<and>
    filter (stalled (clock - 3 * nano_minute)) (db_events (CleanupStalledEvents now clock d)) = [] \<and>
    db_notes (CleanupStalledEvents now clock d) = db_notes d @
      map (\<lambda>r. notify_payload ''UPDATE'' (er_id r) (er_webhook_id r) now)
        (filter (\<lambda>r. stalled (clock - 3 * nano_minute) r \<and> due now r) (db_events d))"
proof -
  let ?p = "stalled (clock - 3 * nano_minute)"
  have n: "concat (map (\<lambda>r. notify_webhook_event_change ''UPDATE'' now (release_row r)) (filter ?p rs)) =
      map (\<lambda>r. notify_payload ''UPDATE'' (er_id r) (er_webhook_id r) now) (filter (\<lambda>r. ?p r \<and> due now r) rs)" for rs
    by (induction rs) (auto simp: notify_webhook_event_change_def release_row_def due_def)
  have f: "filter ?p (map (\<lambda>r. if ?p r then release_row r else r) rs) = []" for rs
    by (induction rs) (auto simp: stalled_def release_row_def)
  have "CleanupStalledEvents now clock d = snd (update_events now ?p release_row d)"
    using assms by (simp add: CleanupStalledEvents_def UpdateStalledEventsToPending_def stalledTimeout_def
        dbm_wrap_def update_events_def Let_def)
  then show ?thesis by (simp add: update_events_def Let_def n f)
qed

text \<open>
  What the routines of the manager do on their own, between two notifications: retry checks, cleanups
  and backup polls, at any instants and against any faults.
\<close>

datatype routine =
    RetryCheck instant "event_row list \<Rightarrow> event_row list"
  | Cleanup instant instant
  | BackupPoll instant "nat \<Rightarrow> bool" "nat \<Rightarrow> event_queue \<Rightarrow> event_queue" nat string

fun routine_step :: "event_queue \<times> database \<Rightarrow> routine \<Rightarrow> event_queue \<times> database" where
  "routine_step (q, d) (RetryCheck now ord) = (q, processReadyRetries now ord d)"
| "routine_step (q, d) (Cleanup now clock) = (q, CleanupStalledEvents now clock d)"
| "routine_step (q, d) (BackupPoll now stop taken n inst) = pollEvents now stop taken n inst (q, d)"

fun order_permutes :: "routine \<Rightarrow> bool" where
  "order_permutes (RetryCheck now ord) \<longleftrightarrow> permutes ord"
| "order_permutes _ \<longleftrightarrow> True"

text \<open>An event that waits for a first notification, and that no new notification is about it.\<close>

definition waits_for_news :: "int \<Rightarrow> event_queue \<times> database \<Rightarrow> bool" where
  "waits_for_news i s \<longleftrightarrow> db_wf (snd s) \<and>
     (\<exists>r. event_by_id i (snd s) = Some r \<and> er_status r = ''pending'' \<and> er_next_attempt_at r = None)"

definition no_news :: "int \<Rightarrow> event_queue \<times> database \<Rightarrow> event_queue \<times> database \<Rightarrow> bool" where
  "no_news i s s' \<longleftrightarrow> fst s' = fst s \<and> event_by_id i (snd s') = event_by_id i (snd s) \<and>
     (\<exists>new. db_notes (snd s') = db_notes (snd s) @ new \<and> (\<forall>tg_op w t. notify_payload tg_op i w t \<notin> set new))"

lemma no_news_trans: "no_news i a b \<Longrightarrow> no_news i b c \<Longrightarrow> no_news i a c"
proof -
  assume "no_news i a b" "no_news i b c"
  then obtain m n where "db_notes (snd b) = db_notes (snd a) @ m" "db_notes (snd c) = db_notes (snd a) @ (m @ n)"
    "\<forall>tg_op w t. notify_payload tg_op i w t \<notin> set (m @ n)"
    unfolding no_news_def by auto
  moreover have "fst c = fst a" "event_by_id i (snd c) = event_by_id i (snd a)"
    using \<open>no_news i a b\<close> \<open>no_news i b c\<close> by (simp_all add: no_news_def)
  ultimately show ?thesis unfolding no_news_def by (intro conjI exI [of _ "m @ n"])
qed

lemma no_news_tables: "same_tables d d' \<Longrightarrow> no_news i (q, d) (q, d')"
  by (auto simp: no_news_def event_by_id_def same_tables_fields)

lemma notify_payload_id: "notify_payload tg_op i w t = notify_payload tg_op' j w' t' \<Longrightarrow> i = j"
  by (simp add: notify_payload_def show_int_inj)

lemma waits_row:
  assumes "waits_for_news i (q, d)" and "r \<in> set (db_events d)" and "er_id r = i"
  shows "er_status r = ''pending''" "er_next_attempt_at r = None"
  using assms event_by_id_in [OF wf_distinct, of d r] by (auto simp: waits_for_news_def)

lemma no_news_retry:
  assumes "waits_for_news i (q, d)" and "permutes ord"
  shows "no_news i (q, d) (q, processReadyRetries now ord d)"
proof -
  obtain x d1 where c: "db_call d = (x, d1)" by force
  then have s1: "same_tables d d1" using db_call_same [of d] by simp
  note f1 = same_tables_fields [OF s1]
  have "\<not> ready_retry now r" if "r \<in> set (db_events d)" "er_id r = i" for r
    using waits_row [OF assms(1) that] by (simp add: ready_retry_def)
  then have "notify_payload tg_op i w t \<notin>
      set (map (\<lambda>r. notify_payload ''RETRY'' (er_id r) (er_webhook_id r) now) (take 50 (ord (filter (ready_retry now) (db_events d)))))"
    for tg_op w t
    using permutesD [OF assms(2)] by (auto dest!: notify_payload_id in_set_takeD)
  then show ?thesis
    using c by (cases x) (auto simp: processReadyRetries_def db_statement_def dbm_bind_def check_retry_events_def
        Let_def no_news_def event_by_id_def f1)
qed

lemma no_news_cleanup:
  assumes "waits_for_news i (q, d)"
  shows "no_news i (q, d) (q, CleanupStalledEvents now clock d)"
proof -
  obtain x d1 where c: "db_call d = (x, d1)" by force
  then have s1: "same_tables d d1" using db_call_same [of d] by simp
  note f1 = same_tables_fields [OF s1]
  let ?p = "stalled (clock - stalledTimeout)"
  have ns: "\<not> ?p r" if "r \<in> set (db_events d)" "er_id r = i" for r
    using waits_row [OF assms that] by (simp add: stalled_def)
  have same: "List.find (\<lambda>r. er_id r = i) (map (\<lambda>r. if ?p r then release_row r else r) rs) = List.find (\<lambda>r. er_id r = i) rs"
    if "set rs \<subseteq> set (db_events d)" for rs
    using that ns by (induction rs) auto
  have "notify_payload tg_op i w t \<notin>
      set (concat (map (\<lambda>r. notify_webhook_event_change ''UPDATE'' now (release_row r)) (filter ?p (db_events d))))"
    for tg_op w t
    using ns by (auto simp: notify_webhook_event_change_def dest!: notify_payload_id split: if_splits)
  then show ?thesis
    using c same [of "db_events d"]
    by (cases x) (auto simp: CleanupStalledEvents_def UpdateStalledEventsToPending_def dbm_wrap_def db_statement_def
        dbm_bind_def update_events_def Let_def no_news_def event_by_id_def f1)
qed

lemma routine_no_news:
  assumes "waits_for_news i s" and "order_permutes a"
  shows "no_news i s (routine_step s a)"
proof -
  obtain q d where s: "s = (q, d)" by force
  show ?thesis
  proof (cases a)
    case (BackupPoll now stop taken n inst)
    then show ?thesis using pollEvents_tables [of now stop taken n inst q d] by (auto simp: s no_news_tables)
  qed (use assms in \<open>simp_all add: s no_news_retry no_news_cleanup\<close>)
qed

lemma routine_wf: "db_wf (snd s) \<Longrightarrow> db_wf (snd (routine_step s a))"
proof -
  assume wf: "db_wf (snd s)"
  obtain q d where s: "s = (q, d)" by force
  show ?thesis
  proof (cases a)
    case (BackupPoll now stop taken n inst)
    then show ?thesis using wf pollEvents_tables [of now stop taken n inst q d] by (auto simp: s same_tables_wf)
  qed (use wf wf_processReadyRetries wf_CleanupStalledEvents in \<open>auto simp: s wf_kept_def\<close>)
qed

interpretation missed: component_runs routine_step order_permutes "waits_for_news i" "no_news i" for i
proof unfold_locales
  show "waits_for_news i (routine_step s a)" if "waits_for_news i s" "order_permutes a" for s a
    using routine_no_news [OF that] routine_wf [of s a] that(1) by (simp add: waits_for_news_def no_news_def)
  show "no_news i s (routine_step s a)" if "waits_for_news i s" "order_permutes a" for s a
    using routine_no_news [OF that] .
  show "no_news i s s" for s by (simp add: no_news_def)
  show "no_news i s u" if "no_news i s t" "no_news i t u" for s t u using that by (rule no_news_trans)
qed

text \<open>C18: an event whose only notification is lost stays in the table for ever. A pending event that has
  never been scheduled for a retry is left alone by every retry check, cleanup and backup poll: after any
  sequence of them its row is what it was, no notification about it has been sent, and the channel has
  not received it.\<close>

theorem missed_event_is_stuck:
  assumes "db_wf d" and "event_by_id i d = Some r" and "er_status r = ''pending''" and "er_next_attempt_at r = None"
    and "list_all order_permutes ops"
  shows "\<exists>d' new. foldl routine_step (q, d) ops = (q, d') \<and> event_by_id i d' = Some r \<and>
    db_notes d' = db_notes d @ new \<and> (\<forall>tg_op w t. notify_payload tg_op i w t \<notin> set new)"
proof -
  have "waits_for_news i (q, d)" using assms(1-4) by (simp add: waits_for_news_def)
  from missed.runs_rel [OF this assms(5)] assms(2) show ?thesis
    by (cases "foldl routine_step (q, d) ops") (auto simp: no_news_def)
qed

section \<open>What the metrics say\<close>

definition metric :: "webhook_metrics \<Rightarrow> int \<Rightarrow> string \<Rightarrow> nat" where
  "metric m w st = (case map_of m (show_int w) of None \<Rightarrow> 0
     | Some inner \<Rightarrow> (case map_of inner st of None \<Rightarrow> 0 | Some n \<Rightarrow> n))"

lemma metric_add: "metric (add_metric m (w, st, n)) w' st' = (if w' = w \<and> st' = st then n else metric m w' st')"
  by (auto simp: metric_def add_metric_def Let_def show_int_inj split: option.split)

lemma metric_fold:
  assumes "distinct ks"
  shows "metric (foldl add_metric m (map (\<lambda>(w, st). (w, st, f w st)) ks)) w st =
    (if (w, st) \<in> set ks then f w st else metric m w st)"
  using assms by (induction ks arbitrary: m) (auto simp: metric_add split: if_splits)

lemma metric_groups:
  "metric (foldl add_metric [] (group_counts rows)) w st = length (filter (\<lambda>r. er_webhook_id r = w \<and> er_status r = st) rows)"
proof -
  let ?ks = "remdups (map (\<lambda>r. (er_webhook_id r, er_status r)) rows)"
  let ?f = "\<lambda>w st. length (filter (\<lambda>r. er_webhook_id r = w \<and> er_status r = st) rows)"
  have g: "group_counts rows = map (\<lambda>(w, st). (w, st, ?f w st)) ?ks" by (simp add: group_counts_def)
  have "metric (foldl add_metric [] (group_counts rows)) w st = (if (w, st) \<in> set ?ks then ?f w st else metric [] w st)"
    unfolding g by (rule metric_fold [where f = ?f]) simp
  moreover have "?f w st = 0" if "(w, st) \<notin> set ?ks"
    using that by (auto simp: filter_empty_conv)
  ultimately show ?thesis by (simp add: metric_def)
qed

lemma count_four:
  assumes "distinct [a, b, c, e]" and "\<forall>x \<in> set xs. f x \<in> {a, b, c, e}"
  shows "length (filter (\<lambda>x. f x = a) xs) + length (filter (\<lambda>x. f x = b) xs) +
    length (filter (\<lambda>x. f x = c) xs) + length (filter (\<lambda>x. f x = e) xs) = length xs"
  using assms by (induction xs) auto

text \<open>the metrics account for every event. When no query fails, the four totals add up to the number of
  events, and the entry for a webhook and a status is the number of that webhook's events in that status.\<close>

theorem queue_metrics_correct:
  assumes "db_faults d = []" and "db_wf d"
  shows "\<exists>m. GetQueueMetrics d = (m, d) \<and> qm_pending m + qm_processing m + qm_success m + qm_failed m = length (db_events d) \<and>
    qm_pending m = length (filter (\<lambda>r. er_status r = ''pending'') (db_events d)) \<and>
    (\<forall>w st. metric (qm_webhook_metrics m) w st = length (filter (\<lambda>r. er_webhook_id r = w \<and> er_status r = st) (db_events d)))"
proof -
  have "\<forall>r \<in> set (db_events d). er_status r \<in> {''pending'', ''processing'', ''success'', ''failed''}"
    using assms(2) by (auto simp: db_wf_def row_ok_def)
  from count_four [OF _ this] show ?thesis
    using assms(1) by (simp add: GetQueueMetrics_def count_status_def metric_groups)
qed

end
