(* ===== verification/Config_Cache.thy ===== *)
theory Config_Cache
  imports Repository Float64
begin

text \<open>
  \<open>internal/service/webhook_config_cache.go\<close>. The operations take the source of configurations as
  an argument, \<open>fetch\<close>, the field \<open>repo\<close> of the cache: \<^const>\<open>GetWebhookByID\<close> in the service. A
  critical section of the cache's lock is one step; an operation that reads the clock twice takes
  two instants, since the call to the source lies between them.
\<close>

section \<open>State and operations\<close>

record config_cache =
  cc_configs :: "(string, config_dto) gomap"
  cc_expiry :: "(string, instant) gomap"
  cc_ttl :: duration

definition NewWebhookConfigCache :: "duration \<Rightarrow> config_cache" where
  "NewWebhookConfigCache ttl = \<lparr>cc_configs = [], cc_expiry = [], cc_ttl = ttl\<rparr>"

text \<open>A missing expiry reads as the zero time.\<close>

definition expiry_of :: "config_cache \<Rightarrow> string \<Rightarrow> instant" where
  "expiry_of c i = (case map_of (cc_expiry c) i of None \<Rightarrow> 0 | Some t \<Rightarrow> t)"

text \<open>The section under the read lock: the cached configuration, if there is one and it has not expired.\<close>

definition cache_lookup :: "instant \<Rightarrow> string \<Rightarrow> config_cache \<Rightarrow> config_dto option" where
  "cache_lookup now i c = (case map_of (cc_configs c) i of
     None \<Rightarrow> None
   | Some w \<Rightarrow> if now < expiry_of c i then Some w else None)"

text \<open>The section under the write lock.\<close>

definition cache_store :: "instant \<Rightarrow> string \<Rightarrow> config_dto \<Rightarrow> config_cache \<Rightarrow> config_cache" where
  "cache_store now i w c = c\<lparr>cc_configs := AList.update i w (cc_configs c),
     cc_expiry := AList.update i (now + cc_ttl c) (cc_expiry c)\<rparr>"

text \<open>The loop over the allowed events.\<close>

fun event_allowed :: "string list \<Rightarrow> string \<Rightarrow> bool" where
  "event_allowed [] eventName \<longleftrightarrow> False"
| "event_allowed (ev # evs) eventName \<longleftrightarrow> (if ev = eventName then True else event_allowed evs eventName)"

lemma event_allowed_iff: "event_allowed evs n \<longleftrightarrow> n \<in> set evs"
  by (induction evs) auto

type_synonym 'd source = "string \<Rightarrow> 'd \<Rightarrow> config_dto result \<times> 'd"

definition cache_ValidateWebhook ::
    "'d source \<Rightarrow> instant \<Rightarrow> instant \<Rightarrow> string \<Rightarrow> string \<Rightarrow> config_cache \<times> 'd \<Rightarrow> bool result \<times> config_cache \<times> 'd" where
  "cache_ValidateWebhook fetch now now' webhookID eventName = (\<lambda>(c, d).
     case cache_lookup now webhookID c of
       Some w \<Rightarrow> (Inr (event_allowed (dto_Events w) eventName), c, d)
     | None \<Rightarrow> (case fetch webhookID d of
         (Inl NoRows, d') \<Rightarrow> (Inr False, c, d')
       | (Inl e, d') \<Rightarrow> (Inl e, c, d')
       | (Inr w, d') \<Rightarrow> (Inr (event_allowed (dto_Events w) eventName), cache_store now' webhookID w c, d')))"

definition cache_GetPostURL ::
    "'d source \<Rightarrow> instant \<Rightarrow> instant \<Rightarrow> string \<Rightarrow> config_cache \<times> 'd \<Rightarrow> string result \<times> config_cache \<times> 'd" where
  "cache_GetPostURL fetch now now' webhookID = (\<lambda>(c, d).
     let miss = (case fetch webhookID d of
         (Inl e, d') \<Rightarrow> (Inl e, c, d')
       | (Inr w, d') \<Rightarrow> (Inr (dto_PostURL w), cache_store now' webhookID w c, d'))
     in case cache_lookup now webhookID c of
          Some w \<Rightarrow> if dto_PostURL w \<noteq> [] then (Inr (dto_PostURL w), c, d) else miss
        | None \<Rightarrow> miss)"

definition cache_RefreshConfig ::
    "'d source \<Rightarrow> instant \<Rightarrow> string \<Rightarrow> config_cache \<times> 'd \<Rightarrow> unit result \<times> config_cache \<times> 'd" where
  "cache_RefreshConfig fetch now webhookID = (\<lambda>(c, d).
     case fetch webhookID d of
       (Inl e, d') \<Rightarrow> (Inl e, c, d')
     | (Inr w, d') \<Rightarrow> (Inr (), cache_store now webhookID w c, d'))"

text \<open>
  \<open>RefreshAllConfigs\<close> over the ids in the order \<open>range\<close> gave them; \<open>clk\<close> reads the clock. The result
  is the count of refreshed configurations and of errors.
\<close>

fun refresh_each :: "'d source \<Rightarrow> (nat \<Rightarrow> instant) \<Rightarrow> string list \<Rightarrow> nat \<times> nat \<Rightarrow> config_cache \<times> 'd \<Rightarrow>
    (nat \<times> nat) \<times> config_cache \<times> 'd" where
  "refresh_each fetch clk [] (refreshed, errors) s = ((refreshed, errors), s)"
| "refresh_each fetch clk (i # is) (refreshed, errors) s =
     (case cache_RefreshConfig fetch (clk 0) i s of
        (Inl e, s') \<Rightarrow> refresh_each fetch (\<lambda>n. clk (Suc n)) is (refreshed, errors + 1) s'
      | (Inr _, s') \<Rightarrow> refresh_each fetch (\<lambda>n. clk (Suc n)) is (refreshed + 1, errors) s')"

definition cache_RefreshAllConfigs :: "((string, config_dto) gomap \<Rightarrow> string list) \<Rightarrow> 'd source \<Rightarrow> (nat \<Rightarrow> instant) \<Rightarrow>
    config_cache \<times> 'd \<Rightarrow> (nat \<times> nat) \<times> config_cache \<times> 'd" where
  "cache_RefreshAllConfigs key_order fetch clk = (\<lambda>(c, d). refresh_each fetch clk (key_order (cc_configs c)) (0, 0) (c, d))"

definition cache_InvalidateCache :: "string \<Rightarrow> config_cache \<Rightarrow> config_cache" where
  "cache_InvalidateCache webhookID c = c\<lparr>cc_configs := AList.delete webhookID (cc_configs c),
     cc_expiry := AList.delete webhookID (cc_expiry c)\<rparr>"

record cache_stats =
  cs_total_cached :: nat
  cs_ttl_seconds :: float64
  cs_expired_entries :: nat

definition cache_GetCacheStats :: "instant \<Rightarrow> config_cache \<Rightarrow> cache_stats" where
  "cache_GetCacheStats now c = \<lparr>cs_total_cached = length (cc_configs c), cs_ttl_seconds = duration_seconds (cc_ttl c),
     cs_expired_entries = length (filter (\<lambda>(i, t). t < now) (cc_expiry c))\<rparr>"

section \<open>The invariant of the two maps\<close>

definition cache_ok :: "config_cache \<Rightarrow> bool" where
  "cache_ok c \<longleftrightarrow> map_ok (cc_configs c) \<and> map_ok (cc_expiry c) \<and> dom (map_of (cc_configs c)) = dom (map_of (cc_expiry c))"

lemma cache_ok_new [go_inv]: "cache_ok (NewWebhookConfigCache ttl)"
  by (simp add: cache_ok_def NewWebhookConfigCache_def)

lemma cache_ok_store [go_inv]: "cache_ok c \<Longrightarrow> cache_ok (cache_store now i w c)"
  by (simp add: cache_ok_def cache_store_def)

lemma cache_ok_invalidate [go_inv]: "cache_ok c \<Longrightarrow> cache_ok (cache_InvalidateCache i c)"
  by (simp add: cache_ok_def cache_InvalidateCache_def)

lemma cache_ok_length: "cache_ok c \<Longrightarrow> length (cc_expiry c) = length (cc_configs c)"
  unfolding cache_ok_def map_ok_def by (metis distinct_card dom_map_of_conv_image_fst length_map list.set_map)

lemma lookup_store [simp]:
  "cache_lookup now j (cache_store t i w c) =
     (if j = i then if now < t + cc_ttl c then Some w else None else cache_lookup now j c)"
  by (auto simp: cache_lookup_def cache_store_def expiry_of_def split: option.split)

lemma lookup_invalidate [simp]:
  "cache_lookup now j (cache_InvalidateCache i c) = (if j = i then None else cache_lookup now j c)"
  by (auto simp: cache_lookup_def cache_InvalidateCache_def expiry_of_def split: option.split)

lemma ttl_store [simp]: "cc_ttl (cache_store t i w c) = cc_ttl c"
  by (simp add: cache_store_def)

section \<open>What the cache promises, for any source\<close>

text \<open>
  Every cached configuration is what the source held for its id: with a source that does not change,
  the cache is transparent.
\<close>

definition cache_agrees :: "(string \<Rightarrow> config_dto option) \<Rightarrow> config_cache \<Rightarrow> bool" where
  "cache_agrees cur c \<longleftrightarrow> (\<forall>i w. map_of (cc_configs c) i = Some w \<longrightarrow> cur i = Some w)"

lemma agrees_store: "cache_agrees cur c \<Longrightarrow> cur i = Some w \<Longrightarrow> cache_agrees cur (cache_store now i w c)"
  by (simp add: cache_agrees_def cache_store_def)

lemma agrees_invalidate: "cache_agrees cur c \<Longrightarrow> cache_agrees cur (cache_InvalidateCache i c)"
  by (simp add: cache_agrees_def cache_InvalidateCache_def)

lemma agrees_lookup: "cache_agrees cur c \<Longrightarrow> cache_lookup now i c = Some w \<Longrightarrow> cur i = Some w"
  by (auto simp: cache_agrees_def cache_lookup_def split: option.splits if_splits)

context config_source begin

lemma agrees_fetch:
  assumes "cache_agrees (current d) c" and "fetch i d = (Inr w, d')"
  shows "cache_agrees (current d') (cache_store now i w c)"
  using assms by (simp add: agrees_store fetch_current fetch_frame)

lemma agrees_frame: "cache_agrees (current d) c \<Longrightarrow> fetch i d = (r, d') \<Longrightarrow> cache_agrees (current d') c"
  by (simp add: fetch_frame)

lemma validate_agrees:
  assumes "cache_agrees (current d) c" and "cache_ValidateWebhook fetch now now' i n (c, d) = (r, c', d')"
  shows "cache_agrees (current d') c' \<and> current d' = current d \<and>
    (\<forall>b. r = Inr b \<longrightarrow> b = (case current d i of None \<Rightarrow> False | Some w \<Rightarrow> n \<in> set (dto_Events w)))"
  using assms agrees_lookup [OF assms(1), of now i]
  by (auto simp: cache_ValidateWebhook_def event_allowed_iff
      dest: fetch_current fetch_missing fetch_frame agrees_fetch agrees_frame
      split: option.splits prod.splits sum.splits goerr.splits)

lemma post_url_agrees:
  assumes "cache_agrees (current d) c" and "cache_GetPostURL fetch now now' i (c, d) = (r, c', d')"
  shows "cache_agrees (current d') c' \<and> current d' = current d \<and>
    (\<forall>u. r = Inr u \<longrightarrow> (\<exists>w. current d i = Some w \<and> u = dto_PostURL w))"
  using assms agrees_lookup [OF assms(1), of now i]
  by (auto simp: cache_GetPostURL_def Let_def
      dest: fetch_current fetch_frame agrees_fetch agrees_frame
      split: option.splits prod.splits sum.splits if_splits)

lemma refresh_agrees:
  assumes "cache_agrees (current d) c" and "cache_RefreshConfig fetch now i (c, d) = (r, c', d')"
  shows "cache_agrees (current d') c' \<and> current d' = current d"
  using assms by (auto simp: cache_RefreshConfig_def dest: fetch_frame agrees_fetch agrees_frame
      split: prod.splits sum.splits)

lemma refresh_each_agrees:
  assumes "cache_agrees (current d) c" and "refresh_each fetch clk ids (k, e) (c, d) = (m, c', d')"
  shows "cache_agrees (current d') c' \<and> current d' = current d"
  using assms
proof (induction ids arbitrary: clk k e c d)
  case (Cons i ids)
  obtain x c1 d1 where x: "cache_RefreshConfig fetch (clk 0) i (c, d) = (x, c1, d1)" by (metis surj_pair)
  note a = refresh_agrees [OF Cons.prems(1) x]
  have "\<exists>clk k e. refresh_each fetch clk ids (k, e) (c1, d1) = (m, c', d')"
    using Cons.prems(2) x by (cases x) auto
  with Cons.IH [OF conjunct1 [OF a]] a show ?case by auto
qed simp

end

context config_source begin

lemma refresh_each_result:
  assumes "refresh_each fetch clk ids (k, e) (c, d) = ((k', e'), c', d')"
  shows "k' + e' = k + e + length ids \<and> e \<le> e' \<and> current d' = current d \<and>
    (\<forall>i. i \<notin> set ids \<longrightarrow> map_of (cc_configs c') i = map_of (cc_configs c) i) \<and>
    (e' = e \<longrightarrow> (\<forall>i \<in> set ids. map_of (cc_configs c') i = current d i \<and> current d i \<noteq> None))"
  using assms
proof (induction ids arbitrary: clk k e c d)
  case (Cons i ids)
  obtain x d1 where x: "fetch i d = (x, d1)" by (metis surj_pair)
  note fr = fetch_frame [OF x]
  show ?case
  proof (cases x)
    case (Inl err)
    with Cons.prems x have "refresh_each fetch (\<lambda>n. clk (Suc n)) ids (k, e + 1) (c, d1) = ((k', e'), c', d')"
      by (simp add: cache_RefreshConfig_def)
    with Cons.IH [OF this] fr show ?thesis by auto
  next
    case (Inr w)
    let ?c = "cache_store (clk 0) i w c"
    have "refresh_each fetch (\<lambda>n. clk (Suc n)) ids (k + 1, e) (?c, d1) = ((k', e'), c', d')"
      using Cons.prems x Inr by (simp add: cache_RefreshConfig_def)
    note ih = Cons.IH [OF this]
    have "current d i = Some w" using x Inr by (simp add: fetch_current)
    with ih fr show ?thesis by (cases "i \<in> set ids") (auto simp: cache_store_def)
  qed
qed simp

end

section \<open>The cache over the repository\<close>

text \<open>
  The event names survive the trip through the comma-separated string unless one holds a comma, or
  the only one is empty.
\<close>

definition names_travel :: "string list \<Rightarrow> bool" where
  "names_travel evs \<longleftrightarrow> (\<forall>e \<in> set evs. CHR '','' \<notin> set e) \<and> evs \<noteq> [[]]"

lemma config_dto_events:
  "names_travel (cr_events r) \<Longrightarrow> dto_Events (config_dto_of r) = cr_events r"
  by (auto simp: names_travel_def config_dto_of_def Let_def str_split_join str_join_eq_Nil)

lemma find_config_list_ex:
  assumes "distinct (map cr_id cs)"
  shows "list_ex (\<lambda>c. cr_id c = i \<and> p c) cs \<longleftrightarrow> (case List.find (\<lambda>c. cr_id c = i) cs of None \<Rightarrow> False | Some c \<Rightarrow> p c)"
  using assms
proof (induction cs)
  case (Cons a cs)
  then show ?case
    by (cases "cr_id a = i") (auto simp: list_ex_iff rev_image_eqI)
qed simp

lemma find_config_events:
  assumes "\<forall>r \<in> set (db_configs d). names_travel (cr_events r)" and "find_config j d = Some r"
  shows "dto_Events (config_dto_of r) = cr_events r"
  using assms find_Some_in [of _ "db_configs d" r] by (auto simp: find_config_def config_dto_events)

lemma ValidateWebhook_current:
  assumes "distinct (map cr_id (db_configs d))" and "\<forall>r \<in> set (db_configs d). names_travel (cr_events r)"
    and "ValidateWebhook i n d = (Inr b, d')"
  shows "b \<longleftrightarrow> (case current_config d i of None \<Rightarrow> False | Some w \<Rightarrow> n \<in> set (dto_Events w))"
proof -
  obtain d1 j where d1: "same_tables d d1" and j: "db_int4in d i = Some j"
    and b: "b \<longleftrightarrow> list_ex (\<lambda>c. cr_id c = j \<and> n \<in> set (cr_events c)) (db_configs d)"
    using assms(3) unfolding ValidateWebhook_def by (auto simp: same_tables_fields)
  show ?thesis
    unfolding b find_config_list_ex [OF assms(1)]
    using find_config_events [OF assms(2), of j]
    by (cases "find_config j d") (simp_all add: current_config_def j find_config_def)
qed

text \<open>C29: the cached validation answers as the database would. While the cached entries agree with
  the tables, an answer \<open>WebhookConfigCache.ValidateWebhook\<close> gives, from the cache or after a miss, is
  the answer of the repository's own \<open>ValidateWebhook\<close> query, for event names that hold no comma.\<close>

theorem cached_validation_correct:
  assumes "cache_agrees (current_config d) c"
    and "distinct (map cr_id (db_configs d))" and "\<forall>r \<in> set (db_configs d). names_travel (cr_events r)"
    and "cache_ValidateWebhook GetWebhookByID now now' i n (c, d) = (Inr b, c1, d1)"
    and "ValidateWebhook i n d = (Inr b', d2)"
  shows "b = b' \<and> cache_agrees (current_config d1) c1"
  using repo_configs.validate_agrees [OF assms(1,4)] ValidateWebhook_current [OF assms(2,3,5)] by blast

section \<open>How stale an answer can be\<close>

text \<open>
  The cache, the database and the calls in flight as one system. A call that misses reads the
  database at one instant and stores its answer at a later one, at most \<open>L\<close> after; the tables change and
  the listener invalidates entries at any time in between. \<open>w_past\<close> is a ghost: every content of the
  database, with an instant at which it was the content.
\<close>

record cache_world =
  w_cache :: config_cache
  w_db :: database
  w_now :: instant
  w_flight :: "(instant \<times> string \<times> config_dto) list"
  w_past :: "(instant \<times> database) list"

inductive cache_step :: "duration \<Rightarrow> cache_world \<Rightarrow> cache_world \<Rightarrow> bool" for L :: duration where
  fetched: "GetWebhookByID i (w_db s) = (Inr w, d') \<Longrightarrow>
    cache_step L s (s\<lparr>w_db := d', w_flight := (w_now s, i, w) # w_flight s,
      w_past := (w_now s, w_db s) # w_past s\<rparr>)"
| stored: "(t, i, w) \<in> set (w_flight s) \<Longrightarrow> w_now s \<le> t + L \<Longrightarrow>
    cache_step L s (s\<lparr>w_cache := cache_store (w_now s) i w (w_cache s), w_flight := remove1 (t, i, w) (w_flight s)\<rparr>)"
| invalidated: "cache_step L s (s\<lparr>w_cache := cache_InvalidateCache i (w_cache s)\<rparr>)"
| changed: "cache_step L s (s\<lparr>w_db := d'\<rparr>)"
| ticked: "w_now s \<le> t \<Longrightarrow> cache_step L s (s\<lparr>w_now := t\<rparr>)"

definition was_current :: "cache_world \<Rightarrow> instant \<Rightarrow> string \<Rightarrow> config_dto \<Rightarrow> bool" where
  "was_current s t i w \<longleftrightarrow> (\<exists>d. (t, d) \<in> set (w_past s) \<and> current_config d i = Some w)"

definition world_start :: "duration \<Rightarrow> instant \<Rightarrow> database \<Rightarrow> cache_world" where
  "world_start ttl t d = \<lparr>w_cache = NewWebhookConfigCache ttl, w_db = d, w_now = t, w_flight = [], w_past = []\<rparr>"

definition fresh_world :: "duration \<Rightarrow> duration \<Rightarrow> cache_world \<Rightarrow> bool" where
  "fresh_world L ttl s \<longleftrightarrow> cc_ttl (w_cache s) = ttl \<and>
     (\<forall>(t, i, w) \<in> set (w_flight s). was_current s t i w) \<and>
     (\<forall>i w. map_of (cc_configs (w_cache s)) i = Some w \<longrightarrow>
        (\<exists>t. was_current s t i w \<and> expiry_of (w_cache s) i \<le> t + L + ttl))"

lemma was_current_mono: "was_current s t i w \<Longrightarrow> set (w_past s) \<subseteq> set (w_past s') \<Longrightarrow> was_current s' t i w"
  by (auto simp: was_current_def)

lemma expiry_store [simp]: "expiry_of (cache_store t i w c) j = (if j = i then t + cc_ttl c else expiry_of c j)"
  by (simp add: expiry_of_def cache_store_def)

lemma expiry_invalidate [simp]:
  "expiry_of (cache_InvalidateCache i c) j = (if j = i then 0 else expiry_of c j)"
  by (simp add: expiry_of_def cache_InvalidateCache_def)

lemma configs_store [simp]: "map_of (cc_configs (cache_store t i w c)) = (map_of (cc_configs c))(i \<mapsto> w)"
  by (simp add: cache_store_def fun_eq_iff)

lemma configs_invalidate [simp]:
  "map_of (cc_configs (cache_InvalidateCache i c)) = (map_of (cc_configs c))(i := None)"
  by (simp add: cache_InvalidateCache_def fun_eq_iff)

lemma ttl_invalidate [simp]: "cc_ttl (cache_InvalidateCache i c) = cc_ttl c"
  by (simp add: cache_InvalidateCache_def)

definition fresh_entry :: "duration \<Rightarrow> duration \<Rightarrow> cache_world \<Rightarrow> string \<Rightarrow> bool" where
  "fresh_entry L ttl s i \<longleftrightarrow> (\<forall>w. map_of (cc_configs (w_cache s)) i = Some w \<longrightarrow>
     (\<exists>t. was_current s t i w \<and> expiry_of (w_cache s) i \<le> t + L + ttl))"

lemma fresh_world_iff: "fresh_world L ttl s \<longleftrightarrow> cc_ttl (w_cache s) = ttl \<and>
    (\<forall>(t, i, w) \<in> set (w_flight s). was_current s t i w) \<and> (\<forall>i. fresh_entry L ttl s i)"
  by (simp add: fresh_world_def fresh_entry_def)

lemma fresh_entry_keep:
  assumes "fresh_entry L ttl s i" and "set (w_past s) \<subseteq> set (w_past s')"
    and "map_of (cc_configs (w_cache s')) i = map_of (cc_configs (w_cache s)) i"
    and "expiry_of (w_cache s') i = expiry_of (w_cache s) i"
  shows "fresh_entry L ttl s' i"
  using assms(1) was_current_mono [OF _ assms(2)] unfolding fresh_entry_def assms(3,4) by blast

lemma fresh_step:
  assumes "cache_step L s s'" and "fresh_world L ttl s"
  shows "fresh_world L ttl s'"
  using assms
proof (induction rule: cache_step.induct)
  case (fetched i s w d')
  let ?s = "s\<lparr>w_db := d', w_flight := (w_now s, i, w) # w_flight s, w_past := (w_now s, w_db s) # w_past s\<rparr>"
  have "was_current ?s (w_now s) i w"
    using repo_configs.fetch_current [OF fetched.hyps] by (auto simp: was_current_def)
  moreover have "was_current s t j v \<Longrightarrow> was_current ?s t j v" for t j v
    by (erule was_current_mono) auto
  moreover have "fresh_entry L ttl ?s j" for j
    using fetched.prems by (intro fresh_entry_keep [of L ttl s j ?s]) (auto simp: fresh_world_iff)
  ultimately show ?case using fetched.prems by (auto simp: fresh_world_iff)
next
  case (stored t i w s)
  let ?s = "s\<lparr>w_cache := cache_store (w_now s) i w (w_cache s), w_flight := remove1 (t, i, w) (w_flight s)\<rparr>"
  have wc: "was_current ?s = was_current s" by (simp add: was_current_def fun_eq_iff)
  have "was_current s t i w" using stored.prems stored.hyps(1) by (auto simp: fresh_world_iff)
  then have "fresh_entry L ttl ?s i"
    using stored.hyps(2) stored.prems by (auto simp: fresh_entry_def wc fresh_world_iff)
  moreover have "fresh_entry L ttl ?s j" if "j \<noteq> i" for j
    using stored.prems that by (intro fresh_entry_keep [of L ttl s j ?s]) (auto simp: fresh_world_iff)
  moreover have "(\<forall>(t, i, w) \<in> set (w_flight ?s). was_current ?s t i w)"
    using stored.prems set_remove1_subset [of "(t, i, w)" "w_flight s"] by (auto simp: fresh_world_iff wc)
  moreover have "cc_ttl (w_cache ?s) = ttl" using stored.prems by (simp add: fresh_world_iff)
  ultimately show ?case unfolding fresh_world_iff by metis
next
  case (invalidated s i)
  let ?s = "s\<lparr>w_cache := cache_InvalidateCache i (w_cache s)\<rparr>"
  have "fresh_entry L ttl ?s j" for j
    using invalidated.prems
    by (cases "j = i") (auto simp: fresh_entry_def fresh_world_iff was_current_def)
  with invalidated.prems show ?case by (auto simp: fresh_world_iff was_current_def)
next
  case (changed s d')
  then show ?case by (simp add: fresh_world_def was_current_def)
next
  case (ticked s t)
  then show ?case by (simp add: fresh_world_def was_current_def)
qed

text \<open>C30: a served configuration is at most \<open>ttl\<close> and one fetch old. Whatever the tables, the
  invalidations and the interleaving of calls were, a hit at \<open>now\<close> returns a configuration that the
  database held for that id at an instant later than \<open>now - ttl - L\<close>, \<open>L\<close> bounding the time between a
  call's read of the database and its store.\<close>

theorem cache_staleness_bound:
  assumes "(cache_step L)\<^sup>*\<^sup>* (world_start ttl t0 d0) s" and "cache_lookup (w_now s) i (w_cache s) = Some w"
  shows "\<exists>t. was_current s t i w \<and> w_now s < t + L + ttl"
proof -
  have "fresh_world L ttl s"
    using assms(1)
  proof (induction rule: rtranclp_induct)
    case base
    show ?case by (simp add: fresh_world_def world_start_def NewWebhookConfigCache_def)
  qed (rule fresh_step)
  moreover have "map_of (cc_configs (w_cache s)) i = Some w" "w_now s < expiry_of (w_cache s) i"
    using assms(2) by (auto simp: cache_lookup_def split: option.splits if_splits)
  ultimately show ?thesis by (fastforce simp: fresh_world_def)
qed

text \<open>C31: an invalidation can be lost. A call that read the configuration before an administrator changed
  it may store it after the listener's \<open>InvalidateCache\<close>: in that run the changed tables are in
  place, the notification has been handled, and the old configuration is served for a whole \<open>ttl\<close>.\<close>

theorem invalidation_can_be_lost:
  assumes "GetWebhookByID i d = (Inr w, d1)" and "0 \<le> L"
  shows "\<exists>s. (cache_step L)\<^sup>*\<^sup>* (world_start ttl t0 d) s \<and> w_db s = d2 \<and> w_now s = t0 \<and>
    w_cache s = cache_store t0 i w (cache_InvalidateCache i (NewWebhookConfigCache ttl)) \<and>
    (\<forall>t. t < t0 + ttl \<longrightarrow> cache_lookup t i (w_cache s) = Some w)"
proof -
  let ?s0 = "world_start ttl t0 d"
  let ?s1 = "?s0\<lparr>w_db := d1, w_flight := [(t0, i, w)], w_past := [(t0, d)]\<rparr>"
  let ?s2 = "?s1\<lparr>w_db := d2\<rparr>"
  let ?s3 = "?s2\<lparr>w_cache := cache_InvalidateCache i (NewWebhookConfigCache ttl)\<rparr>"
  let ?s4 = "?s3\<lparr>w_cache := cache_store t0 i w (cache_InvalidateCache i (NewWebhookConfigCache ttl)), w_flight := []\<rparr>"
  have "cache_step L ?s0 ?s1"
    using fetched [of i ?s0 w d1 L] assms(1) by (simp add: world_start_def)
  moreover have "cache_step L ?s1 ?s2" by (rule changed)
  moreover have "cache_step L ?s2 ?s3"
    using invalidated [of L ?s2 i] by (simp add: world_start_def)
  moreover have "cache_step L ?s3 ?s4"
    using stored [of t0 i w ?s3 L] assms(2) by (simp add: world_start_def)
  ultimately have "(cache_step L)\<^sup>*\<^sup>* ?s0 ?s4"
    by (meson converse_rtranclp_into_rtranclp rtranclp.rtrancl_refl)
  then show ?thesis
    by (rule exI [of _ ?s4, OF conjI])
      (simp add: world_start_def cache_InvalidateCache_def NewWebhookConfigCache_def)
qed

text \<open>a full refresh brings the cache up to date. Each cached id is either refreshed or counted as an
  error; when no error is counted, every entry is what the database holds, and no id entered or
  left the cache.\<close>

theorem refresh_all_correct:
  assumes "set (key_order (cc_configs c)) = dom (map_of (cc_configs c))" and "distinct (key_order (cc_configs c))"
    and "cache_RefreshAllConfigs key_order GetWebhookByID clk (c, d) = ((refreshed, errors), c', d')"
  shows "refreshed + errors = card (dom (map_of (cc_configs c))) \<and>
    dom (map_of (cc_configs c')) \<subseteq> dom (map_of (cc_configs c)) \<and>
    (errors = 0 \<longrightarrow> cache_agrees (current_config d') c' \<and>
       dom (map_of (cc_configs c')) = dom (map_of (cc_configs c)))"
proof -
  have "refresh_each GetWebhookByID clk (key_order (cc_configs c)) (0, 0) (c, d) = ((refreshed, errors), c', d')"
    using assms(3) by (simp add: cache_RefreshAllConfigs_def)
  note r = repo_configs.refresh_each_result [OF this]
  have out: "map_of (cc_configs c') i = None" if "i \<notin> dom (map_of (cc_configs c))" for i
    using r that assms(1) by (auto simp: domIff)
  have "length (key_order (cc_configs c)) = card (dom (map_of (cc_configs c)))"
    using assms(1,2) distinct_card by metis
  moreover have "dom (map_of (cc_configs c')) \<subseteq> dom (map_of (cc_configs c))"
  proof (rule subsetI)
    fix i assume "i \<in> dom (map_of (cc_configs c'))"
    then show "i \<in> dom (map_of (cc_configs c))" using out [of i] by (metis domIff)
  qed
  moreover have "map_of (cc_configs c') i = current_config d i \<and> current_config d i \<noteq> None"
    if "errors = 0" "i \<in> dom (map_of (cc_configs c))" for i
    using r that assms(1) by blast
  ultimately show ?thesis
    using r out by (auto simp: cache_agrees_def) (metis domIff option.distinct(1))+
qed

end
