(* ===== verification/Worker_Pool.thy ===== *)
theory Worker_Pool
  imports Channel Float64
begin

text \<open>
  \<open>internal/service/worker_pool.go\<close>: the pool of workers that consume an event channel, its scaling
  decisions and its metrics. A critical section of \<open>wp.mu\<close> or \<open>wp.metricsMu\<close> is one step. \<open>range\<close>
  over the map of workers visits them in an order given as an argument, and the pool reads only
  the length and the capacity of the channel.
\<close>

section \<open>State\<close>

text \<open>A worker's stop channel is closed exactly when the worker leaves the map.\<close>

record worker =
  wk_id :: int
  wk_createdAt :: instant

text \<open>
  The fields of \<open>WorkerPool\<close>, then the goroutines the pool has started: the ids of the workers whose
  goroutine has not returned, and how many replacements (\<open>go wp.addWorker()\<close>) have not run yet. Ids
  and the number of workers stay far below \<open>2 ^ 63\<close>; the metrics, which sum durations, wrap.
\<close>

record pool =
  wp_name :: string
  wp_minWorkers :: int
  wp_maxWorkers :: int
  wp_activeWorkers :: int
  wp_workers :: "(int, worker) gomap"
  wp_nextWorkerID :: int
  wp_lastCheckTime :: instant
  wp_lastProcessed :: int
  wp_totalProcessed :: int
  wp_successfulDeliveries :: int
  wp_failedDeliveries :: int
  wp_processingTimeNs :: int
  wp_goroutines :: "int list"
  wp_replacing :: nat

definition go_min :: "int \<Rightarrow> int \<Rightarrow> int" where
  "go_min a b = (if a < b then a else b)"

definition go_max :: "int \<Rightarrow> int \<Rightarrow> int" where
  "go_max a b = (if a > b then a else b)"

definition maxInt :: "int \<Rightarrow> int \<Rightarrow> int" where
  "maxInt a b = (if a > b then a else b)"

text \<open>\<open>^uint(0) >> 1\<close> is the largest \<open>int64\<close>; as a \<open>float64\<close> it rounds to \<open>2 ^ 63\<close>.\<close>

definition floatToInt :: "(float64 \<Rightarrow> int) \<Rightarrow> float64 \<Rightarrow> int" where
  "floatToInt oor f = (if f64_of_int max_int64 < f then max_int64
     else if f < f64_neg (f64_of_int max_int64) then - max_int64
     else f64_to_int64 oor f)"

section \<open>Workers\<close>

definition addWorker :: "instant \<Rightarrow> pool \<Rightarrow> pool" where
  "addWorker now wp =
     (if wp_activeWorkers wp \<ge> wp_maxWorkers wp then wp
      else (let workerID = wp_nextWorkerID wp; worker = \<lparr>wk_id = workerID, wk_createdAt = now\<rparr> in
        wp\<lparr>wp_nextWorkerID := workerID + 1,
           wp_workers := AList.update workerID worker (wp_workers wp),
           wp_activeWorkers := wp_activeWorkers wp + 1,
           wp_goroutines := wp_goroutines wp @ [workerID]\<rparr>))"

text \<open>The deferred function of a worker's goroutine, after a panic in \<open>processEventFn\<close>.\<close>

definition worker_panicked :: "int \<Rightarrow> pool \<Rightarrow> pool" where
  "worker_panicked workerID wp = wp\<lparr>wp_workers := AList.delete workerID (wp_workers wp),
     wp_activeWorkers := wp_activeWorkers wp - 1,
     wp_goroutines := remove1 workerID (wp_goroutines wp),
     wp_replacing := wp_replacing wp + 1\<rparr>"

text \<open>A goroutine whose stop channel is closed returns.\<close>

definition worker_stopped :: "int \<Rightarrow> pool \<Rightarrow> pool" where
  "worker_stopped workerID wp = wp\<lparr>wp_goroutines := remove1 workerID (wp_goroutines wp)\<rparr>"

text \<open>The search for the oldest worker, over the entries in the order of \<open>range\<close>.\<close>

fun oldest_worker :: "(int \<times> worker) list \<Rightarrow> int \<times> instant \<Rightarrow> int \<times> instant" where
  "oldest_worker [] acc = acc"
| "oldest_worker ((i, w) # ws) (oldestWorkerID, oldestTime) =
     (if is_zero_time oldestTime \<or> wk_createdAt w < oldestTime then oldest_worker ws (i, wk_createdAt w)
      else oldest_worker ws (oldestWorkerID, oldestTime))"

type_synonym range_order = "(int, worker) gomap \<Rightarrow> (int \<times> worker) list"

text \<open>\<open>None\<close>: the entry for the oldest id is missing and \<open>worker.stopChan\<close> dereferences nil.\<close>

definition removeWorker :: "range_order \<Rightarrow> pool \<Rightarrow> pool option" where
  "removeWorker ord wp =
     (if wp_activeWorkers wp \<le> wp_minWorkers wp then Some wp
      else (let oldestWorkerID = fst (oldest_worker (ord (wp_workers wp)) (0, 0)) in
        case map_of (wp_workers wp) oldestWorkerID of
          None \<Rightarrow> None
        | Some _ \<Rightarrow> Some (wp\<lparr>wp_workers := AList.delete oldestWorkerID (wp_workers wp),
            wp_activeWorkers := wp_activeWorkers wp - 1\<rparr>)))"

definition pool_Shutdown :: "pool \<Rightarrow> pool" where
  "pool_Shutdown wp = wp\<lparr>wp_workers := [], wp_activeWorkers := 0\<rparr>"

fun add_times :: "nat \<Rightarrow> (nat \<Rightarrow> instant) \<Rightarrow> pool \<Rightarrow> pool" where
  "add_times 0 clk wp = wp"
| "add_times (Suc n) clk wp = add_times n (\<lambda>k. clk (Suc k)) (addWorker (clk 0) wp)"

fun remove_times :: "nat \<Rightarrow> range_order \<Rightarrow> pool \<Rightarrow> pool option" where
  "remove_times 0 ord wp = Some wp"
| "remove_times (Suc n) ord wp = (case removeWorker ord wp of None \<Rightarrow> None | Some wp' \<Rightarrow> remove_times n ord wp')"

definition NewNamedWorkerPool :: "string \<Rightarrow> int \<Rightarrow> int \<Rightarrow> instant \<Rightarrow> (nat \<Rightarrow> instant) \<Rightarrow> pool" where
  "NewNamedWorkerPool name minW maxW now clk =
     (let minWorkers = (if minW < 1 then 1 else minW);
          maxWorkers = (if maxW < minWorkers then minWorkers else maxW);
          wp = \<lparr>wp_name = name, wp_minWorkers = minWorkers, wp_maxWorkers = maxWorkers, wp_activeWorkers = 0,
            wp_workers = [], wp_nextWorkerID = 0, wp_lastCheckTime = now, wp_lastProcessed = 0,
            wp_totalProcessed = 0, wp_successfulDeliveries = 0, wp_failedDeliveries = 0,
            wp_processingTimeNs = 0, wp_goroutines = [], wp_replacing = 0\<rparr>
      in add_times (nat minWorkers) clk wp)"

definition NewWorkerPool :: "int \<Rightarrow> int \<Rightarrow> instant \<Rightarrow> (nat \<Rightarrow> instant) \<Rightarrow> pool" where
  "NewWorkerPool minW maxW now clk = NewNamedWorkerPool ''WorkerPool'' minW maxW now clk"

section \<open>Metrics\<close>

definition RecordSuccess :: "pool \<Rightarrow> pool" where
  "RecordSuccess wp = wp\<lparr>wp_successfulDeliveries := wrap64 (wp_successfulDeliveries wp + 1),
     wp_totalProcessed := wrap64 (wp_totalProcessed wp + 1)\<rparr>"

definition RecordFailure :: "pool \<Rightarrow> pool" where
  "RecordFailure wp = wp\<lparr>wp_failedDeliveries := wrap64 (wp_failedDeliveries wp + 1),
     wp_totalProcessed := wrap64 (wp_totalProcessed wp + 1)\<rparr>"

definition RecordProcessingTime :: "duration \<Rightarrow> pool \<Rightarrow> pool" where
  "RecordProcessingTime d wp = wp\<lparr>wp_processingTimeNs := wrap64 (wp_processingTimeNs wp + d)\<rparr>"

record pool_stats =
  ps_pool_name :: string
  ps_active_workers :: int
  ps_successful_deliveries :: int
  ps_failed_deliveries :: int
  ps_total_processed :: int
  ps_avg_processing_time_ms :: float64
  ps_queue_capacity :: nat
  ps_queue_length :: nat

definition avg_processing_ms :: "int \<Rightarrow> int \<Rightarrow> float64" where
  "avg_processing_ms timeNs deliveries =
     (if 0 < deliveries then f64_div (f64_div (f64_of_int timeNs) (f64_of_int deliveries)) (Fin 1000000) else Fin 0)"

definition pool_GetStats :: "'e chan \<Rightarrow> pool \<Rightarrow> pool_stats" where
  "pool_GetStats q wp =
     (let totalDeliveries = wrap64 (wp_successfulDeliveries wp + wp_failedDeliveries wp) in
      \<lparr>ps_pool_name = wp_name wp, ps_active_workers = wp_activeWorkers wp,
        ps_successful_deliveries = wp_successfulDeliveries wp,
        ps_failed_deliveries = wp_failedDeliveries wp,
        ps_total_processed = wp_totalProcessed wp,
        ps_avg_processing_time_ms = avg_processing_ms (wp_processingTimeNs wp) totalDeliveries,
        ps_queue_capacity = ch_cap q, ps_queue_length = chan_len q\<rparr>)"

section \<open>Scaling\<close>

definition utilization_pct :: "nat \<Rightarrow> nat \<Rightarrow> float64" where
  "utilization_pct queueLength queueCapacity =
     f64_mul (f64_div (f64_of_int (int queueLength)) (f64_of_int (int queueCapacity))) (Fin 100)"

definition processing_rate :: "int \<Rightarrow> duration \<Rightarrow> float64" where
  "processing_rate recentProcessed since = (let timeSinceLastCheck = duration_seconds since in
     if Fin 0 < timeSinceLastCheck then f64_div (f64_of_int recentProcessed) timeSinceLastCheck else Fin 0)"

text \<open>The decision to scale down, from the rate, the queue and the number of workers.\<close>

definition workers_to_remove :: "float64 \<Rightarrow> nat \<Rightarrow> int \<Rightarrow> int \<Rightarrow> int" where
  "workers_to_remove processingRate queueLength active minWorkers =
     (if processingRate < f64_round (1 / 10) \<and> active > minWorkers
      then (if f64_eq processingRate (Fin 0) \<and> queueLength = 0
            then (let extraWorkers = active - minWorkers in go_min extraWorkers (maxInt 1 (go_div extraWorkers 2)))
            else 1)
      else 0)"

text \<open>The decision to scale up, taken after the scaling down.\<close>

definition workers_to_add :: "float64 \<Rightarrow> nat \<Rightarrow> float64 \<Rightarrow> int \<Rightarrow> int \<Rightarrow> int" where
  "workers_to_add processingRate queueLength utilizationPct active maxWorkers =
     (if queueLength > 0
      then (let processingRateWithMin = f64_max (f64_round (1 / 1000)) processingRate;
                expectedTimeToEmpty = f64_div (f64_of_int (int queueLength)) processingRateWithMin
            in if (Fin 5 < expectedTimeToEmpty \<or> Fin 50 < utilizationPct) \<and> active < maxWorkers
               then (if Fin 80 < utilizationPct \<or> Fin 30 < expectedTimeToEmpty
                     then go_min 3 (maxWorkers - active) else 1)
               else 0)
      else 0)"

text \<open>
  \<open>now\<close> is the instant of \<open>time.Since\<close>, \<open>clk\<close> the instants at which workers are added, \<open>now'\<close> the
  instant of the last line.
\<close>

definition adjustWorkerCount ::
    "range_order \<Rightarrow> nat \<Rightarrow> nat \<Rightarrow> instant \<Rightarrow> (nat \<Rightarrow> instant) \<Rightarrow> instant \<Rightarrow> pool \<Rightarrow> pool option" where
  "adjustWorkerCount ord queueLength queueCapacity now clk now' wp =
     (let utilizationPct = utilization_pct queueLength queueCapacity;
          recentProcessed = wrap64 (wp_totalProcessed wp - wp_lastProcessed wp);
          wp1 = wp\<lparr>wp_lastProcessed := wp_totalProcessed wp\<rparr>;
          processingRate = processing_rate recentProcessed (time_sub now (wp_lastCheckTime wp));
          toRemove = workers_to_remove processingRate queueLength (wp_activeWorkers wp1) (wp_minWorkers wp1)
      in case remove_times (nat toRemove) ord wp1 of
           None \<Rightarrow> None
         | Some wp2 \<Rightarrow> (let toAdd = workers_to_add processingRate queueLength utilizationPct
                              (wp_activeWorkers wp2) (wp_maxWorkers wp2)
             in Some ((add_times (nat toAdd) clk wp2)\<lparr>wp_lastCheckTime := now'\<rparr>)))"

section \<open>The invariant of the map and the counter\<close>

text \<open>
  \<open>pool_safe\<close> holds in every run: the counter never exceeds the number of workers in the map.
  \<open>pool_ok\<close> holds while no worker panics after it was removed: the counter is that number, it is
  at most the maximum, and a worker that is missing below the minimum has a replacement on its way.
\<close>

definition pool_safe :: "pool \<Rightarrow> bool" where
  "pool_safe wp \<longleftrightarrow> 1 \<le> wp_minWorkers wp \<and> wp_minWorkers wp \<le> wp_maxWorkers wp \<and> map_ok (wp_workers wp) \<and>
     (\<forall>i \<in> fst ` set (wp_workers wp) \<union> set (wp_goroutines wp). i < wp_nextWorkerID wp) \<and>
     fst ` set (wp_workers wp) \<subseteq> set (wp_goroutines wp) \<and> distinct (wp_goroutines wp) \<and>
     wp_activeWorkers wp \<le> int (length (wp_workers wp)) \<and>
     wp_totalProcessed wp = wrap64 (wp_successfulDeliveries wp + wp_failedDeliveries wp)"

definition pool_ok :: "pool \<Rightarrow> bool" where
  "pool_ok wp \<longleftrightarrow> pool_safe wp \<and> wp_activeWorkers wp = int (length (wp_workers wp)) \<and>
     wp_activeWorkers wp \<le> wp_maxWorkers wp \<and> wp_minWorkers wp \<le> wp_activeWorkers wp + int (wp_replacing wp)"

definition range_ok :: "range_order \<Rightarrow> bool" where
  "range_ok ord \<longleftrightarrow> (\<forall>m. set (ord m) = set m)"

lemma wrap64_step: "wrap64 (wrap64 x + 1) = wrap64 (x + 1)"
  by (simp add: wrap64_def algebra_simps mod_add_right_eq mod_diff_left_eq)

text \<open>The maximum and minimum are those of the constructor, whatever the pool does.\<close>

lemma addWorker_bounds [simp]:
  "wp_minWorkers (addWorker t wp) = wp_minWorkers wp" "wp_maxWorkers (addWorker t wp) = wp_maxWorkers wp"
  "wp_replacing (addWorker t wp) = wp_replacing wp"
  "wp_activeWorkers (addWorker t wp) =
     (if wp_activeWorkers wp < wp_maxWorkers wp then wp_activeWorkers wp + 1 else wp_activeWorkers wp)"
  by (simp_all add: addWorker_def Let_def)

lemma addWorker_safe: "pool_safe wp \<Longrightarrow> pool_safe (addWorker t wp)"
proof (cases "wp_activeWorkers wp \<ge> wp_maxWorkers wp")
  case False
  assume safe: "pool_safe wp"
  let ?n = "wp_nextWorkerID wp"
  have new: "?n \<notin> fst ` set (wp_workers wp)" "?n \<notin> set (wp_goroutines wp)"
    using safe by (auto simp: pool_safe_def)
  then show ?thesis
    using safe False
    by (auto simp: pool_safe_def addWorker_def Let_def update_new map_ok_def intro: less_imp_le)
qed (simp add: addWorker_def)

lemma length_add:
  assumes "pool_safe wp"
  shows "length (wp_workers (addWorker t wp)) =
    (if wp_activeWorkers wp < wp_maxWorkers wp then Suc (length (wp_workers wp)) else length (wp_workers wp))"
proof -
  have "wp_nextWorkerID wp \<notin> fst ` set (wp_workers wp)" using assms by (auto simp: pool_safe_def)
  then show ?thesis by (simp add: addWorker_def Let_def update_new)
qed

lemma addWorker_ok: "pool_ok wp \<Longrightarrow> pool_ok (addWorker t wp)"
  by (auto simp: pool_ok_def addWorker_safe length_add)

lemma add_times_keeps:
  assumes "\<And>t wp. P wp \<Longrightarrow> P (addWorker t wp)" and "P wp"
  shows "P (add_times n clk wp)"
  using assms(2) by (induction n arbitrary: clk wp) (auto intro: assms(1))

lemma add_times_bounds [simp]:
  "wp_minWorkers (add_times n clk wp) = wp_minWorkers wp" "wp_maxWorkers (add_times n clk wp) = wp_maxWorkers wp"
  by (induction n arbitrary: clk wp) simp_all

lemma add_times_active:
  "wp_activeWorkers wp \<le> wp_maxWorkers wp \<Longrightarrow>
   wp_activeWorkers (add_times n clk wp) = min (wp_maxWorkers wp) (wp_activeWorkers wp + int n)"
  by (induction n arbitrary: clk wp) auto

text \<open>The search finds an entry of the map, and one with the least creation time.\<close>

lemma oldest_in:
  "fst (oldest_worker ws acc) \<in> insert (fst acc) (fst ` set ws)"
  by (induction ws acc rule: oldest_worker.induct) auto

lemma oldest_found:
  assumes "ws \<noteq> []"
  shows "fst (oldest_worker ws (0, 0)) \<in> fst ` set ws"
proof -
  obtain i w ws' where "ws = (i, w) # ws'" using assms by (cases ws) auto
  then show ?thesis using oldest_in [of ws' "(i, wk_createdAt w)"] by (auto simp: is_zero_time_def)
qed

lemma oldest_le:
  assumes "0 < snd acc" and "\<forall>(i, w) \<in> set ws. 0 < wk_createdAt w"
  shows "snd (oldest_worker ws acc) \<le> snd acc \<and> (\<forall>(i, w) \<in> set ws. snd (oldest_worker ws acc) \<le> wk_createdAt w) \<and>
    (oldest_worker ws acc = acc \<or> (\<exists>(i, w) \<in> set ws. oldest_worker ws acc = (i, wk_createdAt w)))"
  using assms
proof (induction ws acc rule: oldest_worker.induct)
  case (2 i w ws j t)
  show ?case
  proof (cases "wk_createdAt w < t")
    case True
    then show ?thesis using 2 by (auto simp: is_zero_time_def)
  next
    case False
    then show ?thesis using 2 by (auto simp: is_zero_time_def)
  qed
qed simp

lemma oldest_least:
  assumes "ws \<noteq> []" and "\<forall>(i, w) \<in> set ws. 0 < wk_createdAt w"
  shows "\<exists>(i, w) \<in> set ws. oldest_worker ws (0, 0) = (i, wk_createdAt w) \<and>
    (\<forall>(j, v) \<in> set ws. wk_createdAt w \<le> wk_createdAt v)"
proof -
  obtain i w ws' where ws: "ws = (i, w) # ws'" using assms(1) by (cases ws) auto
  let ?o = "oldest_worker ws' (i, wk_createdAt w)"
  have o: "oldest_worker ws (0, 0) = ?o" by (simp add: ws is_zero_time_def)
  have le: "snd ?o \<le> wk_createdAt w" "\<forall>(j, v) \<in> set ws'. snd ?o \<le> wk_createdAt v"
    "?o = (i, wk_createdAt w) \<or> (\<exists>(j, v) \<in> set ws'. ?o = (j, wk_createdAt v))"
    using oldest_le [of "(i, wk_createdAt w)" ws'] assms(2) unfolding ws by simp_all
  from le(3) obtain j v where v: "(j, v) \<in> set ws" "?o = (j, wk_createdAt v)" unfolding ws by auto
  then have "\<forall>(j, u) \<in> set ws. wk_createdAt v \<le> wk_createdAt u" using le(1,2) unfolding ws by simp
  then show ?thesis using v o by (intro bexI [of _ "(j, v)"]) simp_all
qed

lemma removeWorker_cases:
  assumes "pool_safe wp" and "range_ok ord" and "wp_minWorkers wp < wp_activeWorkers wp"
  shows "\<exists>i v. i = fst (oldest_worker (ord (wp_workers wp)) (0, 0)) \<and> map_of (wp_workers wp) i = Some v \<and>
    removeWorker ord wp = Some (wp\<lparr>wp_workers := AList.delete i (wp_workers wp),
      wp_activeWorkers := wp_activeWorkers wp - 1\<rparr>)"
proof -
  let ?i = "fst (oldest_worker (ord (wp_workers wp)) (0, 0))"
  have "wp_workers wp \<noteq> []" using assms(1,3) by (auto simp: pool_safe_def)
  then have "ord (wp_workers wp) \<noteq> []" using assms(2) by (metis range_ok_def set_empty)
  then have "?i \<in> fst ` set (wp_workers wp)" using oldest_found assms(2) by (metis range_ok_def)
  then obtain v where "map_of (wp_workers wp) ?i = Some v"
    by (metis map_of_eq_None_iff not_None_eq)
  with assms(3) show ?thesis by (auto simp: removeWorker_def Let_def)
qed

lemma delete_fst_subset: "fst ` set (AList.delete i m) \<subseteq> fst ` set m"
  by (auto simp: AList.delete_eq)

lemma removeWorker_keeps:
  assumes "pool_safe wp" and "range_ok ord"
  shows "\<exists>wp'. removeWorker ord wp = Some wp' \<and> pool_safe wp' \<and> (pool_ok wp \<longrightarrow> pool_ok wp') \<and>
    wp_minWorkers wp' = wp_minWorkers wp \<and> wp_maxWorkers wp' = wp_maxWorkers wp \<and>
    wp_activeWorkers wp' = (if wp_minWorkers wp < wp_activeWorkers wp then wp_activeWorkers wp - 1 else wp_activeWorkers wp)"
proof (cases "wp_minWorkers wp < wp_activeWorkers wp")
  case True
  obtain i v where i: "map_of (wp_workers wp) i = Some v"
    and r: "removeWorker ord wp = Some (wp\<lparr>wp_workers := AList.delete i (wp_workers wp),
      wp_activeWorkers := wp_activeWorkers wp - 1\<rparr>)"
    using removeWorker_cases [OF assms True] by blast
  have "map_ok (wp_workers wp)" using assms(1) by (simp add: pool_safe_def)
  note len = length_delete_old [OF this i]
  have "pool_safe (wp\<lparr>wp_workers := AList.delete i (wp_workers wp), wp_activeWorkers := wp_activeWorkers wp - 1\<rparr>)"
    using assms(1) len delete_fst_subset [of i "wp_workers wp"] by (auto simp: pool_safe_def)
  with True r len show ?thesis by (auto simp: pool_ok_def)
qed (use assms(1) in \<open>simp add: removeWorker_def\<close>)

lemma remove_times_keeps:
  assumes "pool_safe wp" and "range_ok ord"
  shows "\<exists>wp'. remove_times n ord wp = Some wp' \<and> pool_safe wp' \<and> (pool_ok wp \<longrightarrow> pool_ok wp') \<and>
    wp_minWorkers wp' = wp_minWorkers wp \<and> wp_maxWorkers wp' = wp_maxWorkers wp \<and>
    (wp_minWorkers wp \<le> wp_activeWorkers wp \<longrightarrow>
       wp_activeWorkers wp' = max (wp_minWorkers wp) (wp_activeWorkers wp - int n)) \<and>
    (wp_activeWorkers wp < wp_minWorkers wp \<longrightarrow> wp_activeWorkers wp' = wp_activeWorkers wp)"
  using assms(1)
proof (induction n arbitrary: wp)
  case (Suc n)
  obtain wp1 where w: "removeWorker ord wp = Some wp1" "pool_safe wp1" "pool_ok wp \<longrightarrow> pool_ok wp1"
    "wp_minWorkers wp1 = wp_minWorkers wp" "wp_maxWorkers wp1 = wp_maxWorkers wp"
    "wp_activeWorkers wp1 = (if wp_minWorkers wp < wp_activeWorkers wp then wp_activeWorkers wp - 1 else wp_activeWorkers wp)"
    using removeWorker_keeps [OF Suc.prems assms(2)] by blast
  from Suc.IH [OF w(2)] w show ?case by (auto split: if_splits)
qed simp

text \<open>What a check of the load keeps, and where it leaves the number of workers.\<close>

lemma pool_ok_fields:
  "pool_safe (wp\<lparr>wp_lastProcessed := n\<rparr>) = pool_safe wp" "pool_ok (wp\<lparr>wp_lastProcessed := n\<rparr>) = pool_ok wp"
  "pool_safe (wp\<lparr>wp_lastCheckTime := t\<rparr>) = pool_safe wp" "pool_ok (wp\<lparr>wp_lastCheckTime := t\<rparr>) = pool_ok wp"
  by (simp_all add: pool_ok_def pool_safe_def)

lemma adjust_keeps:
  assumes "pool_safe wp" and "range_ok ord"
  shows "\<exists>wp'. adjustWorkerCount ord q c now clk now' wp = Some wp' \<and> pool_safe wp' \<and> (pool_ok wp \<longrightarrow> pool_ok wp') \<and>
    wp_minWorkers wp' = wp_minWorkers wp \<and> wp_maxWorkers wp' = wp_maxWorkers wp"
proof -
  let ?wp1 = "wp\<lparr>wp_lastProcessed := wp_totalProcessed wp\<rparr>"
  let ?rate = "processing_rate (wrap64 (wp_totalProcessed wp - wp_lastProcessed wp)) (time_sub now (wp_lastCheckTime wp))"
  obtain wp2 where w: "remove_times (nat (workers_to_remove ?rate q (wp_activeWorkers wp) (wp_minWorkers wp))) ord ?wp1 = Some wp2"
    "pool_safe wp2" "pool_ok ?wp1 \<longrightarrow> pool_ok wp2" "wp_minWorkers wp2 = wp_minWorkers wp" "wp_maxWorkers wp2 = wp_maxWorkers wp"
    using remove_times_keeps [of ?wp1 ord] assms by (fastforce simp: pool_ok_fields)
  have "pool_safe (add_times n clk wp2)" for n
    using w(2) add_times_keeps [of pool_safe] addWorker_safe by blast
  moreover have "pool_ok wp \<longrightarrow> pool_ok (add_times n clk wp2)" for n
    using w(3) add_times_keeps [of pool_ok] addWorker_ok by (metis pool_ok_fields(2))
  ultimately show ?thesis using w(1,4,5) by (simp add: adjustWorkerCount_def Let_def pool_ok_fields)
qed

lemma panic_safe:
  assumes "pool_safe wp" and "i \<in> set (wp_goroutines wp)"
  shows "pool_safe (worker_panicked i wp)"
proof (cases "map_of (wp_workers wp) i")
  case None
  then have "i \<notin> fst ` set (wp_workers wp)" by (simp add: map_of_eq_None_iff)
  then show ?thesis using assms by (auto simp: pool_safe_def worker_panicked_def AList.delete_idem)
next
  case (Some v)
  have "map_ok (wp_workers wp)" using assms(1) by (simp add: pool_safe_def)
  note len = length_delete_old [OF this Some]
  have "fst ` set (AList.delete i (wp_workers wp)) = fst ` set (wp_workers wp) - {i}"
    by (auto simp: AList.delete_eq)
  then show ?thesis
    using assms len by (auto simp: pool_safe_def worker_panicked_def)
qed

section \<open>Runs of the pool\<close>

text \<open>
  What can happen to a pool, one critical section at a time: a check of the load, a panic of a worker
  that is in the map, a panic of one that was removed while it was processing an event, a replacement
  that starts, the return of a removed worker, the metrics, and the shutdown. \<open>None\<close> is the process
  dead of a nil dereference.
\<close>

datatype pool_op =
    OpAdjust range_order nat nat instant "nat \<Rightarrow> instant" instant
  | OpPanic int
  | OpLatePanic int
  | OpReplace instant
  | OpReturn int
  | OpSuccess
  | OpFailure
  | OpTime duration
  | OpShutdown

definition removed_running :: "int \<Rightarrow> pool \<Rightarrow> bool" where
  "removed_running i wp \<longleftrightarrow> i \<in> set (wp_goroutines wp) \<and> map_of (wp_workers wp) i = None"

fun pool_do :: "pool_op \<Rightarrow> pool \<Rightarrow> pool option" where
  "pool_do (OpAdjust ord q c now clk now') wp = adjustWorkerCount ord q c now clk now' wp"
| "pool_do (OpPanic i) wp =
     Some (if i \<in> set (wp_goroutines wp) \<and> map_of (wp_workers wp) i \<noteq> None then worker_panicked i wp else wp)"
| "pool_do (OpLatePanic i) wp = Some (if removed_running i wp then worker_panicked i wp else wp)"
| "pool_do (OpReplace now) wp =
     Some (if 0 < wp_replacing wp then (addWorker now wp)\<lparr>wp_replacing := wp_replacing wp - 1\<rparr> else wp)"
| "pool_do (OpReturn i) wp = Some (if removed_running i wp then worker_stopped i wp else wp)"
| "pool_do OpSuccess wp = Some (RecordSuccess wp)"
| "pool_do OpFailure wp = Some (RecordFailure wp)"
| "pool_do (OpTime d) wp = Some (RecordProcessingTime d wp)"
| "pool_do OpShutdown wp = Some (pool_Shutdown wp)"

definition pool_step :: "pool option \<Rightarrow> pool_op \<Rightarrow> pool option" where
  "pool_step s a = Option.bind s (pool_do a)"

fun order_ok :: "pool_op \<Rightarrow> bool" where
  "order_ok (OpAdjust ord _ _ _ _ _) \<longleftrightarrow> range_ok ord"
| "order_ok _ \<longleftrightarrow> True"

fun no_late :: "pool_op \<Rightarrow> bool" where
  "no_late (OpLatePanic _) \<longleftrightarrow> False"
| "no_late OpShutdown \<longleftrightarrow> False"
| "no_late a \<longleftrightarrow> order_ok a"

definition opt_all :: "('a \<Rightarrow> bool) \<Rightarrow> 'a option \<Rightarrow> bool" where
  "opt_all P s \<longleftrightarrow> (case s of None \<Rightarrow> False | Some x \<Rightarrow> P x)"

lemma opt_all_iff [simp]: "opt_all P (Some x) \<longleftrightarrow> P x" "\<not> opt_all P None"
  by (simp_all add: opt_all_def)

lemma opt_allE: "opt_all P s \<Longrightarrow> (\<And>x. s = Some x \<Longrightarrow> P x \<Longrightarrow> thesis) \<Longrightarrow> thesis"
  by (cases s) auto

lemma return_safe: "pool_safe wp \<Longrightarrow> removed_running i wp \<Longrightarrow> pool_safe (worker_stopped i wp)"
  by (auto simp: pool_safe_def removed_running_def worker_stopped_def map_of_eq_None_iff)

lemma metrics_safe:
  "pool_safe wp \<Longrightarrow> pool_safe (RecordSuccess wp)" "pool_safe wp \<Longrightarrow> pool_safe (RecordFailure wp)"
  "pool_safe wp \<Longrightarrow> pool_safe (RecordProcessingTime d wp)"
  by (simp_all add: pool_safe_def RecordSuccess_def RecordFailure_def RecordProcessingTime_def)
    (simp_all add: wrap64_def algebra_simps mod_simps)

lemma replace_safe: "pool_safe wp \<Longrightarrow> pool_safe ((addWorker now wp)\<lparr>wp_replacing := n\<rparr>)"
  using addWorker_safe [of wp now] by (simp add: pool_safe_def)

lemma pool_do_safe:
  assumes "pool_safe wp" and "order_ok a"
  shows "opt_all pool_safe (pool_do a wp)"
proof (cases a)
  case (OpAdjust ord q c now clk now')
  then show ?thesis using adjust_keeps [OF assms(1), of ord q c now clk now'] assms(2) by auto
next
  case (OpLatePanic i)
  then show ?thesis using assms panic_safe by (simp add: removed_running_def)
next
  case OpShutdown
  then show ?thesis using assms by (simp add: pool_safe_def pool_Shutdown_def)
qed (use assms panic_safe return_safe metrics_safe replace_safe in auto)

lemma pool_do_ok:
  assumes "pool_ok wp" and "no_late a"
  shows "opt_all pool_ok (pool_do a wp)"
proof -
  have safe: "pool_safe wp" using assms(1) by (simp add: pool_ok_def)
  show ?thesis
  proof (cases a)
    case (OpAdjust ord q c now clk now')
    then show ?thesis using adjust_keeps [OF safe, of ord q c now clk now'] assms by auto
  next
    case (OpPanic i)
    have "map_ok (wp_workers wp)" using safe by (simp add: pool_safe_def)
    then show ?thesis
      using OpPanic assms(1) panic_safe [OF safe, of i] length_delete_old [of "wp_workers wp" i]
      by (auto simp: pool_ok_def worker_panicked_def)
  next
    case (OpReplace now)
    have "wp_minWorkers wp \<le> wp_maxWorkers wp" using safe by (simp add: pool_safe_def)
    then show ?thesis using OpReplace assms(1) addWorker_ok [OF assms(1), of now] replace_safe [OF safe]
      by (auto simp: pool_ok_def length_add)
  next
    case (OpReturn i)
    then show ?thesis using assms(1) return_safe [OF safe, of i]
      by (auto simp: pool_ok_def worker_stopped_def)
  next
    case OpSuccess
    then show ?thesis using assms(1) metrics_safe(1) [OF safe] by (simp add: pool_ok_def RecordSuccess_def)
  next
    case OpFailure
    then show ?thesis using assms(1) metrics_safe(2) [OF safe] by (simp add: pool_ok_def RecordFailure_def)
  next
    case (OpTime d)
    then show ?thesis using assms(1) metrics_safe(3) [OF safe, of d] by (simp add: pool_ok_def RecordProcessingTime_def)
  qed (use assms(2) in simp_all)
qed

lemma new_pool_ok: "pool_ok (NewNamedWorkerPool name minW maxW now clk)"
proof -
  let ?min = "if minW < 1 then 1 else minW" and ?max = "if maxW < (if minW < 1 then 1 else minW) then (if minW < 1 then 1 else minW) else maxW"
  define wp where "wp = \<lparr>wp_name = name, wp_minWorkers = ?min, wp_maxWorkers = ?max, wp_activeWorkers = 0,
    wp_workers = [], wp_nextWorkerID = 0, wp_lastCheckTime = now, wp_lastProcessed = 0,
    wp_totalProcessed = 0, wp_successfulDeliveries = 0, wp_failedDeliveries = 0,
    wp_processingTimeNs = 0, wp_goroutines = [], wp_replacing = 0\<rparr>"
  let ?P = "\<lambda>w. pool_safe w \<and> wp_activeWorkers w = int (length (wp_workers w)) \<and> wp_activeWorkers w \<le> wp_maxWorkers w"
  have "?P wp" by (simp add: wp_def pool_safe_def min_int64_def max_int64_def)
  then have "?P (add_times n clk wp)" for n
    by (rule add_times_keeps [of ?P, rotated]) (simp_all add: addWorker_safe length_add)
  moreover have "wp_activeWorkers (add_times (nat ?min) clk wp) = ?min"
    by (subst add_times_active) (simp_all add: wp_def)
  moreover have "wp_minWorkers wp = ?min" "?min \<le> wp_maxWorkers wp" by (simp_all add: wp_def)
  ultimately have "pool_ok (add_times (nat ?min) clk wp)" by (simp add: pool_ok_def)
  then show ?thesis by (simp only: NewNamedWorkerPool_def Let_def wp_def)
qed

definition same_limits :: "pool option \<Rightarrow> pool option \<Rightarrow> bool" where
  "same_limits s s' \<longleftrightarrow> map_option (\<lambda>w. (wp_minWorkers w, wp_maxWorkers w)) s' =
     map_option (\<lambda>w. (wp_minWorkers w, wp_maxWorkers w)) s"

lemma pool_do_limits:
  assumes "pool_safe wp" and "order_ok a"
  shows "same_limits (Some wp) (pool_do a wp)"
proof (cases a)
  case (OpAdjust ord q c now clk now')
  then show ?thesis using adjust_keeps [OF assms(1), of ord q c now clk now'] assms(2)
    by (auto simp: same_limits_def)
qed (simp_all add: same_limits_def worker_panicked_def worker_stopped_def RecordSuccess_def
    RecordFailure_def RecordProcessingTime_def pool_Shutdown_def)

lemma no_late_order: "no_late a \<Longrightarrow> order_ok a"
  by (cases a) auto

interpretation pool_runs: component_runs pool_step order_ok "opt_all pool_safe" same_limits
  by unfold_locales
    (auto simp: pool_step_def pool_do_safe pool_do_limits elim!: opt_allE, auto simp: same_limits_def)

interpretation orderly_runs: component_runs pool_step no_late "opt_all pool_ok" same_limits
  by unfold_locales
    (auto simp: pool_step_def pool_do_ok pool_do_limits no_late_order pool_ok_def elim!: opt_allE, auto simp: same_limits_def)

definition pool_run :: "pool \<Rightarrow> pool_op list \<Rightarrow> pool option" where
  "pool_run wp ops = foldl pool_step (Some wp) ops"

text \<open>C24: the pool never crashes and never counts a worker it does not have. From the constructor,
  whatever loads, panics, metrics and shutdowns follow, no step dereferences a missing worker, the
  counter is at most the number of workers in the map, ids are unique, every worker in the map has a running
  goroutine, the limits are those of the constructor, and the totals of the metrics add up.\<close>

theorem pool_never_crashes:
  assumes "list_all order_ok ops"
  shows "\<exists>wp. pool_run (NewNamedWorkerPool name minW maxW now clk) ops = Some wp \<and>
    wp_activeWorkers wp \<le> int (length (wp_workers wp)) \<and> distinct (map fst (wp_workers wp)) \<and>
    fst ` set (wp_workers wp) \<subseteq> set (wp_goroutines wp) \<and>
    wp_minWorkers wp = max 1 minW \<and> wp_maxWorkers wp = max (max 1 minW) maxW \<and>
    wp_totalProcessed wp = wrap64 (wp_successfulDeliveries wp + wp_failedDeliveries wp)"
proof -
  let ?s = "Some (NewNamedWorkerPool name minW maxW now clk)"
  have s: "opt_all pool_safe ?s" using new_pool_ok [of name minW maxW now clk] by (simp add: pool_ok_def)
  have lim: "wp_minWorkers (NewNamedWorkerPool name minW maxW now clk) = max 1 minW"
    "wp_maxWorkers (NewNamedWorkerPool name minW maxW now clk) = max (max 1 minW) maxW"
    by (simp_all add: NewNamedWorkerPool_def Let_def)
  from pool_runs.runs_inv [OF s assms] pool_runs.runs_rel [OF s assms] show ?thesis
    unfolding pool_run_def
    by (auto elim!: opt_allE simp: same_limits_def lim pool_safe_def map_ok_def)
qed

text \<open>C25: the number of workers stays between the limits. As long as no worker panics after its removal
  and the pool is not shut down, the counter is the number of workers in the map, never above the
  maximum, and below the minimum only by replacements that are on their way.\<close>

theorem pool_size_bounds:
  assumes "list_all no_late ops"
  shows "\<exists>wp. pool_run (NewNamedWorkerPool name minW maxW now clk) ops = Some wp \<and>
    wp_activeWorkers wp = int (length (wp_workers wp)) \<and>
    max 1 minW - int (wp_replacing wp) \<le> wp_activeWorkers wp \<and> wp_activeWorkers wp \<le> max (max 1 minW) maxW"
proof -
  let ?s = "Some (NewNamedWorkerPool name minW maxW now clk)"
  have s: "opt_all pool_ok ?s" using new_pool_ok [of name minW maxW now clk] by simp
  have lim: "wp_minWorkers (NewNamedWorkerPool name minW maxW now clk) = max 1 minW"
    "wp_maxWorkers (NewNamedWorkerPool name minW maxW now clk) = max (max 1 minW) maxW"
    by (simp_all add: NewNamedWorkerPool_def Let_def)
  from orderly_runs.runs_inv [OF s assms] orderly_runs.runs_rel [OF s assms] show ?thesis
    unfolding pool_run_def by (auto elim!: opt_allE simp: same_limits_def lim pool_ok_def)
qed

text \<open>scaling down removes the oldest worker. Above the minimum, \<open>removeWorker\<close> takes out of the map
  a worker created no later than any other, leaves every other one, and takes one off the counter.\<close>

theorem removeWorker_oldest:
  assumes "pool_safe wp" and "range_ok ord" and "wp_minWorkers wp < wp_activeWorkers wp"
    and "\<forall>(i, w) \<in> set (wp_workers wp). 0 < wk_createdAt w"
  shows "\<exists>i w. map_of (wp_workers wp) i = Some w \<and>
    (\<forall>j v. map_of (wp_workers wp) j = Some v \<longrightarrow> wk_createdAt w \<le> wk_createdAt v) \<and>
    removeWorker ord wp = Some (wp\<lparr>wp_workers := AList.delete i (wp_workers wp),
      wp_activeWorkers := wp_activeWorkers wp - 1\<rparr>)"
proof -
  let ?ws = "ord (wp_workers wp)"
  have set: "set ?ws = set (wp_workers wp)" using assms(2) by (simp add: range_ok_def)
  have "wp_workers wp \<noteq> []" using assms(1,3) by (auto simp: pool_safe_def)
  then have "?ws \<noteq> []" using set by (metis set_empty)
  with assms(4) set obtain i w where w: "(i, w) \<in> set ?ws" "oldest_worker ?ws (0, 0) = (i, wk_createdAt w)"
    "\<forall>(j, v) \<in> set ?ws. wk_createdAt w \<le> wk_createdAt v"
    using oldest_least [of ?ws] by auto
  have "map_ok (wp_workers wp)" using assms(1) by (simp add: pool_safe_def)
  then have "map_of (wp_workers wp) i = Some w" using w(1) set by (simp add: map_ok_in_iff)
  moreover have "\<forall>j v. map_of (wp_workers wp) j = Some v \<longrightarrow> wk_createdAt w \<le> wk_createdAt v"
    using w(3) set by (auto dest: map_of_SomeD)
  ultimately show ?thesis using removeWorker_cases [OF assms(1-3)] w(2) by auto
qed

text \<open>An idle check: nothing was processed since the last one and the queue is empty.\<close>

definition idle_step :: "int \<Rightarrow> int" where
  "idle_step extra = go_min extra (maxInt 1 (go_div extra 2))"

lemma f64_less_iff: "(Fin a < Fin b) \<longleftrightarrow> a < b"
  by simp

lemma tenth_pos: "Fin 0 < f64_round (1 / 10)"
  by code_simp

lemma idle_rate: "processing_rate 0 d = Fin 0"
proof -
  have "f64_of_int 0 = Fin 0" by (simp add: f64_of_int_exact)
  then show ?thesis
    by (cases "duration_seconds d") (simp_all add: processing_rate_def f64_round_exact)
qed

lemma removeWorker_metrics:
  assumes "removeWorker ord wp = Some wp'"
  shows "wp_totalProcessed wp' = wp_totalProcessed wp \<and> wp_lastProcessed wp' = wp_lastProcessed wp"
  using assms by (auto simp: removeWorker_def Let_def split: if_splits option.splits)

lemma remove_times_metrics:
  assumes "remove_times n ord wp = Some wp'"
  shows "wp_totalProcessed wp' = wp_totalProcessed wp \<and> wp_lastProcessed wp' = wp_lastProcessed wp"
  using assms
  by (induction n arbitrary: wp) (auto dest: removeWorker_metrics split: option.splits)

lemma workers_to_remove_idle:
  "workers_to_remove (Fin 0) 0 active minW = (if minW < active then idle_step (active - minW) else 0)"
  using tenth_pos by (simp add: workers_to_remove_def idle_step_def f64_eq_def Let_def)

lemma idle_step_bounds: "0 < extra \<Longrightarrow> 1 \<le> idle_step extra \<and> idle_step extra \<le> extra"
  by (auto simp: idle_step_def go_min_def maxInt_def)

lemma idle_adjust:
  assumes "pool_ok wp" and "range_ok ord" and "wp_totalProcessed wp = wp_lastProcessed wp"
    and "wp_minWorkers wp \<le> wp_activeWorkers wp"
  shows "\<exists>wp'. adjustWorkerCount ord 0 c now clk now' wp = Some wp' \<and> pool_ok wp' \<and>
    wp_minWorkers wp' = wp_minWorkers wp \<and> wp_totalProcessed wp' = wp_lastProcessed wp' \<and>
    wp_activeWorkers wp' = wp_activeWorkers wp -
      (if wp_minWorkers wp < wp_activeWorkers wp then idle_step (wp_activeWorkers wp - wp_minWorkers wp) else 0)"
proof -
  let ?k = "if wp_minWorkers wp < wp_activeWorkers wp then idle_step (wp_activeWorkers wp - wp_minWorkers wp) else 0"
  let ?wp1 = "wp\<lparr>wp_lastProcessed := wp_totalProcessed wp\<rparr>"
  have k: "0 \<le> ?k" "?k \<le> wp_activeWorkers wp - wp_minWorkers wp"
    using assms(4) idle_step_bounds [of "wp_activeWorkers wp - wp_minWorkers wp"] by auto
  have ok: "pool_safe ?wp1" "pool_ok ?wp1" using assms(1) by (simp_all add: pool_ok_fields pool_ok_def)
  obtain wp2 where w: "remove_times (nat ?k) ord ?wp1 = Some wp2" "pool_ok wp2" "wp_minWorkers wp2 = wp_minWorkers wp"
    "wp_activeWorkers wp2 = max (wp_minWorkers wp) (wp_activeWorkers wp - int (nat ?k))"
    using remove_times_keeps [OF ok(1) assms(2), of "nat ?k"] ok(2) assms(4) by auto
  have "adjustWorkerCount ord 0 c now clk now' wp = Some (wp2\<lparr>wp_lastCheckTime := now'\<rparr>)"
    using w(1) by (simp add: adjustWorkerCount_def Let_def assms(3) idle_rate workers_to_remove_idle
        workers_to_add_def wrap64_def)
  moreover have "wp_activeWorkers wp2 = wp_activeWorkers wp - ?k" using w(4) k by (auto simp: max_def)
  ultimately show ?thesis using w(2,3) remove_times_metrics [OF w(1)] by (simp add: pool_ok_fields)
qed

fun idle_op :: "pool_op \<Rightarrow> bool" where
  "idle_op (OpAdjust ord q _ _ _ _) \<longleftrightarrow> q = 0 \<and> range_ok ord"
| "idle_op _ \<longleftrightarrow> False"

text \<open>C26: an idle pool shrinks to its minimum. Once nothing is processed and the queue stays empty, as
  many checks as there are workers above the minimum bring the number down to it, at least one
  worker at each check and never below.\<close>

theorem idle_pool_shrinks:
  assumes "pool_ok wp" and "wp_totalProcessed wp = wp_lastProcessed wp"
    and "wp_minWorkers wp \<le> wp_activeWorkers wp"
    and "list_all idle_op ops" and "wp_activeWorkers wp - wp_minWorkers wp \<le> int (length ops)"
  shows "\<exists>wp'. pool_run wp ops = Some wp' \<and> wp_activeWorkers wp' = wp_minWorkers wp"
  using assms
proof (induction ops arbitrary: wp)
  case Nil
  then show ?case by (simp add: pool_run_def)
next
  case (Cons a ops)
  obtain ord c now clk now' where a: "a = OpAdjust ord 0 c now clk now'" "range_ok ord"
    using Cons.prems(4) by (cases a) auto
  let ?k = "if wp_minWorkers wp < wp_activeWorkers wp then idle_step (wp_activeWorkers wp - wp_minWorkers wp) else 0"
  obtain wp1 where w: "adjustWorkerCount ord 0 c now clk now' wp = Some wp1" "pool_ok wp1"
    "wp_minWorkers wp1 = wp_minWorkers wp" "wp_totalProcessed wp1 = wp_lastProcessed wp1"
    "wp_activeWorkers wp1 = wp_activeWorkers wp - ?k"
    using idle_adjust [OF Cons.prems(1) a(2) Cons.prems(2,3)] by blast
  have k: "0 \<le> ?k" "?k \<le> wp_activeWorkers wp - wp_minWorkers wp" "wp_minWorkers wp < wp_activeWorkers wp \<longrightarrow> 1 \<le> ?k"
    using Cons.prems(3) idle_step_bounds [of "wp_activeWorkers wp - wp_minWorkers wp"] by auto
  have "wp_minWorkers wp1 \<le> wp_activeWorkers wp1" unfolding w(3,5) using k(2) by linarith
  moreover have "wp_activeWorkers wp1 - wp_minWorkers wp1 \<le> int (length ops)"
    unfolding w(3,5) using k Cons.prems(3,5) by auto
  moreover have "list_all idle_op ops" using Cons.prems(4) by simp
  ultimately obtain wp' where "pool_run wp1 ops = Some wp'" "wp_activeWorkers wp' = wp_minWorkers wp"
    using Cons.IH [OF w(2,4)] w(3) by auto
  then show ?case using w(1) a(1) by (simp add: pool_run_def pool_step_def)
qed

lemma adjust_direction_arith:
  fixes q :: nat
  assumes "act = min M (a2 + int (nat A))" and "a2 = max m (a - int (nat k))" and "m \<le> a" "a \<le> M"
    and "q = 0 \<Longrightarrow> A = 0" and "0 < q \<Longrightarrow> k = (if r \<and> m < a then 1 else 0)"
    and "0 < q \<Longrightarrow> u \<Longrightarrow> a2 < M \<Longrightarrow> 1 \<le> A"
  shows "(q = 0 \<longrightarrow> act \<le> a) \<and> (0 < q \<and> u \<longrightarrow> a \<le> act \<and> (a < act \<or> a = M \<or> r))"
proof (cases "q = 0")
  case True
  have "a2 \<le> a" unfolding assms(2) using assms(3) by simp
  with True assms(5) show ?thesis unfolding assms(1) by simp
next
  case False
  then have q: "0 < q" by simp
  have a2: "a2 = (if r \<and> m < a then a - 1 else a)"
    unfolding assms(2) assms(6) [OF q] using assms(3) by auto
  have "a \<le> act \<and> (a < act \<or> a = M \<or> r)" if u
    unfolding assms(1) using a2 assms(4) assms(7) [OF q that] by (cases "a2 < M") (auto split: if_splits)
  with False show ?thesis by blast
qed

text \<open>a check moves the pool towards its load. It never adds a worker while the queue is empty; with
  the queue more than half full it never ends with fewer workers than it had, and ends with more
  unless the pool is at its maximum or the rate is low enough for the same check to have removed one.\<close>

theorem adjust_direction:
  assumes "pool_ok wp" and "range_ok ord" and "wp_minWorkers wp \<le> wp_activeWorkers wp"
    and "adjustWorkerCount ord q c now clk now' wp = Some wp'"
  shows "(q = 0 \<longrightarrow> wp_activeWorkers wp' \<le> wp_activeWorkers wp) \<and>
    (0 < q \<and> Fin 50 < utilization_pct q c \<longrightarrow> wp_activeWorkers wp \<le> wp_activeWorkers wp' \<and>
      (wp_activeWorkers wp < wp_activeWorkers wp' \<or> wp_activeWorkers wp = wp_maxWorkers wp \<or>
       processing_rate (wrap64 (wp_totalProcessed wp - wp_lastProcessed wp)) (time_sub now (wp_lastCheckTime wp))
         < f64_round (1 / 10)))"
proof -
  let ?rate = "processing_rate (wrap64 (wp_totalProcessed wp - wp_lastProcessed wp)) (time_sub now (wp_lastCheckTime wp))"
  let ?k = "workers_to_remove ?rate q (wp_activeWorkers wp) (wp_minWorkers wp)"
  let ?wp1 = "wp\<lparr>wp_lastProcessed := wp_totalProcessed wp\<rparr>"
  have ok: "pool_safe ?wp1" "pool_ok ?wp1" using assms(1) by (simp_all add: pool_ok_fields pool_ok_def)
  obtain wp2 where w: "remove_times (nat ?k) ord ?wp1 = Some wp2" "pool_ok wp2"
    "wp_minWorkers wp2 = wp_minWorkers wp" "wp_maxWorkers wp2 = wp_maxWorkers wp"
    "wp_activeWorkers wp2 = max (wp_minWorkers wp) (wp_activeWorkers wp - int (nat ?k))"
    using remove_times_keeps [OF ok(1) assms(2), of "nat ?k"] ok(2) assms(3) by auto
  let ?a = "workers_to_add ?rate q (utilization_pct q c) (wp_activeWorkers wp2) (wp_maxWorkers wp)"
  have le: "wp_activeWorkers wp2 \<le> wp_maxWorkers wp" using w(2,4) by (simp add: pool_ok_def)
  have "wp' = (add_times (nat ?a) clk wp2)\<lparr>wp_lastCheckTime := now'\<rparr>"
    using assms(4) w(1,4) by (simp add: adjustWorkerCount_def Let_def)
  then have act: "wp_activeWorkers wp' = min (wp_maxWorkers wp) (wp_activeWorkers wp2 + int (nat ?a))"
    using le w(4) by (simp add: add_times_active)
  have max: "wp_activeWorkers wp \<le> wp_maxWorkers wp" using assms(1) by (simp add: pool_ok_def)
  show ?thesis
  proof (rule adjust_direction_arith [OF act w(5) assms(3) max])
    show "?a = 0" if "q = 0" using that by (simp add: workers_to_add_def)
    show "?k = (if ?rate < f64_round (1 / 10) \<and> wp_minWorkers wp < wp_activeWorkers wp then 1 else 0)" if "0 < q"
      using that by (simp add: workers_to_remove_def)
    show "1 \<le> ?a" if "0 < q" "Fin 50 < utilization_pct q c" "wp_activeWorkers wp2 < wp_maxWorkers wp"
      using that by (simp add: workers_to_add_def Let_def go_min_def)
  qed
qed

end
