(* ===== verification/Http_Client.thy ===== *)
theory Http_Client
  imports Event_Model
begin

text \<open>
  \<open>internal/service/http_client.go\<close>: the delivery of an event to a URL, for real and simulated. The
  network is a parameter: \<open>post\<close> gives for a URL and a body the error of \<open>client.Post\<close>, or a response.
  The draws of \<open>math/rand\<close> are a parameter too: \<open>intn k n\<close> is the \<open>k\<close>-th draw, \<open>rand.Intn(n)\<close>.
\<close>

record http_response =
  rsp_StatusCode :: int
  rsp_chunks :: "string list"

type_synonym network = "string \<Rightarrow> json \<Rightarrow> http_response result"

text \<open>One \<open>Read\<close> into a buffer of the given size: at most the next chunk of the body.\<close>

definition body_read :: "nat \<Rightarrow> string list \<Rightarrow> string" where
  "body_read n chunks = (case chunks of [] \<Rightarrow> [] | c # cs \<Rightarrow> take n c)"

text \<open>The results are \<open>success\<close>, the response text, and the error, \<open>None\<close> for nil.\<close>

type_synonym delivery_result = "bool \<times> string \<times> goerr option"

definition statusCodes :: "int list" where
  "statusCodes = [400, 401, 403, 404, 422, 429, 500, 502, 503]"

definition errorMessages :: "(int, string) gomap" where
  "errorMessages = [
     (400, ''Bad request: invalid payload format''),
     (401, ''Unauthorized: invalid API key''),
     (403, ''Forbidden: insufficient permissions''),
     (404, ''Not found: endpoint doesn'' @ [CHR 0x27] @ ''t exist''),
     (422, ''Unprocessable entity: validation failed''),
     (429, ''Too many requests: rate limit exceeded''),
     (500, ''Internal server error''),
     (502, ''Bad gateway: upstream service error''),
     (503, ''Service unavailable: system is overloaded'')]"

definition errorTypes :: "string list" where
  "errorTypes = [''connection refused'', ''timeout exceeded'', ''no such host'', ''network unreachable'',
     ''TLS handshake failure'']"

text \<open>Draw 0 is the simulated delay, draw 1 the outcome, draw 2 the code or the kind of error.\<close>

definition mockDelivery :: "(nat \<Rightarrow> nat \<Rightarrow> nat) \<Rightarrow> string \<Rightarrow> webhook_event \<Rightarrow> delivery_result" where
  "mockDelivery intn url event = (let outcome = intn 1 10 in
     if outcome < 6
     then (True, ''{'' @ quoted ''success'' @ '':true,'' @ quoted ''message'' @ '':'' @ quoted ''Event processed successfully'' @
             '','' @ quoted ''event_id'' @ '':'' @ quoted (ev_ID event) @ ''}'', None)
     else if outcome < 9
     then (let statusCode = statusCodes ! intn 2 (length statusCodes);
               msg = (case map_of errorMessages statusCode of None \<Rightarrow> [] | Some m \<Rightarrow> m)
           in (False, ''{'' @ quoted ''error'' @ '':'' @ quoted msg @ '','' @ quoted ''status'' @ '':'' @ show_int statusCode @ ''}'', None))
     else (let errorMsg = errorTypes ! intn 2 (length errorTypes)
           in (False, [], Some (Errorf (''network error: '' @ errorMsg)))))"

text \<open>The client with its timeout, which the network parameter obeys, and the flag of the simulation.\<close>

record http_client_service =
  hc_timeout :: duration
  hc_mockEnabled :: bool

definition NewHTTPClientService :: "bool \<Rightarrow> http_client_service" where
  "NewHTTPClientService mockEnabled = \<lparr>hc_timeout = 10 * nano_second, hc_mockEnabled = mockEnabled\<rparr>"

definition DeliverWebhook ::
    "bool \<Rightarrow> network \<Rightarrow> (nat \<Rightarrow> nat \<Rightarrow> nat) \<Rightarrow> string \<Rightarrow> webhook_event \<Rightarrow> delivery_result" where
  "DeliverWebhook mockEnabled post intn url event =
     (if mockEnabled then mockDelivery intn url event
      else (case marshal_event event of
          Inl err \<Rightarrow> (False, [], Some err)
        | Inr payload \<Rightarrow> (case post url payload of
            Inl err \<Rightarrow> (False, [], Some err)
          | Inr resp \<Rightarrow>
              (let body = body_read 1024 (rsp_chunks resp);
                   success = rsp_StatusCode resp \<ge> 200 \<and> rsp_StatusCode resp < 300
               in (success, body, None)))))"

section \<open>What a delivery promises\<close>

text \<open>The documented bound of \<open>rand.Intn\<close>.\<close>

definition intn_ok :: "(nat \<Rightarrow> nat \<Rightarrow> nat) \<Rightarrow> bool" where
  "intn_ok intn \<longleftrightarrow> (\<forall>k n. 0 < n \<longrightarrow> intn k n < n)"

lemma body_read_length: "length (body_read n chunks) \<le> n"
  by (auto simp: body_read_def split: list.split)

lemma seq_members_Inl:
  "seq_members rs = Inr ms \<Longrightarrow> r \<in> set rs \<Longrightarrow> \<exists>x. r = Inr x"
proof (induction rs arbitrary: ms)
  case (Cons a rs)
  then show ?case by (cases a; cases "seq_members rs") auto
qed simp

lemma seq_members_total: "\<forall>r \<in> set rs. \<exists>x. r = Inr x \<Longrightarrow> \<exists>ms. seq_members rs = Inr ms"
  by (induction rs) force+

text \<open>An event can be posted exactly when every instant it carries has a text.\<close>

definition event_times :: "webhook_event \<Rightarrow> instant list" where
  "event_times e = [ev_EventTime e, sub_OptinTimestamp (ev_Subscriber e), sub_CreatedAt (ev_Subscriber e), ev_CreatedAt e] @
     concat (map (\<lambda>t. case t of None \<Rightarrow> [] | Some x \<Rightarrow> [x])
       [ev_LastAttemptAt e, ev_ProcessedAt e, ev_NextAttemptAt e, ev_ProcessingStartedAt e])"

lemma marshal_subscriber_iff:
  "(\<exists>j. marshal_subscriber s = Inr j) \<longleftrightarrow> time_has_text (sub_OptinTimestamp s) \<and> time_has_text (sub_CreatedAt s)"
  by (auto simp: marshal_subscriber_def marshal_time_def)

lemma opt_member_iff: "(\<exists>ms. opt_member k f v = Inr ms) \<longleftrightarrow> (\<forall>x. v = Some x \<longrightarrow> (\<exists>j. f x = Inr j))"
proof (cases v)
  case (Some x)
  then show ?thesis by (cases "f x") (simp_all add: opt_member_def)
qed (simp add: opt_member_def)

lemma marshal_time_iff: "(\<exists>j. marshal_time t = Inr j) \<longleftrightarrow> time_has_text t"
  by (simp add: marshal_time_def)

lemma marshal_event_iff: "(\<exists>j. marshal_event e = Inr j) \<longleftrightarrow> list_all time_has_text (event_times e)"
proof -
  have sum: "(\<exists>j. map_sum id JObj r = Inr j) \<longleftrightarrow> (\<exists>ms. r = Inr ms)" for r :: "(string \<times> json) list result"
    by (cases r) auto
  have seq: "(\<exists>ms. seq_members rs = Inr ms) \<longleftrightarrow> (\<forall>r \<in> set rs. \<exists>x. r = Inr x)" for rs
    using seq_members_Inl seq_members_total by metis
  have t: "time_has_text t" if "marshal_time t = Inr j" for t j
    using that marshal_time_iff by blast
  have opt: "list_all time_has_text (case v of None \<Rightarrow> [] | Some x \<Rightarrow> [x]) \<longleftrightarrow> (\<forall>x. v = Some x \<longrightarrow> time_has_text x)" for v
    by (cases v) simp_all
  show ?thesis
    unfolding marshal_event_def sum seq
    by (simp add: opt_member_iff marshal_time_iff marshal_subscriber_iff event_times_def opt conj_ac)
qed

text \<open>what a real delivery reports. An event is posted exactly when every instant in it has a JSON text;
  otherwise, and when the request fails, the delivery fails with that error and an empty response.
  When a response comes, there is no error, the delivery succeeds exactly for a status from 200 to 299,
  and the text kept of the body is at most 1024 bytes.\<close>

theorem deliver_contract:
  "(list_all time_has_text (event_times e) \<longleftrightarrow> (\<exists>j. marshal_event e = Inr j)) \<and>
   (case DeliverWebhook False post intn url e of (success, response, err) \<Rightarrow>
     length response \<le> 1024 \<and>
     (err = None \<longleftrightarrow> (\<exists>j rsp. marshal_event e = Inr j \<and> post url j = Inr rsp \<and>
        (success \<longleftrightarrow> 200 \<le> rsp_StatusCode rsp \<and> rsp_StatusCode rsp < 300))) \<and>
     (err \<noteq> None \<longrightarrow> \<not> success \<and> response = []))"
proof -
  have "case DeliverWebhook False post intn url e of (success, response, err) \<Rightarrow>
     length response \<le> 1024 \<and>
     (err = None \<longleftrightarrow> (\<exists>j rsp. marshal_event e = Inr j \<and> post url j = Inr rsp \<and>
        (success \<longleftrightarrow> 200 \<le> rsp_StatusCode rsp \<and> rsp_StatusCode rsp < 300))) \<and>
     (err \<noteq> None \<longrightarrow> \<not> success \<and> response = [])"
    using body_read_length by (auto simp: DeliverWebhook_def Let_def split: sum.split)
  then show ?thesis using marshal_event_iff by auto
qed

text \<open>the simulated delivery covers its cases. With draws in their documented range, six outcomes of ten
  succeed, three fail with a response whose status is one of the nine error codes and whose message is
  in the table, and one fails with an error and no response.\<close>

theorem mock_delivery_cases:
  assumes "intn_ok intn"
  shows "(intn 1 10 < 6 \<longrightarrow> fst (mockDelivery intn url e) \<and> snd (snd (mockDelivery intn url e)) = None) \<and>
    (6 \<le> intn 1 10 \<and> intn 1 10 < 9 \<longrightarrow> (\<exists>code \<in> set statusCodes. \<exists>msg. map_of errorMessages code = Some msg \<and>
       mockDelivery intn url e = (False, ''{'' @ quoted ''error'' @ '':'' @ quoted msg @ '','' @ quoted ''status'' @ '':'' @ show_int code @ ''}'', None))) \<and>
    (9 \<le> intn 1 10 \<longrightarrow> intn 1 10 = 9 \<and> (\<exists>kind \<in> set errorTypes.
       mockDelivery intn url e = (False, [], Some (Errorf (''network error: '' @ kind)))))"
proof -
  have r: "intn 1 10 < 10" "intn 2 (length statusCodes) < length statusCodes" "intn 2 (length errorTypes) < length errorTypes"
    using assms by (auto simp: intn_ok_def statusCodes_def errorTypes_def)
  let ?code = "statusCodes ! intn 2 (length statusCodes)"
  have c: "?code \<in> set statusCodes" using r(2) by simp
  moreover have "\<forall>code \<in> set statusCodes. \<exists>msg. map_of errorMessages code = Some msg"
    by (simp add: statusCodes_def errorMessages_def)
  ultimately obtain msg where m: "map_of errorMessages ?code = Some msg" by blast
  have "intn 1 10 < 6 \<longrightarrow> fst (mockDelivery intn url e) \<and> snd (snd (mockDelivery intn url e)) = None"
    by (simp add: mockDelivery_def)
  moreover have "6 \<le> intn 1 10 \<and> intn 1 10 < 9 \<longrightarrow> mockDelivery intn url e =
      (False, ''{'' @ quoted ''error'' @ '':'' @ quoted msg @ '','' @ quoted ''status'' @ '':'' @ show_int ?code @ ''}'', None)"
    using m by (simp add: mockDelivery_def Let_def)
  moreover have "9 \<le> intn 1 10 \<longrightarrow> intn 1 10 = 9 \<and> mockDelivery intn url e =
      (False, [], Some (Errorf (''network error: '' @ errorTypes ! intn 2 (length errorTypes))))"
    using r(1) by (simp add: mockDelivery_def Let_def)
  ultimately show ?thesis using c m nth_mem [OF r(3)] by blast
qed

lemma mock_delivery_cases_witness:
  "snd (mockDelivery (\<lambda>k n. n - 1) ''u'' zero_event) = ([], Some (Errorf ''network error: TLS handshake failure''))"
proof -
  have "intn_ok (\<lambda>k n. n - 1)" by (simp add: intn_ok_def)
  from mock_delivery_cases [OF this, of "''u''" zero_event] show ?thesis
    by (simp add: mockDelivery_def errorTypes_def)
qed

end
