(* ===== verification/Config.thy ===== *)
theory Config
  imports Float64
begin

text \<open>
  \<open>internal/config/config.go\<close>: the configuration, its defaults, and the environment variables that
  override them, with the standard library's parsers the file calls. \<open>getenv\<close> is the environment, in
  which a variable that is not set is empty.
\<close>

section \<open>Parsing\<close>

definition is_digit :: "char \<Rightarrow> bool" where
  "is_digit c \<longleftrightarrow> (48::nat) \<le> of_char c \<and> of_char c \<le> (57::nat)"

definition digit_val :: "char \<Rightarrow> int" where
  "digit_val c = int (of_char c) - 48"

definition read_int :: "string \<Rightarrow> int" where
  "read_int s = foldl (\<lambda>n c. n * 10 + digit_val c) 0 s"

text \<open>\<open>strconv.Atoi\<close>: an optional sign and decimal digits, within \<open>int64\<close>.\<close>

definition atoi_unsigned :: "string \<Rightarrow> int option" where
  "atoi_unsigned s = (if s \<noteq> [] \<and> list_all is_digit s then Some (read_int s) else None)"

definition atoi :: "string \<Rightarrow> int option" where
  "atoi s = (case (case s of
       [] \<Rightarrow> None
     | c # cs \<Rightarrow> if c = CHR ''-'' then map_option uminus (atoi_unsigned cs)
                else if c = CHR ''+'' then atoi_unsigned cs
                else atoi_unsigned s) of
     None \<Rightarrow> None
   | Some i \<Rightarrow> if min_int64 \<le> i \<and> i \<le> max_int64 then Some i else None)"

text \<open>\<open>strconv.ParseBool\<close>\<close>

definition parse_bool :: "string \<Rightarrow> bool option" where
  "parse_bool s =
     (if s \<in> {''1'', ''t'', ''T'', ''true'', ''TRUE'', ''True''} then Some True
      else if s \<in> {''0'', ''f'', ''F'', ''false'', ''FALSE'', ''False''} then Some False
      else None)"

text \<open>
  \<open>time.ParseDuration\<close>. \<open>leading_int\<close> reads digits up to \<open>2 ^ 63\<close>, \<open>leading_fraction\<close> drops the digits
  that no longer fit and keeps the scale as a \<open>float64\<close>.
\<close>

fun leading_int :: "int \<Rightarrow> string \<Rightarrow> (int \<times> string) option" where
  "leading_int x [] = Some (x, [])"
| "leading_int x (c # cs) =
     (if \<not> is_digit c then Some (x, c # cs)
      else if x > 2 ^ 63 div 10 then None
      else (let y = x * 10 + digit_val c in if y > 2 ^ 63 then None else leading_int y cs))"

fun leading_fraction :: "int \<Rightarrow> float64 \<Rightarrow> bool \<Rightarrow> string \<Rightarrow> int \<times> float64 \<times> string" where
  "leading_fraction x scale overflow [] = (x, scale, [])"
| "leading_fraction x scale overflow (c # cs) =
     (if \<not> is_digit c then (x, scale, c # cs)
      else if overflow then leading_fraction x scale True cs
      else if x > (2 ^ 63 - 1) div 10 then leading_fraction x scale True cs
      else (let y = x * 10 + digit_val c in
        if y > 2 ^ 63 then leading_fraction x scale True cs
        else leading_fraction y (f64_mul scale (Fin 10)) False cs))"

definition unit_map :: "string \<Rightarrow> int option" where
  "unit_map u =
     (if u = ''ns'' then Some 1
      else if u = ''us'' \<or> u = [CHR 0xC2, CHR 0xB5, CHR ''s''] \<or> u = [CHR 0xCE, CHR 0xBC, CHR ''s''] then Some 1000
      else if u = ''ms'' then Some 1000000
      else if u = ''s'' then Some 1000000000
      else if u = ''m'' then Some 60000000000
      else if u = ''h'' then Some 3600000000000
      else None)"

definition starts_number :: "char \<Rightarrow> bool" where
  "starts_number c \<longleftrightarrow> c = CHR ''.'' \<or> is_digit c"

text \<open>
  One round of the loop: a whole part, a fraction, and a unit, in nanoseconds, and what is left of the
  text.
\<close>

definition fraction_part :: "string \<Rightarrow> int \<times> float64 \<times> string \<times> bool" where
  "fraction_part s1 =
     (if s1 \<noteq> [] \<and> hd s1 = CHR ''.''
      then (case leading_fraction 0 (Fin 1) False (tl s1) of (f, scale, s2) \<Rightarrow>
              (f, scale, s2, length s2 \<noteq> length (tl s1)))
      else (0, Fin 1, s1, False))"

definition scaled_part :: "int \<Rightarrow> int \<Rightarrow> float64 \<Rightarrow> int \<Rightarrow> int option" where
  "scaled_part v f scale unit =
     (if v > 2 ^ 63 div unit then None
      else (let v1 = v * unit;
                v2 = (if f > 0
                      then v1 + f64_to_int64 (\<lambda>_. 0) (f64_mul (f64_of_int f) (f64_div (f64_of_int unit) scale))
                      else v1)
            in if v2 > 2 ^ 63 then None else Some v2))"

definition duration_part :: "string \<Rightarrow> (int \<times> string) option" where
  "duration_part s =
     (if s = [] \<or> \<not> starts_number (hd s) then None
      else (case leading_int 0 s of None \<Rightarrow> None | Some (v, s1) \<Rightarrow>
       (case fraction_part s1 of (f, scale, s2, post) \<Rightarrow>
         (let pre = length s1 \<noteq> length s;
              u = takeWhile (\<lambda>c. \<not> starts_number c) s2;
              rest = dropWhile (\<lambda>c. \<not> starts_number c) s2
          in if \<not> pre \<and> \<not> post then None
             else if u = [] then None
             else Option.bind (unit_map u) (\<lambda>unit. map_option (\<lambda>n. (n, rest)) (scaled_part v f scale unit))))))"

text \<open>
  Each round shortens the text, so its length is enough fuel. The sum is a \<open>uint64\<close>.
\<close>

fun duration_parts :: "nat \<Rightarrow> int \<Rightarrow> string \<Rightarrow> int option" where
  "duration_parts fuel d [] = Some d"
| "duration_parts 0 d (c # cs) = None"
| "duration_parts (Suc fuel) d (c # cs) = (case duration_part (c # cs) of
     None \<Rightarrow> None
   | Some (v, rest) \<Rightarrow> (let d' = (d + v) mod 2 ^ 64 in
       if d' > 2 ^ 63 then None else duration_parts fuel d' rest))"

definition parse_duration :: "string \<Rightarrow> duration option" where
  "parse_duration orig =
     (let neg = (orig \<noteq> [] \<and> hd orig = CHR ''-'');
          s = (if orig \<noteq> [] \<and> (hd orig = CHR ''-'' \<or> hd orig = CHR ''+'') then tl orig else orig)
      in if s = ''0'' then Some 0
         else if s = [] then None
         else (case duration_parts (length s) 0 s of
             None \<Rightarrow> None
           | Some d \<Rightarrow> if neg then Some (- d) else if d > 2 ^ 63 - 1 then None else Some d))"

section \<open>The configuration\<close>

record config =
  cfg_Port :: int
  cfg_MockEnabled :: bool
  cfg_DBHost :: string
  cfg_DBPort :: string
  cfg_DBName :: string
  cfg_DBUser :: string
  cfg_DBPassword :: string
  cfg_DBSchema :: string
  cfg_DBMaxOpenConns :: int
  cfg_DBMaxIdleConns :: int
  cfg_DBConnMaxLifetime :: duration
  cfg_DBConnMaxIdleTime :: duration
  cfg_BackupPollingInterval :: duration
  cfg_MaxEventsPerPoll :: int
  cfg_RetryCheckInterval :: duration
  cfg_MinWorkers :: int
  cfg_MaxWorkers :: int
  cfg_QueueBufferSize :: int
  cfg_MinRequestWorkers :: int
  cfg_MaxRequestWorkers :: int
  cfg_RequestBufferSize :: int
  cfg_ShutdownTimeout :: duration
  cfg_InitialDelay :: duration
  cfg_MaxDelay :: duration
  cfg_MaxRetries :: int

definition default_config :: config where
  "default_config = \<lparr>cfg_Port = 8080, cfg_MockEnabled = False, cfg_DBHost = [], cfg_DBPort = [],
     cfg_DBName = [], cfg_DBUser = [], cfg_DBPassword = [], cfg_DBSchema = [],
     cfg_DBMaxOpenConns = 0, cfg_DBMaxIdleConns = 0, cfg_DBConnMaxLifetime = 0, cfg_DBConnMaxIdleTime = 0,
     cfg_BackupPollingInterval = 15 * nano_minute, cfg_MaxEventsPerPoll = 100,
     cfg_RetryCheckInterval = 30 * nano_second,
     cfg_MinWorkers = 5, cfg_MaxWorkers = 20, cfg_QueueBufferSize = 1000,
     cfg_MinRequestWorkers = 5, cfg_MaxRequestWorkers = 20, cfg_RequestBufferSize = 1000,
     cfg_ShutdownTimeout = 30 * nano_second, cfg_InitialDelay = 1 * nano_second,
     cfg_MaxDelay = 1 * nano_minute, cfg_MaxRetries = 5\<rparr>"

text \<open>
  A variable that is not set, or whose text does not parse, leaves the value; a text variable that is
  not set takes the default given here.
\<close>

definition override :: "(string \<Rightarrow> 'a option) \<Rightarrow> string \<Rightarrow> 'a \<Rightarrow> 'a" where
  "override parse v old = (if v \<noteq> [] then (case parse v of Some x \<Rightarrow> x | None \<Rightarrow> old) else old)"

definition env_or :: "string \<Rightarrow> string \<Rightarrow> string" where
  "env_or v dflt = (if v \<noteq> [] then v else dflt)"

definition New_config :: "(string \<Rightarrow> string) \<Rightarrow> config" where
  "New_config getenv = (let c = default_config in c\<lparr>
     cfg_Port := override atoi (getenv ''PORT'') (cfg_Port c),
     cfg_DBHost := env_or (getenv ''WS_DB_HOST'') ''localhost'',
     cfg_DBPort := env_or (getenv ''WS_DB_PORT'') ''5432'',
     cfg_DBName := env_or (getenv ''WS_DB_DATABASE'') ''webhook_service'',
     cfg_DBUser := env_or (getenv ''WS_DB_USERNAME'') ''admin'',
     cfg_DBPassword := env_or (getenv ''WS_DB_PASSWORD'') ''password1234'',
     cfg_DBSchema := env_or (getenv ''WS_DB_SCHEMA'') ''public'',
     cfg_DBMaxOpenConns := override atoi (getenv ''WS_DB_MAX_OPEN_CONNS'') (cfg_DBMaxOpenConns c),
     cfg_DBMaxIdleConns := override atoi (getenv ''WS_DB_MAX_IDLE_CONNS'') (cfg_DBMaxIdleConns c),
     cfg_DBConnMaxLifetime := override parse_duration (getenv ''WS_DB_CONN_MAX_LIFETIME'') (cfg_DBConnMaxLifetime c),
     cfg_DBConnMaxIdleTime := override parse_duration (getenv ''WS_DB_CONN_MAX_IDLE_TIME'') (cfg_DBConnMaxIdleTime c),
     cfg_MinWorkers := override atoi (getenv ''MIN_WORKERS'') (cfg_MinWorkers c),
     cfg_MaxWorkers := override atoi (getenv ''MAX_WORKERS'') (cfg_MaxWorkers c),
     cfg_MinRequestWorkers := override atoi (getenv ''MIN_REQUEST_WORKERS'') (cfg_MinRequestWorkers c),
     cfg_MaxRequestWorkers := override atoi (getenv ''MAX_REQUEST_WORKERS'') (cfg_MaxRequestWorkers c),
     cfg_RequestBufferSize := override atoi (getenv ''REQUEST_BUFFER_SIZE'') (cfg_RequestBufferSize c),
     cfg_QueueBufferSize := override atoi (getenv ''QUEUE_BUFFER_SIZE'') (cfg_QueueBufferSize c),
     cfg_ShutdownTimeout := override parse_duration (getenv ''SHUTDOWN_TIMEOUT'') (cfg_ShutdownTimeout c),
     cfg_InitialDelay := override parse_duration (getenv ''INITIAL_DELAY'') (cfg_InitialDelay c),
     cfg_MaxDelay := override parse_duration (getenv ''MAX_DELAY'') (cfg_MaxDelay c),
     cfg_MaxRetries := override atoi (getenv ''MAX_RETRIES'') (cfg_MaxRetries c),
     cfg_BackupPollingInterval := override parse_duration (getenv ''BACKUP_POLLING_INTERVAL'') (cfg_BackupPollingInterval c),
     cfg_MaxEventsPerPoll := override atoi (getenv ''MAX_EVENTS_PER_POLL'') (cfg_MaxEventsPerPoll c),
     cfg_RetryCheckInterval := override parse_duration (getenv ''RETRY_CHECK_INTERVAL'') (cfg_RetryCheckInterval c),
     cfg_MockEnabled := override parse_bool (getenv ''MOCK_ENABLED'') (cfg_MockEnabled c)\<rparr>)"

definition GetDSN :: "config \<Rightarrow> string" where
  "GetDSN c = ''postgres://'' @ cfg_DBUser c @ '':'' @ cfg_DBPassword c @ ''@'' @ cfg_DBHost c @ '':'' @
     cfg_DBPort c @ ''/'' @ cfg_DBName c @ ''?sslmode=disable&search_path='' @ cfg_DBSchema c"

section \<open>What the parsers do\<close>

lemma is_digit_char_of: "n < 10 \<Longrightarrow> is_digit (char_of (48 + n))" for n :: nat
  by (simp add: is_digit_def)

lemma show_nat_digits: "list_all is_digit (show_nat n)"
proof (induction n rule: show_nat.induct)
  case (1 n)
  then show ?case by (subst show_nat.simps) (simp add: is_digit_char_of)
qed

lemma read_int_append: "read_int (s @ t) = foldl (\<lambda>n c. n * 10 + digit_val c) (read_int s) t"
  by (simp add: read_int_def)

lemma digit_val_char_of: "n < 10 \<Longrightarrow> digit_val (char_of (48 + n)) = int n" for n :: nat
  by (simp add: digit_val_def)

lemma digit_val_bounds: "is_digit c \<Longrightarrow> 0 \<le> digit_val c \<and> digit_val c \<le> 9"
  by (simp add: is_digit_def digit_val_def)

lemma read_show: "read_int (show_nat n) = int n"
proof (induction n rule: show_nat.induct)
  case (1 n)
  show ?case
  proof (cases "n < 10")
    case True
    then show ?thesis by (subst show_nat.simps) (simp add: read_int_def digit_val_char_of)
  next
    case False
    then have "read_int (show_nat n) = read_int (show_nat (n div 10)) * 10 + int (n mod 10)"
      by (subst show_nat.simps) (simp add: read_int_append digit_val_char_of)
    moreover have "int (n div 10) * 10 + int (n mod 10) = int n" by presburger
    ultimately show ?thesis using 1 [OF False] by simp
  qed
qed

lemma show_nat_not_sign: "hd (show_nat n) \<noteq> CHR ''-''" "hd (show_nat n) \<noteq> CHR ''+''"
  using show_nat_digits [of n] show_nat_nonempty [of n] by (cases "show_nat n"; auto simp: is_digit_def)+

text \<open>\<open>strconv.Atoi\<close> of the decimal text of a number.\<close>

lemma atoi_show_int:
  "atoi (show_int i) = (if min_int64 \<le> i \<and> i \<le> max_int64 then Some i else None)"
proof (cases "i < 0")
  case True
  have "atoi_unsigned (show_nat (nat (- i))) = Some (- i)"
    using True by (simp add: atoi_unsigned_def show_nat_nonempty show_nat_digits read_show)
  with True show ?thesis by (simp add: atoi_def show_int_def)
next
  case False
  obtain c cs where c: "show_nat (nat i) = c # cs" using show_nat_nonempty by (cases "show_nat (nat i)") auto
  have "atoi_unsigned (c # cs) = Some i"
    using False c [symmetric] by (simp add: atoi_unsigned_def show_nat_nonempty show_nat_digits read_show)
  moreover have "c \<noteq> CHR ''-''" "c \<noteq> CHR ''+''" using show_nat_not_sign [of "nat i"] c by simp_all
  ultimately show ?thesis using False c by (simp add: atoi_def show_int_def)
qed

lemma foldl_digits_ge:
  "list_all is_digit ds \<Longrightarrow> 0 \<le> x \<Longrightarrow> x \<le> foldl (\<lambda>n c. n * 10 + digit_val c) x ds"
proof (induction ds arbitrary: x)
  case (Cons c ds)
  have "0 \<le> digit_val c" using Cons.prems(1) digit_val_bounds by simp
  then have "x \<le> x * 10 + digit_val c" using Cons.prems(2) by linarith
  also have "\<dots> \<le> foldl (\<lambda>n c. n * 10 + digit_val c) (x * 10 + digit_val c) ds"
    using Cons.prems \<open>0 \<le> digit_val c\<close> by (intro Cons.IH) auto
  finally show ?case by simp
qed simp

lemma leading_int_digits:
  assumes "list_all is_digit ds" and "rest = [] \<or> \<not> is_digit (hd rest)" and "0 \<le> x"
    and "foldl (\<lambda>n c. n * 10 + digit_val c) x ds \<le> 2 ^ 63"
  shows "leading_int x (ds @ rest) = Some (foldl (\<lambda>n c. n * 10 + digit_val c) x ds, rest)"
  using assms
proof (induction ds arbitrary: x)
  case Nil
  then show ?case by (cases rest) auto
next
  case (Cons c ds)
  let ?y = "x * 10 + digit_val c"
  have d: "is_digit c" "0 \<le> digit_val c" using Cons.prems(1) digit_val_bounds by simp_all
  have y: "?y \<le> 2 ^ 63"
    using foldl_digits_ge [of ds ?y] Cons.prems d(2) by simp
  then have "\<not> x > 2 ^ 63 div 10" using d(2) by simp
  moreover have "leading_int ?y (ds @ rest) = Some (foldl (\<lambda>n c. n * 10 + digit_val c) ?y ds, rest)"
    using Cons.prems d(2) by (intro Cons.IH) simp_all
  ultimately show ?case using d(1) y by (simp add: Let_def)
qed

definition unit_texts :: "string list" where
  "unit_texts = [''ns'', ''us'', ''ms'', ''s'', ''m'', ''h'']"

lemma unit_text:
  assumes "u \<in> set unit_texts"
  shows "u \<noteq> []" "list_all (\<lambda>c. \<not> starts_number c) u" "\<exists>n. unit_map u = Some n \<and> 0 < n"
  using assms by (auto simp: unit_texts_def starts_number_def is_digit_def unit_map_def)

lemma duration_part_whole:
  assumes "starts_number e" and "leading_int 0 (e # es) = Some (v, u)" and "u \<noteq> []" "hd u \<noteq> CHR ''.''"
    and "length u \<noteq> length (e # es)" and "list_all (\<lambda>c. \<not> starts_number c) u"
    and "unit_map u = Some unit" and "v \<le> 2 ^ 63 div unit" and "v * unit \<le> 2 ^ 63"
  shows "duration_part (e # es) = Some (v * unit, [])"
proof -
  have "takeWhile (\<lambda>c. \<not> starts_number c) u = u" "dropWhile (\<lambda>c. \<not> starts_number c) u = []"
    using assms(6) by (simp_all add: takeWhile_eq_all_conv dropWhile_eq_Nil_conv list_all_iff)
  moreover have "scaled_part v 0 (Fin 1) unit = Some (v * unit)" using assms(8,9) by (simp add: scaled_part_def)
  moreover have "fraction_part u = (0, Fin 1, u, False)" using assms(4) by (simp add: fraction_part_def)
  ultimately show ?thesis
    using assms by (simp add: duration_part_def Let_def del: leading_int.simps length_Cons
        takeWhile_eq_all_conv dropWhile_eq_Nil_conv)
qed

lemma parse_whole_duration:
  assumes u: "u \<in> set unit_texts" "unit_map u = Some unit" and le: "int n * unit \<le> max_int64"
  shows "parse_duration (show_nat n @ u) = Some (int n * unit) \<and>
    parse_duration (CHR ''-'' # show_nat n @ u) = Some (- (int n * unit))"
proof -
  let ?s = "show_nat n @ u"
  note ut = unit_text [OF u(1)]
  have pos: "0 < unit" using ut(3) u(2) by auto
  have "int n * 1 \<le> int n * unit" using pos by (intro mult_left_mono) auto
  then have n: "int n \<le> 2 ^ 63" using le by (simp add: max_int64_def)
  obtain c cs where u': "u = c # cs" "\<not> starts_number c" using ut(1,2) by (cases u) auto
  have li: "leading_int 0 ?s = Some (int n, u)"
    using leading_int_digits [OF show_nat_digits, of u 0 n] u' n read_show [of n]
    by (simp add: read_int_def starts_number_def)
  obtain e es where s: "?s = e # es" "show_nat n \<noteq> []" using show_nat_nonempty [of n] by (cases "show_nat n") auto
  have e: "is_digit e" "e \<noteq> CHR ''-''" "e \<noteq> CHR ''+''"
    using s show_nat_digits [of n] show_nat_not_sign [of n] by (cases "show_nat n"; auto)+
  have "int n * unit div unit \<le> 2 ^ 63 div unit"
    using le pos by (intro zdiv_mono1) (simp_all add: max_int64_def)
  then have "int n \<le> 2 ^ 63 div unit" using pos by simp
  moreover have "int n * unit \<le> 2 ^ 63" using le by (simp add: max_int64_def)
  moreover have "length u \<noteq> length (e # es)" using arg_cong [OF s(1), of length] s(2) by (cases "show_nat n") auto
  ultimately have part: "duration_part ?s = Some (int n * unit, [])"
    unfolding s(1) using li [unfolded s(1)] u' e(1) u(2) ut(1,2)
    by (intro duration_part_whole) (simp_all add: starts_number_def)
  have "0 \<le> int n * unit" using pos by simp
  then have parts: "duration_parts (length ?s) 0 ?s = Some (int n * unit)"
    using part le unfolding s(1) by (simp add: Let_def max_int64_def)
  have "?s \<noteq> ''0''" using u' by (auto simp: Cons_eq_append_conv starts_number_def is_digit_def append_eq_Cons_conv)
  then have "e # es \<noteq> ''0''" unfolding s(1) .
  with parts e le show ?thesis
    unfolding s(1) by (auto simp: parse_duration_def Let_def max_int64_def simp del: duration_parts.simps)
qed

text \<open>a duration reads as written. A whole number followed by one of the units parses to that many
  units in nanoseconds whenever the result fits into a \<open>Duration\<close>, and with a minus sign to its negation.\<close>

theorem parse_duration_units:
  assumes "u \<in> set unit_texts" and "unit_map u = Some unit" and "int n * unit \<le> max_int64"
  shows "parse_duration (show_nat n @ u) = Some (int n * unit) \<and>
    parse_duration (CHR ''-'' # show_nat n @ u) = Some (- (int n * unit))"
  using parse_whole_duration [OF assms] .

lemma parse_duration_units_witness:
  "parse_duration ''90m'' = Some 5400000000000 \<and> parse_duration ''-90m'' = Some (- 5400000000000)"
proof -
  have e: "''90m'' = show_nat 90 @ ''m''" by code_simp
  show ?thesis
    unfolding e using parse_duration_units [of "''m''" 60000000000 90] by (simp add: unit_texts_def unit_map_def max_int64_def)
qed

text \<open>The fuel of the loop over the parts is enough: more of it changes nothing.\<close>

lemma leading_int_shortens: "leading_int x s = Some (v, rest) \<Longrightarrow> length rest \<le> length s"
  by (induction x s rule: leading_int.induct) (auto simp: Let_def split: if_splits)

lemma leading_fraction_shortens: "leading_fraction x sc b s = (f, sc', rest) \<Longrightarrow> length rest \<le> length s"
  by (induction x sc b s rule: leading_fraction.induct) (auto simp: Let_def split: if_splits)

lemma dropWhile_shortens: "takeWhile P s \<noteq> [] \<Longrightarrow> length (dropWhile P s) < length s"
  by (cases s) (auto simp: less_Suc_eq_le length_dropWhile_le split: if_splits)

lemma fraction_part_shortens: "fraction_part s1 = (f, sc, s2, b) \<Longrightarrow> length s2 \<le> length s1"
  using leading_fraction_shortens [of 0 "Fin 1" False "tl s1"]
  by (auto simp: fraction_part_def split: if_splits prod.splits intro: order_trans [of _ "length (tl s1)"])

lemma duration_part_shortens:
  assumes "duration_part s = Some (v, rest)"
  shows "length rest < length s"
proof -
  obtain w s1 where li: "leading_int 0 s = Some (w, s1)"
    using assms by (auto simp: duration_part_def split: if_splits option.splits)
  obtain f sc s2 b where p: "fraction_part s1 = (f, sc, s2, b)" by (metis prod.collapse)
  have "rest = dropWhile (\<lambda>c. \<not> starts_number c) s2 \<and> takeWhile (\<lambda>c. \<not> starts_number c) s2 \<noteq> []"
    using assms li p
    by (auto simp: duration_part_def Let_def bind_eq_Some_conv simp del: takeWhile_eq_Nil_iff split: if_splits)
  then show ?thesis
    using dropWhile_shortens [of "\<lambda>c. \<not> starts_number c" s2] leading_int_shortens [OF li]
      fraction_part_shortens [OF p] by (metis le_trans less_le_trans)
qed

text \<open>the loop of \<open>ParseDuration\<close> ends by itself. Each round shortens the text, so the fuel
  \<open>parse_duration\<close> gives it, the length of the text, is enough: no larger fuel changes the result.\<close>

theorem duration_fuel_enough:
  assumes "length s \<le> n"
  shows "duration_parts n d s = duration_parts (length s) d s"
  using assms
proof (induction "length s" arbitrary: n d s rule: less_induct)
  case less
  show ?case
  proof (cases s)
    case (Cons c cs)
    then obtain m where n: "n = Suc m" "length cs \<le> m" using less.prems by (cases n) auto
    show ?thesis
    proof (cases "duration_part s")
      case (Some x)
      then obtain v rest where x: "duration_part s = Some (v, rest)" by force
      have r: "length rest < length s" by (rule duration_part_shortens [OF x])
      then have "duration_parts m e rest = duration_parts (length cs) e rest" for e
        using less.hyps [OF r, of m e] less.hyps [OF r, of "length cs" e] n(2) Cons by simp
      then show ?thesis using x Cons n(1) by (simp add: Let_def)
    qed (simp add: Cons n)
  qed simp
qed

lemma duration_fuel_enough_witness: "duration_parts 9 0 ''1h30m'' = Some 5400000000000"
proof -
  have "duration_parts 9 0 ''1h30m'' = duration_parts (length ''1h30m'') 0 ''1h30m''"
    by (rule duration_fuel_enough) simp
  also have "\<dots> = Some 5400000000000" by code_simp
  finally show ?thesis .
qed

section \<open>Every setting reaches the configuration\<close>

text \<open>An environment that spells out a configuration.\<close>

definition show_duration :: "duration \<Rightarrow> string" where
  "show_duration d = (if d < 0 then CHR ''-'' # show_nat (nat (- d)) @ ''ns'' else show_nat (nat d) @ ''ns'')"

definition environment_of :: "config \<Rightarrow> (string \<times> string) list" where
  "environment_of c = [
     (''PORT'', show_int (cfg_Port c)),
     (''MOCK_ENABLED'', if cfg_MockEnabled c then ''true'' else ''false''),
     (''WS_DB_HOST'', cfg_DBHost c), (''WS_DB_PORT'', cfg_DBPort c), (''WS_DB_DATABASE'', cfg_DBName c),
     (''WS_DB_USERNAME'', cfg_DBUser c), (''WS_DB_PASSWORD'', cfg_DBPassword c), (''WS_DB_SCHEMA'', cfg_DBSchema c),
     (''WS_DB_MAX_OPEN_CONNS'', show_int (cfg_DBMaxOpenConns c)),
     (''WS_DB_MAX_IDLE_CONNS'', show_int (cfg_DBMaxIdleConns c)),
     (''WS_DB_CONN_MAX_LIFETIME'', show_duration (cfg_DBConnMaxLifetime c)),
     (''WS_DB_CONN_MAX_IDLE_TIME'', show_duration (cfg_DBConnMaxIdleTime c)),
     (''BACKUP_POLLING_INTERVAL'', show_duration (cfg_BackupPollingInterval c)),
     (''MAX_EVENTS_PER_POLL'', show_int (cfg_MaxEventsPerPoll c)),
     (''RETRY_CHECK_INTERVAL'', show_duration (cfg_RetryCheckInterval c)),
     (''MIN_WORKERS'', show_int (cfg_MinWorkers c)), (''MAX_WORKERS'', show_int (cfg_MaxWorkers c)),
     (''QUEUE_BUFFER_SIZE'', show_int (cfg_QueueBufferSize c)),
     (''MIN_REQUEST_WORKERS'', show_int (cfg_MinRequestWorkers c)),
     (''MAX_REQUEST_WORKERS'', show_int (cfg_MaxRequestWorkers c)),
     (''REQUEST_BUFFER_SIZE'', show_int (cfg_RequestBufferSize c)),
     (''SHUTDOWN_TIMEOUT'', show_duration (cfg_ShutdownTimeout c)),
     (''INITIAL_DELAY'', show_duration (cfg_InitialDelay c)), (''MAX_DELAY'', show_duration (cfg_MaxDelay c)),
     (''MAX_RETRIES'', show_int (cfg_MaxRetries c))]"

definition getenv_of :: "(string \<times> string) list \<Rightarrow> string \<Rightarrow> string" where
  "getenv_of env v = (case map_of env v of None \<Rightarrow> [] | Some s \<Rightarrow> s)"

definition int64_ok :: "int \<Rightarrow> bool" where
  "int64_ok i \<longleftrightarrow> min_int64 \<le> i \<and> i \<le> max_int64"

definition duration_ok :: "duration \<Rightarrow> bool" where
  "duration_ok d \<longleftrightarrow> - max_int64 \<le> d \<and> d \<le> max_int64"

definition config_ok :: "config \<Rightarrow> bool" where
  "config_ok c \<longleftrightarrow> list_all (\<lambda>s. s \<noteq> []) [cfg_DBHost c, cfg_DBPort c, cfg_DBName c, cfg_DBUser c, cfg_DBPassword c, cfg_DBSchema c] \<and>
     list_all int64_ok [cfg_Port c, cfg_DBMaxOpenConns c, cfg_DBMaxIdleConns c, cfg_MaxEventsPerPoll c, cfg_MinWorkers c,
       cfg_MaxWorkers c, cfg_QueueBufferSize c, cfg_MinRequestWorkers c, cfg_MaxRequestWorkers c, cfg_RequestBufferSize c, cfg_MaxRetries c] \<and>
     list_all duration_ok [cfg_DBConnMaxLifetime c, cfg_DBConnMaxIdleTime c, cfg_BackupPollingInterval c,
       cfg_RetryCheckInterval c, cfg_ShutdownTimeout c, cfg_InitialDelay c, cfg_MaxDelay c]"

lemma show_int_nonempty: "show_int i \<noteq> []"
  by (simp add: show_int_def show_nat_nonempty)

lemma override_int: "int64_ok i \<Longrightarrow> override atoi (show_int i) old = i"
  by (simp add: override_def atoi_show_int int64_ok_def show_int_nonempty)

lemma override_duration:
  assumes "duration_ok d"
  shows "override parse_duration (show_duration d) old = d"
proof -
  have "parse_duration (show_duration d) = Some d"
    using assms parse_whole_duration [of "''ns''" 1 "nat \<bar>d\<bar>"]
    by (cases "d < 0") (simp_all add: show_duration_def duration_ok_def unit_texts_def unit_map_def)
  moreover have "show_duration d \<noteq> []" by (simp add: show_duration_def)
  ultimately show ?thesis by (simp add: override_def)
qed

lemma override_bool: "override parse_bool (if b then ''true'' else ''false'') old = b"
  by (simp add: override_def parse_bool_def)

lemma getenv_hit: "getenv_of ((k, s) # env) k = s"
  by (simp add: getenv_of_def)

lemma getenv_miss: "k \<noteq> v \<Longrightarrow> getenv_of ((k, s) # env) v = getenv_of env v"
  by (simp add: getenv_of_def)

text \<open>C35: every setting can be set. For any configuration whose texts are not empty and whose numbers fit,
  the environment that spells it out makes \<open>New\<close> return exactly that configuration.\<close>

theorem config_round_trip:
  assumes "config_ok c"
  shows "New_config (getenv_of (environment_of c)) = c"
  using assms unfolding New_config_def Let_def environment_of_def
  by (simp add: getenv_hit getenv_miss config_ok_def override_int override_duration override_bool env_or_def)

lemma config_round_trip_witness:
  "(let c = New_config (\<lambda>_. []) in New_config (getenv_of (environment_of c)) = c \<and> cfg_MaxRetries c = 5)"
proof -
  have "config_ok (New_config (\<lambda>_. []))" by code_simp
  then show ?thesis
    using config_round_trip [of "New_config (\<lambda>_. [])"] by (simp add: Let_def New_config_def override_def default_config_def)
qed

end
