(* ===== verification/Delivery.thy ===== *)
theory Delivery
  imports Event_Queue Config_Cache Worker_Pool Http_Client Config
begin

text \<open>
  \<open>internal/service/webhook.go\<close>: what a delivery worker does with an event, and the delay before a
  retry. The state is the service's configuration cache, the database and the metrics of its worker
  pool; the delivery itself, the readings of the clock, the random draw and the conversion of an
  out-of-range \<open>float64\<close> are parameters.
\<close>

section \<open>The delay before a retry\<close>

text \<open>
  \<open>rnd\<close> is the draw of \<open>rand.Float64()\<close>, \<open>oor\<close> what the processor gives for a \<open>float64\<close> that does not fit
  into an \<open>int64\<close>. The sum and the products are rounded one by one, as on amd64.
\<close>

definition calculateBackoff :: "(float64 \<Rightarrow> int) \<Rightarrow> float64 \<Rightarrow> int \<Rightarrow> duration \<Rightarrow> duration \<Rightarrow> duration" where
  "calculateBackoff oor rnd attemptCount initialDelay maxDelay =
     (let backoff = f64_mul (f64_of_int initialDelay) (f64_pow2 (attemptCount - 1));
          jitter = f64_mul (f64_mul rnd (f64_round (3 / 10))) backoff;
          delay = f64_to_int64 oor (f64_add backoff jitter)
      in if delay > maxDelay then maxDelay else delay)"

section \<open>Processing an event\<close>

record delivery_env =
  de_cfg :: config
  de_clock :: "nat \<Rightarrow> instant"
  de_rnd :: float64
  de_oor :: "float64 \<Rightarrow> int"
  de_deliver :: "string \<Rightarrow> webhook_event \<Rightarrow> delivery_result"

record service =
  sv_cache :: config_cache
  sv_db :: database
  sv_pool :: pool

text \<open>
  The readings of a clock, in the order of the code: 0 and 1 in the cache, 2 the INSERT into
  \<open>delivery_attempts\<close>, 3 the UPDATE of the status, 4 \<open>time.Since\<close>, 5 \<open>time.Now\<close> for the last attempt,
  6 the UPDATE of the attempts, 7 and 8 the schedule of the retry, 9 the UPDATE that follows its
  failure. The errors of the repository's methods are dropped where the code drops them.
\<close>

definition processEvent :: "delivery_env \<Rightarrow> webhook_event \<Rightarrow> service \<Rightarrow> service" where
  "processEvent env event s = (let clk = de_clock env; cfg = de_cfg env in
     case cache_GetPostURL GetWebhookByID (clk 0) (clk 1) (ev_WebhookID event) (sv_cache s, sv_db s) of
       (Inl err, c1, d1) \<Rightarrow>
         (let d2 = LogDeliveryAttempt (clk 2) (ev_ID event) False [] (Some (Errorf ''webhook config not found'')) d1;
              d3 = snd (UpdateEventStatus (clk 3) (ev_ID event) ''failed'' d2)
          in \<lparr>sv_cache = c1, sv_db = d3, sv_pool = RecordFailure (sv_pool s)\<rparr>)
     | (Inr postURL, c1, d1) \<Rightarrow>
         (let attemptCount = ev_Attempts event + 1;
              (success, response, err) = de_deliver env postURL event;
              d2 = LogDeliveryAttempt (clk 2) (ev_ID event) success response err d1;
              dur = time_sub (clk 4) (ev_EventTime event);
              p1 = RecordProcessingTime dur (sv_pool s)
          in if success
             then \<lparr>sv_cache = c1, sv_db = snd (UpdateEventStatus (clk 3) (ev_ID event) ''success'' d2), sv_pool = RecordSuccess p1\<rparr>
             else if attemptCount \<ge> cfg_MaxRetries cfg
             then \<lparr>sv_cache = c1, sv_db = snd (UpdateEventStatus (clk 3) (ev_ID event) ''failed'' d2), sv_pool = RecordFailure p1\<rparr>
             else (let delay = calculateBackoff (de_oor env) (de_rnd env) attemptCount (cfg_InitialDelay cfg) (cfg_MaxDelay cfg);
                       d3 = snd (UpdateEventAttempts (clk 6) (ev_ID event) attemptCount (Some (clk 5)) d2)
                   in case ScheduleRetry (clk 8) (clk 7) (ev_ID event) delay d3 of
                        (Inl err', d4) \<Rightarrow>
                          \<lparr>sv_cache = c1, sv_db = snd (UpdateEventStatus (clk 9) (ev_ID event) ''failed'' d4), sv_pool = RecordFailure p1\<rparr>
                      | (Inr _, d4) \<Rightarrow> \<lparr>sv_cache = c1, sv_db = d4, sv_pool = p1\<rparr>)))"

text \<open>\<open>GetWorkerStats\<close>: the pool's numbers, and the cache's under keys that begin with \<open>cache_\<close>.\<close>

record worker_stats = pool_stats +
  ws_cache_total_cached :: nat
  ws_cache_ttl_seconds :: float64
  ws_cache_expired_entries :: nat

definition GetWorkerStats :: "instant \<Rightarrow> webhook_event chan \<Rightarrow> service \<Rightarrow> worker_stats" where
  "GetWorkerStats now q s = (let cacheStats = cache_GetCacheStats now (sv_cache s) in
     pool_stats.extend (pool_GetStats q (sv_pool s))
       (worker_stats.fields (cs_total_cached cacheStats) (cs_ttl_seconds cacheStats) (cs_expired_entries cacheStats)))"

definition service_Shutdown :: "service \<Rightarrow> service" where
  "service_Shutdown s = s\<lparr>sv_pool := pool_Shutdown (sv_pool s)\<rparr>"

section \<open>The delay is bounded\<close>

lemma backoff_exact:
  assumes "0 \<le> i" and "i \<le> 2 ^ 53" and "k \<le> 62"
  shows "f64_mul (f64_of_int i) (f64_pow2 (int k)) = Fin (of_int i * 2 ^ k)"
proof -
  have "f64_of_int i = Fin (of_int i)" using assms by (intro f64_of_int_exact) simp
  moreover have "f64_pow2 (int k) = Fin (2 ^ k)" using assms(3) by (simp add: f64_pow2_def)
  moreover have "f64_round (of_int i * 2 ^ k) = Fin (of_int i * 2 ^ k)"
  proof (rule f64_round_exact)
    show "is_f64 (of_int i * 2 ^ k)" using is_f64_scale [of i "int k"] assms by simp
    have "(of_int i :: rat) \<le> of_int (2 ^ 53)" using assms(2) by (simp only: of_int_le_iff)
    moreover have "(2 :: rat) ^ k \<le> 2 ^ 62" using assms(3) by (intro power_increasing) auto
    ultimately have "(of_int i :: rat) * 2 ^ k \<le> of_int (2 ^ 53) * 2 ^ 62"
      by (intro mult_mono) simp_all
    also have "\<dots> < 2 powi 1024" by simp
    finally show "\<bar>of_int i * 2 ^ k :: rat\<bar> < 2 powi 1024" using assms(1) by simp
  qed
  ultimately show ?thesis by simp
qed

lemma scaled_fits:
  assumes "0 \<le> m" and "m \<le> 2 ^ 53" and "k \<le> 62"
  shows "is_f64 (of_int m * 2 powi (int k - 4))" "\<bar>of_int m * 2 powi (int k - 4) :: rat\<bar> < 2 powi 1024"
proof -
  show "is_f64 (of_int m * 2 powi (int k - 4))" using assms by (intro is_f64_scale) simp_all
  have "(of_int m :: rat) \<le> of_int (2 ^ 53)" using assms(2) by (simp only: of_int_le_iff)
  moreover have "(2 :: rat) powi (int k - 4) \<le> 2 powi 62" using assms(3) by (intro powi_mono) simp
  ultimately have "(of_int m :: rat) * 2 powi (int k - 4) \<le> of_int (2 ^ 53) * 2 powi 62"
    by (intro mult_mono) simp_all
  also have "\<dots> < 2 powi 1024" by simp
  finally show "\<bar>of_int m * 2 powi (int k - 4) :: rat\<bar> < 2 powi 1024" using assms(1) by simp
qed

lemma powi_minus_4: "(2 :: rat) powi (int k - 4) = 2 ^ k / 16"
  using power_int_diff [of "2 :: rat" "int k" 4] by simp

lemma jitter_bounds:
  assumes i: "0 \<le> i" "21 * i \<le> 2 ^ 53" and k: "k \<le> 62" and r: "0 \<le> r" "r \<le> 1"
  shows "\<exists>d. f64_add (Fin (of_int i * 2 ^ k)) (f64_mul (f64_mul (Fin r) (f64_round (3 / 10))) (Fin (of_int i * 2 ^ k))) = Fin d \<and>
    of_int i * 2 ^ k \<le> d \<and> d \<le> of_int (21 * i) * 2 ^ k / 16"
proof -
  let ?b = "of_int i * 2 ^ k :: rat"
  have zero: "is_f64 0" "\<bar>0 :: rat\<bar> < 2 powi 1024" by simp_all
  have five: "is_f64 (5 / 16)" "\<bar>5 / 16 :: rat\<bar> < 2 powi 1024"
    using scaled_fits [of 5 0] by (simp_all add: powi_minus_4 power_int_minus)
  obtain c where c: "f64_round (3 / 10) = Fin c" "0 \<le> c" "c \<le> 5 / 16"
    using f64_round_within [OF zero(1) _ five(1) _ zero(2) five(2), of "3 / 10"] by auto
  have "r * c \<le> 1 * (5 / 16)" using r c by (intro mult_mono) auto
  then have rc: "0 \<le> r * c" "r * c \<le> 5 / 16" using r c by simp_all
  obtain m where m: "f64_round (r * c) = Fin m" "0 \<le> m" "m \<le> 5 / 16"
    using f64_round_within [OF zero(1) rc(1) five(1) rc(2) zero(2) five(2)] by auto
  have b0: "0 \<le> ?b" using i by simp
  have "m * ?b \<le> 5 / 16 * ?b" using m b0 by (intro mult_right_mono) auto
  also have e5: "5 / 16 * ?b = of_int (5 * i) * 2 powi (int k - 4)" by (simp add: powi_minus_4)
  finally have mb: "0 \<le> m * ?b" "m * ?b \<le> of_int (5 * i) * 2 powi (int k - 4)" using m b0 by simp_all
  have f5: "is_f64 (of_int (5 * i) * 2 powi (int k - 4))" "\<bar>of_int (5 * i) * 2 powi (int k - 4) :: rat\<bar> < 2 powi 1024"
    using scaled_fits [of "5 * i" k] i k by simp_all
  obtain j where j: "f64_round (m * ?b) = Fin j" "0 \<le> j" "j \<le> of_int (5 * i) * 2 powi (int k - 4)"
    using f64_round_within [OF zero(1) mb(1) f5(1) mb(2) zero(2) f5(2)] by auto
  have e16: "?b = of_int (16 * i) * 2 powi (int k - 4)" "?b + 5 / 16 * ?b = of_int (21 * i) * 2 powi (int k - 4)"
    by (simp_all add: powi_minus_4)
  have fb: "is_f64 ?b" "\<bar>?b\<bar> < 2 powi 1024" unfolding e16(1) using scaled_fits [of "16 * i" k] i k by simp_all
  have f21: "is_f64 (of_int (21 * i) * 2 powi (int k - 4))" "\<bar>of_int (21 * i) * 2 powi (int k - 4) :: rat\<bar> < 2 powi 1024"
    using scaled_fits [of "21 * i" k] i k by simp_all
  have "?b + j \<le> ?b + of_int (5 * i) * 2 powi (int k - 4)" using j(3) by simp
  also have "\<dots> = of_int (21 * i) * 2 powi (int k - 4)" unfolding e5 [symmetric] by (rule e16(2))
  finally have "?b + j \<le> of_int (21 * i) * 2 powi (int k - 4)" .
  moreover have "?b \<le> ?b + j" using j(2) by simp
  ultimately obtain d where d: "f64_round (?b + j) = Fin d" "?b \<le> d" "d \<le> of_int (21 * i) * 2 powi (int k - 4)"
    using f64_round_within [OF fb(1) _ f21(1) _ fb(2) f21(2), of "?b + j"] by auto
  show ?thesis using c m j d by (simp add: powi_minus_4)
qed

lemma trunc_bounds: "of_int a \<le> x \<Longrightarrow> x \<le> y \<Longrightarrow> 0 \<le> a \<Longrightarrow> a \<le> trunc_rat x \<and> of_int (trunc_rat x) \<le> y"
  by (auto simp: trunc_rat_def le_floor_iff intro: order_trans [OF of_int_floor_le])

text \<open>C33: the delay grows exponentially, with bounded jitter, up to the maximum. For attempt \<open>n\<close>, while
  the exponential does not overflow, the delay before the cap lies between the exponential
  \<open>initialDelay * 2 ^ (n - 1)\<close> and 21/16 of it, rounding included; what is returned is the smaller of that
  delay and the maximum.\<close>

theorem backoff_bounds:
  assumes i: "0 < initialDelay" "21 * initialDelay \<le> 2 ^ 53" and n: "1 \<le> n"
    and r: "0 \<le> r" "r < 1" and fits: "21 * (initialDelay * 2 ^ nat (n - 1)) \<le> 16 * max_int64"
  shows "\<exists>d. initialDelay * 2 ^ nat (n - 1) \<le> d \<and> 16 * d \<le> 21 * (initialDelay * 2 ^ nat (n - 1)) \<and>
    calculateBackoff oor (Fin r) n initialDelay maxDelay = min maxDelay d"
proof -
  let ?k = "nat (n - 1)"
  let ?b = "initialDelay * 2 ^ ?k"
  have "2 ^ ?k * 1 \<le> (2 ^ ?k * initialDelay :: int)" using i(1) by (intro mult_left_mono) auto
  then have "(2 :: int) ^ ?k \<le> ?b" by (simp add: mult.commute)
  also have "?b < 2 ^ 63" using fits by (simp add: max_int64_def)
  finally have "(2 :: int) ^ ?k < 2 ^ 63" .
  then have k: "?k \<le> 62" using power_less_imp_less_exp [of "2 :: int" ?k 63] by simp
  obtain d where d: "f64_add (Fin (of_int initialDelay * 2 ^ ?k))
      (f64_mul (f64_mul (Fin r) (f64_round (3 / 10))) (Fin (of_int initialDelay * 2 ^ ?k))) = Fin d"
    "of_int initialDelay * 2 ^ ?k \<le> d" "d \<le> of_int (21 * initialDelay) * 2 ^ ?k / 16"
    using jitter_bounds [of initialDelay ?k r] i r k by auto
  have "f64_mul (f64_of_int initialDelay) (f64_pow2 (n - 1)) = Fin (of_int initialDelay * 2 ^ ?k)"
    using backoff_exact [of initialDelay ?k] i k n by simp
  then have c: "calculateBackoff oor (Fin r) n initialDelay maxDelay =
      (let x = f64_to_int64 oor (Fin d) in if x > maxDelay then maxDelay else x)"
    using d(1) by (simp add: calculateBackoff_def)
  have t: "?b \<le> trunc_rat d" "of_int (trunc_rat d) \<le> (of_int (21 * initialDelay) * 2 ^ ?k / 16 :: rat)"
    using trunc_bounds [of ?b d "of_int (21 * initialDelay) * 2 ^ ?k / 16"] d i by simp_all
  then have "of_int (16 * trunc_rat d) \<le> (of_int (21 * ?b) :: rat)" by simp
  then have le: "16 * trunc_rat d \<le> 21 * ?b" by (simp only: of_int_le_iff)
  have "0 \<le> ?b" using i by simp
  then have "min_int64 \<le> trunc_rat d \<and> trunc_rat d \<le> max_int64"
    using t(1) le fits by (simp add: min_int64_def)
  then have "f64_to_int64 oor (Fin d) = trunc_rat d" by (simp add: f64_to_int64_def)
  with c t(1) le show ?thesis by (intro exI [of _ "trunc_rat d"]) (auto simp: Let_def min_def)
qed

text \<open>past the range of \<open>int64\<close> the cap no longer works. On amd64, where an out-of-range conversion gives the
  smallest \<open>int64\<close>, an exponential of \<open>2 ^ 63\<close> or more gives that negative delay, whatever the maximum.\<close>

theorem backoff_overflow:
  assumes i: "0 < initialDelay" "21 * initialDelay \<le> 2 ^ 53" and n: "1 \<le> n" "n \<le> 63"
    and r: "0 \<le> r" "r < 1" and big: "2 ^ 63 \<le> initialDelay * 2 ^ nat (n - 1)" and m: "0 \<le> maxDelay"
  shows "calculateBackoff (\<lambda>_. min_int64) (Fin r) n initialDelay maxDelay = min_int64"
proof -
  let ?k = "nat (n - 1)"
  have k: "?k \<le> 62" using n by simp
  obtain d where d: "f64_add (Fin (of_int initialDelay * 2 ^ ?k))
      (f64_mul (f64_mul (Fin r) (f64_round (3 / 10))) (Fin (of_int initialDelay * 2 ^ ?k))) = Fin d"
    "of_int initialDelay * 2 ^ ?k \<le> d"
    using jitter_bounds [of initialDelay ?k r] i r k by auto
  have "f64_mul (f64_of_int initialDelay) (f64_pow2 (n - 1)) = Fin (of_int initialDelay * 2 ^ ?k)"
    using backoff_exact [of initialDelay ?k] i k n by simp
  then have c: "calculateBackoff (\<lambda>_. min_int64) (Fin r) n initialDelay maxDelay =
      (let x = f64_to_int64 (\<lambda>_. min_int64) (Fin d) in if x > maxDelay then maxDelay else x)"
    using d(1) by (simp add: calculateBackoff_def)
  have "initialDelay * 2 ^ ?k \<le> trunc_rat d"
    using trunc_bounds [of "initialDelay * 2 ^ ?k" d d] d(2) i by simp
  then have "\<not> trunc_rat d \<le> max_int64" using big by (simp add: max_int64_def)
  then show ?thesis using c m by (simp add: f64_to_int64_def Let_def min_int64_def)
qed

section \<open>What becomes of an event\<close>

lemma GetWebhookByID_ok:
  assumes "db_faults d = []"
  shows "snd (GetWebhookByID s d) = d"
  using assms by (simp add: GetWebhookByID_def dbm_bind_def int4_param_def split: option.split)

lemma cache_GetPostURL_ok:
  assumes nf: "db_faults d = []" and ag: "cache_agrees (current_config d) c" and cur: "current_config d i = Some w"
  shows "\<exists>c'. cache_GetPostURL GetWebhookByID t t' i (c, d) = (Inr (dto_PostURL w), c', d) \<and>
    cache_agrees (current_config d) c'"
proof -
  have f: "GetWebhookByID i d = (Inr w, d)"
    using cur nf by (auto simp: current_config_def GetWebhookByID_def int4_param_ok split: option.splits)
  have hit: "cache_lookup t i c = Some v \<Longrightarrow> v = w" for v using agrees_lookup [OF ag] cur by fastforce
  show ?thesis
    using f ag agrees_store [OF ag cur] hit
    by (cases "cache_lookup t i c") (auto simp: cache_GetPostURL_def Let_def)
qed

text \<open>The row after a delivery, by the code's three outcomes.\<close>

definition delivered_row :: "delivery_env \<Rightarrow> webhook_event \<Rightarrow> bool \<Rightarrow> event_row \<Rightarrow> event_row" where
  "delivered_row env ev success r =
     (if success then r\<lparr>er_status := ''success''\<rparr>
      else if ev_Attempts ev + 1 \<ge> cfg_MaxRetries (de_cfg env) then r\<lparr>er_status := ''failed''\<rparr>
      else retry_row (de_clock env 8)
        (de_clock env 7 + calculateBackoff (de_oor env) (de_rnd env) (ev_Attempts ev + 1)
           (cfg_InitialDelay (de_cfg env)) (cfg_MaxDelay (de_cfg env)))
        (r\<lparr>er_attempts := ev_Attempts ev + 1\<rparr>))"

definition delivered_metrics :: "delivery_env \<Rightarrow> webhook_event \<Rightarrow> bool \<Rightarrow> pool \<Rightarrow> pool" where
  "delivered_metrics env ev success p =
     (let p1 = RecordProcessingTime (time_sub (de_clock env 4) (ev_EventTime ev)) p in
      if success then RecordSuccess p1
      else if ev_Attempts ev + 1 \<ge> cfg_MaxRetries (de_cfg env) then RecordFailure p1 else p1)"

lemma delivered_row_id [simp]: "er_id (delivered_row env ev success r) = er_id r"
  by (simp add: delivered_row_def)

lemma processEvent_ok:
  assumes nf: "db_faults d = []" and ag: "cache_agrees (current_config d) c"
    and cur: "current_config d (ev_WebhookID ev) = Some w" and s: "db_int4in d (ev_ID ev) = Some i"
    and r: "event_by_id i d = Some r" and del: "de_deliver env (dto_PostURL w) ev = (success, response, err)"
  shows "\<exists>c' d'. processEvent env ev \<lparr>sv_cache = c, sv_db = d, sv_pool = p\<rparr> =
      \<lparr>sv_cache = c', sv_db = d', sv_pool = delivered_metrics env ev success p\<rparr> \<and>
    cache_agrees (current_config d') c' \<and> db_faults d' = [] \<and> db_int4in d' = db_int4in d \<and>
    db_configs d' = db_configs d \<and> db_locked d' = db_locked d \<and>
    (\<forall>j. event_by_id j d' = map_option (\<lambda>r. if j = i then delivered_row env ev success r else r) (event_by_id j d)) \<and>
    db_deliveries d' = db_deliveries d @ [\<lparr>dr_id = db_next_delivery d, dr_event_id = i,
      dr_status = (if success then ''success'' else ''failed''), dr_response = response,
      dr_error = (case err of None \<Rightarrow> [] | Some e \<Rightarrow> err_text e), dr_timestamp = de_clock env 2\<rparr>]"
proof -
  obtain c' where c': "cache_GetPostURL GetWebhookByID (de_clock env 0) (de_clock env 1) (ev_WebhookID ev) (c, d) =
      (Inr (dto_PostURL w), c', d)" "cache_agrees (current_config d) c'"
    using cache_GetPostURL_ok [OF nf ag cur] by blast
  define d2 where "d2 = LogDeliveryAttempt (de_clock env 2) (ev_ID ev) success response err d"
  note log = LogDeliveryAttempt_ok [OF nf s r, of "de_clock env 2" success response err, folded d2_def]
  have d2: "db_faults d2 = []" "db_int4in d2 (ev_ID ev) = Some i" "event_by_id i d2 = Some r" "\<And>j. event_by_id j d2 = event_by_id j d"
    "db_int4in d2 = db_int4in d" "db_configs d2 = db_configs d" "db_locked d2 = db_locked d"
    and del2: "db_deliveries d2 = db_deliveries d @ [\<lparr>dr_id = db_next_delivery d, dr_event_id = i,
      dr_status = (if success then ''success'' else ''failed''), dr_response = response,
      dr_error = (case err of None \<Rightarrow> [] | Some e \<Rightarrow> err_text e), dr_timestamp = de_clock env 2\<rparr>]"
    using nf s r by (simp_all add: log event_by_id_def)
  have cd: "current_config d2 = current_config d" by (rule current_config_cong) (simp_all add: d2)
  have cc: "current_config (row_updated now j f x) = current_config x" for now j f x
    by (rule current_config_cong) simp_all
  let ?att = "\<lambda>r. r\<lparr>er_attempts := ev_Attempts ev + 1, er_last_attempt_at := Some (de_clock env 5)\<rparr>"
  define d3 where "d3 = row_updated (de_clock env 6) i ?att d2"
  have d3: "db_faults d3 = []" "db_int4in d3 (ev_ID ev) = Some i" "event_by_id i d3 = Some (?att r)"
    "\<And>j. event_by_id j d3 = map_option (\<lambda>r. if j = i then ?att r else r) (event_by_id j d)"
    using d2 by (simp_all add: d3_def event_by_id_row_updated)
  let ?delay = "calculateBackoff (de_oor env) (de_rnd env) (ev_Attempts ev + 1) (cfg_InitialDelay (de_cfg env)) (cfg_MaxDelay (de_cfg env))"
  let ?s = "\<lparr>sv_cache = c, sv_db = d, sv_pool = p\<rparr>"
  let ?final = "if success then row_updated (de_clock env 3) i (\<lambda>r. r\<lparr>er_status := ''success''\<rparr>) d2
     else if ev_Attempts ev + 1 \<ge> cfg_MaxRetries (de_cfg env) then row_updated (de_clock env 3) i (\<lambda>r. r\<lparr>er_status := ''failed''\<rparr>) d2
     else row_updated (de_clock env 8) i (retry_row (de_clock env 8) (de_clock env 7 + ?delay)) d3"
  have retry: "ScheduleRetry (de_clock env 8) (de_clock env 7) (ev_ID ev) ?delay d3 =
      (Inr (), row_updated (de_clock env 8) i (retry_row (de_clock env 8) (de_clock env 7 + ?delay)) d3)"
    unfolding ScheduleRetry_def by (rule UpdateRetrySchedule_ok [OF d3(1-3)])
  let ?p1 = "RecordProcessingTime (time_sub (de_clock env 4) (ev_EventTime ev)) p"
  have "processEvent env ev ?s =
    (if success then \<lparr>sv_cache = c', sv_db = row_updated (de_clock env 3) i (\<lambda>r. r\<lparr>er_status := ''success''\<rparr>) d2, sv_pool = RecordSuccess ?p1\<rparr>
     else if ev_Attempts ev + 1 \<ge> cfg_MaxRetries (de_cfg env)
     then \<lparr>sv_cache = c', sv_db = row_updated (de_clock env 3) i (\<lambda>r. r\<lparr>er_status := ''failed''\<rparr>) d2, sv_pool = RecordFailure ?p1\<rparr>
     else \<lparr>sv_cache = c', sv_db = row_updated (de_clock env 8) i (retry_row (de_clock env 8) (de_clock env 7 + ?delay)) d3, sv_pool = ?p1\<rparr>)"
    by (simp add: processEvent_def Let_def c'(1) del d2_def [symmetric] d3_def [symmetric] retry
        UpdateEventStatus_ok [OF d2(1,2)] UpdateEventAttempts_ok [OF d2(1,2)] split del: if_split del: One_nat_def cong del: if_weak_cong)
  then have pe: "processEvent env ev ?s = \<lparr>sv_cache = c', sv_db = ?final, sv_pool = delivered_metrics env ev success p\<rparr>"
    by (simp add: delivered_metrics_def Let_def)
  have ev: "event_by_id j ?final = map_option (\<lambda>r. if j = i then delivered_row env ev success r else r) (event_by_id j d)" for j
    by (cases "event_by_id j d") (auto simp: delivered_row_def event_by_id_row_updated d2(4) d3(4) retry_row_def)
  show ?thesis
    unfolding pe using c'(2) ev d2 del2
    by (intro exI [of _ c'] exI [of _ ?final]) (simp add: cc cd d3_def)
qed

text \<open>C13: a delivery has one of three outcomes, and each is recorded. When no call to the database fails, one
  attempt is added to \<open>delivery_attempts\<close>, every other event keeps its row, and this event's row becomes
  \<open>success\<close> after a successful delivery, \<open>failed\<close> after the last failed one, and otherwise pending,
  unclaimed, with the attempt counted and the next one scheduled after the backoff.\<close>

theorem delivery_outcome:
  assumes nf: "db_faults d = []" and ag: "cache_agrees (current_config d) c"
    and cur: "current_config d (ev_WebhookID ev) = Some w" and s: "db_int4in d (ev_ID ev) = Some i"
    and r: "event_by_id i d = Some r" and del: "de_deliver env (dto_PostURL w) ev = (success, response, err)"
  shows "\<exists>r'. (let d' = sv_db (processEvent env ev \<lparr>sv_cache = c, sv_db = d, sv_pool = p\<rparr>) in
    event_by_id i d' = Some r' \<and> (\<forall>j. j \<noteq> i \<longrightarrow> event_by_id j d' = event_by_id j d) \<and>
    (\<exists>a. db_deliveries d' = db_deliveries d @ [a] \<and> dr_event_id a = i \<and>
       dr_status a = (if success then ''success'' else ''failed'') \<and> dr_response a = response)) \<and>
    (success \<longrightarrow> er_status r' = ''success'') \<and>
    (\<not> success \<and> cfg_MaxRetries (de_cfg env) \<le> ev_Attempts ev + 1 \<longrightarrow> er_status r' = ''failed'') \<and>
    (\<not> success \<and> ev_Attempts ev + 1 < cfg_MaxRetries (de_cfg env) \<longrightarrow>
       er_status r' = ''pending'' \<and> er_processing_instance r' = None \<and> er_attempts r' = ev_Attempts ev + 1 \<and>
       er_next_attempt_at r' = Some (de_clock env 7 + calculateBackoff (de_oor env) (de_rnd env) (ev_Attempts ev + 1)
         (cfg_InitialDelay (de_cfg env)) (cfg_MaxDelay (de_cfg env))))"
proof -
  obtain c' d' where p: "processEvent env ev \<lparr>sv_cache = c, sv_db = d, sv_pool = p\<rparr> =
      \<lparr>sv_cache = c', sv_db = d', sv_pool = delivered_metrics env ev success p\<rparr>"
    and e: "\<And>j. event_by_id j d' = map_option (\<lambda>r. if j = i then delivered_row env ev success r else r) (event_by_id j d)"
    and l: "db_deliveries d' = db_deliveries d @ [\<lparr>dr_id = db_next_delivery d, dr_event_id = i,
      dr_status = (if success then ''success'' else ''failed''), dr_response = response,
      dr_error = (case err of None \<Rightarrow> [] | Some e \<Rightarrow> err_text e), dr_timestamp = de_clock env 2\<rparr>]"
    using processEvent_ok [OF assms, of p] by blast
  have o: "j \<noteq> i \<Longrightarrow> event_by_id j d' = event_by_id j d" for j
    using e [of j] by (cases "event_by_id j d") simp_all
  have i: "event_by_id i d' = Some (delivered_row env ev success r)" using e [of i] r by simp
  show ?thesis
    unfolding p Let_def service.select_convs
    by (intro exI [of _ "delivered_row env ev success r"] conjI i allI impI o)
      (auto simp: l delivered_row_def retry_row_def)
qed


text \<open>an error while the configuration is read is final. When the configuration is not cached and the
  query for it fails, for whatever reason, the event is marked as failed at once, with no retry, and the
  attempt is logged as a missing configuration.\<close>

theorem config_error_is_final:
  assumes miss: "cache_lookup (de_clock env 0) (ev_WebhookID ev) c = None" and fl: "db_faults d = [Some msg]"
    and s: "db_int4in d (ev_ID ev) = Some i" and r: "event_by_id i d = Some r"
  shows "(let s' = processEvent env ev \<lparr>sv_cache = c, sv_db = d, sv_pool = p\<rparr> in
    event_by_id i (sv_db s') = Some (r\<lparr>er_status := ''failed''\<rparr>) \<and> sv_pool s' = RecordFailure p \<and>
    (\<exists>a. db_deliveries (sv_db s') = db_deliveries d @ [a] \<and> dr_event_id a = i \<and> dr_error a = ''webhook config not found''))"
proof -
  let ?d1 = "d\<lparr>db_faults := []\<rparr>"
  have f: "GetWebhookByID (ev_WebhookID ev) d = (Inl (Driver msg), ?d1)"
    using fl by (simp add: GetWebhookByID_def db_statement_def dbm_bind_def db_call_def)
  have r1: "event_by_id i ?d1 = Some r" using r by (simp add: event_by_id_def)
  define d2 where "d2 = LogDeliveryAttempt (de_clock env 2) (ev_ID ev) False [] (Some (Errorf ''webhook config not found'')) ?d1"
  have l: "d2 = ?d1\<lparr>db_next_delivery := db_next_delivery d + 1, db_deliveries := db_deliveries d @
      [\<lparr>dr_id = db_next_delivery d, dr_event_id = i, dr_status = ''failed'', dr_response = [],
        dr_error = ''webhook config not found'', dr_timestamp = de_clock env 2\<rparr>]\<rparr>"
    using LogDeliveryAttempt_ok [of ?d1 "ev_ID ev" i r] s r1 by (simp add: d2_def)
  have "UpdateEventStatus (de_clock env 3) (ev_ID ev) ''failed'' d2 =
      (Inr (), row_updated (de_clock env 3) i (\<lambda>r. r\<lparr>er_status := ''failed''\<rparr>) d2)"
    using s by (intro UpdateEventStatus_ok) (simp_all add: l)
  then have "processEvent env ev \<lparr>sv_cache = c, sv_db = d, sv_pool = p\<rparr> = \<lparr>sv_cache = c,
      sv_db = row_updated (de_clock env 3) i (\<lambda>r. r\<lparr>er_status := ''failed''\<rparr>) d2, sv_pool = RecordFailure p\<rparr>"
    using miss f by (simp add: processEvent_def Let_def cache_GetPostURL_def d2_def)
  moreover have "event_by_id i d2 = Some r" using r by (simp add: l event_by_id_def)
  ultimately show ?thesis by (simp add: event_by_id_row_updated l)
qed

section \<open>Every run keeps the tables well formed, and loses nothing\<close>

lemma cache_GetPostURL_tables:
  assumes "cache_GetPostURL GetWebhookByID t t' i (c, d) = (r, c', d')"
  shows "same_tables d d'"
proof -
  obtain x d1 where f: "GetWebhookByID i d = (x, d1)" by force
  have "same_tables d d1" using db_keepsD [OF tables_GetWebhookByID f] .
  then show ?thesis using assms f
    by (auto simp: cache_GetPostURL_def Let_def split: option.splits sum.splits if_splits)
qed

text \<open>After the configuration has been read one attempt is logged; what follows keeps any relation its methods keep.\<close>

lemma processEvent_logs:
  assumes refl: "\<And>d. R d d" and trans: "\<And>a b c. R a b \<Longrightarrow> R b c \<Longrightarrow> R a c"
    and st: "\<And>now st. st \<in> {''success'', ''failed''} \<Longrightarrow> db_keeps R (UpdateEventStatus now (ev_ID ev) st)"
    and att: "\<And>now la. db_keeps R (UpdateEventAttempts now (ev_ID ev) (ev_Attempts ev + 1) la)"
    and retry: "\<And>now clock delay. ev_Attempts ev + 1 < cfg_MaxRetries (de_cfg env) \<Longrightarrow>
      db_keeps R (UpdateRetrySchedule now clock (ev_ID ev) delay)"
  shows "\<exists>d1 success response err. same_tables (sv_db s) d1 \<and>
    R (LogDeliveryAttempt (de_clock env 2) (ev_ID ev) success response err d1) (sv_db (processEvent env ev s))"
proof -
  obtain g c1 d1 where g: "cache_GetPostURL GetWebhookByID (de_clock env 0) (de_clock env 1) (ev_WebhookID ev)
      (sv_cache s, sv_db s) = (g, c1, d1)" by (metis surj_pair)
  have same: "same_tables (sv_db s) d1" using cache_GetPostURL_tables [OF g] .
  have snd: "R d (snd (m d))" if "db_keeps R m" for m :: "unit dbm" and d using that by (simp add: db_keeps_def)
  show ?thesis
  proof (cases g)
    case (Inl e)
    let ?d2 = "LogDeliveryAttempt (de_clock env 2) (ev_ID ev) False [] (Some (Errorf ''webhook config not found'')) d1"
    have "R ?d2 (sv_db (processEvent env ev s))"
      using g Inl snd [OF st] by (simp add: processEvent_def Let_def del: One_nat_def)
    with same show ?thesis by blast
  next
    case (Inr url)
    obtain success response err where del: "de_deliver env url ev = (success, response, err)" by (metis prod_cases3)
    define d2 where "d2 = LogDeliveryAttempt (de_clock env 2) (ev_ID ev) success response err d1"
    define d3 where "d3 = snd (UpdateEventAttempts (de_clock env 6) (ev_ID ev) (ev_Attempts ev + 1) (Some (de_clock env 5)) d2)"
    let ?delay = "calculateBackoff (de_oor env) (de_rnd env) (ev_Attempts ev + 1) (cfg_InitialDelay (de_cfg env)) (cfg_MaxDelay (de_cfg env))"
    obtain x d4 where x: "ScheduleRetry (de_clock env 8) (de_clock env 7) (ev_ID ev) ?delay d3 = (x, d4)" by (metis surj_pair)
    have R3: "R d2 d3" unfolding d3_def by (rule snd [OF att])
    have pe: "sv_db (processEvent env ev s) =
      (if success then snd (UpdateEventStatus (de_clock env 3) (ev_ID ev) ''success'' d2)
       else if ev_Attempts ev + 1 \<ge> cfg_MaxRetries (de_cfg env) then snd (UpdateEventStatus (de_clock env 3) (ev_ID ev) ''failed'' d2)
       else case x of Inl _ \<Rightarrow> snd (UpdateEventStatus (de_clock env 9) (ev_ID ev) ''failed'' d4) | Inr _ \<Rightarrow> d4)"
      using g Inr del x
      by (cases x) (simp_all add: processEvent_def Let_def d2_def [symmetric] d3_def [symmetric] del: One_nat_def cong del: if_weak_cong)
    have "R d2 (sv_db (processEvent env ev s))"
    proof (cases "success \<or> ev_Attempts ev + 1 \<ge> cfg_MaxRetries (de_cfg env)")
      case True
      then show ?thesis using snd [OF st] by (auto simp: pe)
    next
      case False
      then have "ev_Attempts ev + 1 < cfg_MaxRetries (de_cfg env)" by simp
      then have R4: "R d2 d4" using trans [OF R3 db_keepsD [OF retry x [unfolded ScheduleRetry_def]]] by blast
      with False trans [OF R4 snd [OF st]] show ?thesis by (auto simp: pe split: sum.split)
    qed
    with same show ?thesis unfolding d2_def by blast
  qed
qed

lemma processEvent_keeps:
  assumes refl: "\<And>d d'. same_tables d d' \<Longrightarrow> R d d'" and trans: "\<And>a b c. R a b \<Longrightarrow> R b c \<Longrightarrow> R a c"
    and log: "\<And>d now success response err. R d (LogDeliveryAttempt now (ev_ID ev) success response err d)"
    and st: "\<And>now st. st \<in> {''success'', ''failed''} \<Longrightarrow> db_keeps R (UpdateEventStatus now (ev_ID ev) st)"
    and att: "\<And>now la. db_keeps R (UpdateEventAttempts now (ev_ID ev) (ev_Attempts ev + 1) la)"
    and retry: "\<And>now clock delay. ev_Attempts ev + 1 < cfg_MaxRetries (de_cfg env) \<Longrightarrow>
      db_keeps R (UpdateRetrySchedule now clock (ev_ID ev) delay)"
  shows "R (sv_db s) (sv_db (processEvent env ev s))"
proof -
  have "\<exists>d1 success response err. same_tables (sv_db s) d1 \<and>
    R (LogDeliveryAttempt (de_clock env 2) (ev_ID ev) success response err d1) (sv_db (processEvent env ev s))"
  proof (rule processEvent_logs)
    show "R d d" for d by (rule refl) simp
    show "R a b \<Longrightarrow> R b c \<Longrightarrow> R a c" for a b c by (rule trans)
  qed (use st att retry in auto)
  then obtain d1 success response err where d1: "same_tables (sv_db s) d1"
    "R (LogDeliveryAttempt (de_clock env 2) (ev_ID ev) success response err d1) (sv_db (processEvent env ev s))"
    by blast
  show ?thesis by (rule trans [OF refl [OF d1(1)] trans [OF log d1(2)]])
qed

lemma wf_processEvent: "0 \<le> ev_Attempts ev \<Longrightarrow> wf_kept (sv_db s) (sv_db (processEvent env ev s))"
  by (rule processEvent_keeps [where R = wf_kept])
    (auto simp: wf_kept_def same_tables_wf intro!: wf_UpdateEventStatus wf_UpdateEventAttempts wf_UpdateRetrySchedule
      dest: wf_LogDeliveryAttempt [unfolded wf_kept_def, rule_format])

lemma hist_processEvent: "db_grows (sv_db s) (sv_db (processEvent env ev s))"
  by (rule processEvent_keeps [where R = db_grows])
    (auto intro: db_grows_trans same_tables_grows hist_LogDeliveryAttempt hist_UpdateEventStatus
      hist_UpdateEventAttempts hist_UpdateRetrySchedule)

end
