(* ===== verification/Server.thy ===== *)
theory Server
  imports Delivery
begin

text \<open>
  \<open>internal/server/server.go\<close>, \<open>routes.go\<close> and \<open>internal/service/webhook_config_listener.go\<close>: what a request
  gets for an answer, what becomes of an accepted event, how a change of a configuration reaches the
  cache, and how the server is put together and taken down. Echo, which binds a request to an
  event, is a parameter.
\<close>

section \<open>Requests\<close>

record http_answer =
  ans_status :: nat
  ans_body :: "(string \<times> string) list"

definition error_answer :: "nat \<Rightarrow> string \<Rightarrow> http_answer" where
  "error_answer status msg = \<lparr>ans_status = status, ans_body = [(''error'', msg)]\<rparr>"

record server =
  srv_requestBuffer :: "webhook_event chan"
  srv_cache :: config_cache
  srv_db :: database
  srv_requestPool :: pool

definition handleWebhookEvent ::
    "('req \<Rightarrow> webhook_event result) \<Rightarrow> instant \<Rightarrow> instant \<Rightarrow> 'req \<Rightarrow> server \<Rightarrow> http_answer \<times> server" where
  "handleWebhookEvent bind now now' req s = (case bind req of
     Inl err \<Rightarrow> (error_answer 400 ''Invalid event format'', s)
   | Inr event \<Rightarrow> (case Event_Validate event of
       Some err \<Rightarrow> (error_answer 400 (err_text err), s)
     | None \<Rightarrow> (case cache_ValidateWebhook GetWebhookByID now now' (ev_WebhookID event) (ev_EventName event) (srv_cache s, srv_db s) of
         (Inl err, c, d) \<Rightarrow> (error_answer 500 ''Error validating webhook'', s\<lparr>srv_cache := c, srv_db := d\<rparr>)
       | (Inr valid, c, d) \<Rightarrow>
           (let s1 = s\<lparr>srv_cache := c, srv_db := d\<rparr> in
            if \<not> valid then (error_answer 400 ''Webhook not found or event type not allowed'', s1)
            else (case select_send event (srv_requestBuffer s) of
                (True, q) \<Rightarrow> (\<lparr>ans_status = 202, ans_body = [(''message'', ''Event accepted for processing'')]\<rparr>,
                   s1\<lparr>srv_requestBuffer := q\<rparr>)
              | (False, q) \<Rightarrow> (error_answer 429 ''Server is currently at capacity, please try again later'',
                   s1\<lparr>srv_requestBuffer := q\<rparr>))))))"

text \<open>What a worker of the request pool does with an accepted event; \<open>now\<close> is the database's time.\<close>

definition processWebhookRequest :: "instant \<Rightarrow> instant \<Rightarrow> webhook_event \<Rightarrow> server \<Rightarrow> server" where
  "processWebhookRequest now clock event s = (case EnqueueEvent now event (srv_db s) of
     (Inl err, d) \<Rightarrow> s\<lparr>srv_db := d, srv_requestPool := RecordFailure (srv_requestPool s)\<rparr>
   | (Inr eventID, d) \<Rightarrow> (let p = (if is_zero_time (ev_EventTime event)
          then RecordProcessingTime 0 (srv_requestPool s)
          else RecordProcessingTime (time_sub clock (ev_EventTime event)) (srv_requestPool s))
        in s\<lparr>srv_db := d, srv_requestPool := RecordSuccess p\<rparr>))"

section \<open>The listener for configuration changes\<close>

record config_notification =
  cn_WebhookID :: string
  cn_Operation :: string

definition zero_config_notification :: config_notification where
  "zero_config_notification = \<lparr>cn_WebhookID = [], cn_Operation = []\<rparr>"

definition set_config_notification_field :: "config_notification \<Rightarrow> string \<Rightarrow> json \<Rightarrow> config_notification result" where
  "set_config_notification_field s k v =
     (if k = ''webhook_id'' then map_sum id (\<lambda>x. s\<lparr>cn_WebhookID := x\<rparr>) (decode_string (cn_WebhookID s) v)
      else if k = ''operation'' then map_sum id (\<lambda>x. s\<lparr>cn_Operation := x\<rparr>) (decode_string (cn_Operation s) v)
      else Inr s)"

text \<open>A payload that does not parse is logged and dropped.\<close>

definition config_handleNotification :: "json option \<Rightarrow> config_cache \<Rightarrow> config_cache" where
  "config_handleNotification payload c = (case payload of
     None \<Rightarrow> c
   | Some j \<Rightarrow> (case decode_struct set_config_notification_field zero_config_notification j of
       Inl err \<Rightarrow> c
     | Inr notification \<Rightarrow> cache_InvalidateCache (cn_WebhookID notification) c))"

text \<open>\<open>notify_webhook_config_change()\<close> of \<open>sql/webhook_config_triggers.sql\<close>\<close>

definition config_payload :: "string \<Rightarrow> int \<Rightarrow> json" where
  "config_payload tg_op i = JObj [(''webhook_id'', JStr (show_int i)), (''operation'', JStr tg_op)]"

section \<open>Starting and stopping\<close>

text \<open>
  The goroutines of \<open>EventQueueManager\<close>: the listeners that run, the one the field \<open>eventListener\<close> holds,
  and the background routines that share the stop channel. \<open>Stop\<close> of a stopped manager closes a closed
  channel, which panics: \<open>None\<close>.
\<close>

record queue_goroutines =
  qg_listeners :: "nat list"
  qg_eventListener :: "nat option"
  qg_next :: nat
  qg_routines :: nat
  qg_stopped :: bool

definition no_goroutines :: queue_goroutines where
  "no_goroutines = \<lparr>qg_listeners = [], qg_eventListener = None, qg_next = 0, qg_routines = 0, qg_stopped = False\<rparr>"

definition manager_Start :: "queue_goroutines \<Rightarrow> queue_goroutines" where
  "manager_Start g = g\<lparr>qg_listeners := qg_listeners g @ [qg_next g], qg_eventListener := Some (qg_next g),
     qg_next := qg_next g + 1, qg_routines := qg_routines g + 3\<rparr>"

definition manager_Stop :: "queue_goroutines \<Rightarrow> queue_goroutines option" where
  "manager_Stop g = (if qg_stopped g then None
     else Some (g\<lparr>qg_stopped := True, qg_routines := 0,
       qg_listeners := (case qg_eventListener g of None \<Rightarrow> qg_listeners g | Some l \<Rightarrow> remove1 l (qg_listeners g))\<rparr>))"

text \<open>
  The fields of \<open>EventQueueManager\<close> besides its goroutines. \<open>make\<close> panics for a negative size. The id of an instance is
  made of the process id and the time of its start.
\<close>

record event_queue_manager =
  em_eventQueue :: event_queue
  em_instanceID :: string
  em_connString :: string
  em_backupPollingInterval :: duration
  em_maxEventsPerPoll :: int
  em_retryCheckInterval :: duration

definition NewEventQueueManager :: "config \<Rightarrow> string \<Rightarrow> string \<Rightarrow> event_queue_manager option" where
  "NewEventQueueManager cfg connString instanceID = (if cfg_QueueBufferSize cfg < 0 then None
     else Some \<lparr>em_eventQueue = make_chan (nat (cfg_QueueBufferSize cfg)), em_instanceID = instanceID, em_connString = connString,
       em_backupPollingInterval = cfg_BackupPollingInterval cfg, em_maxEventsPerPoll = cfg_MaxEventsPerPoll cfg,
       em_retryCheckInterval = cfg_RetryCheckInterval cfg\<rparr>)"

definition instance_id :: "int \<Rightarrow> instant \<Rightarrow> string" where
  "instance_id pid now = ''instance_'' @ show_int pid @ ''_'' @ show_int (now - unix_epoch)"

text \<open>
  What \<open>NewServer\<close> builds: two configuration caches, of which the listener knows only the first, one event
  channel with its delivery pool, and the request buffer with its pool. The manager is started by
  \<open>NewWebhookService\<close> and once more at the end of \<open>NewServer\<close>. A negative buffer size makes \<open>make\<close> panic.
\<close>

record app =
  app_server :: server
  app_service :: service
  app_manager :: event_queue_manager
  app_httpClient :: http_client_service
  app_queue_goroutines :: queue_goroutines

definition cache_ttl :: duration where
  "cache_ttl = 15 * nano_minute"

definition NewWebhookService :: "config \<Rightarrow> database \<Rightarrow> instant \<Rightarrow> (nat \<Rightarrow> instant) \<Rightarrow> queue_goroutines \<Rightarrow> service \<times> queue_goroutines" where
  "NewWebhookService cfg d now clk g =
     (\<lparr>sv_cache = NewWebhookConfigCache cache_ttl, sv_db = d,
       sv_pool = NewNamedWorkerPool ''DeliveryWorkerPool'' (cfg_MinWorkers cfg) (cfg_MaxWorkers cfg) now clk\<rparr>,
      manager_Start g)"

definition NewServer :: "config \<Rightarrow> database \<Rightarrow> int \<Rightarrow> instant \<Rightarrow> (nat \<Rightarrow> instant) \<Rightarrow> app option" where
  "NewServer cfg d pid now clk = (case NewEventQueueManager cfg (GetDSN cfg) (instance_id pid now) of
     None \<Rightarrow> None
   | Some manager \<Rightarrow>
      (if cfg_RequestBufferSize cfg < 0 then None
      else (let cache = NewWebhookConfigCache cache_ttl;
                (service, g) = NewWebhookService cfg d now clk no_goroutines;
                buffer = make_chan (nat (cfg_RequestBufferSize cfg));
                g' = manager_Start g;
                pool = NewNamedWorkerPool ''RequestWorkerPool'' (cfg_MinRequestWorkers cfg) (cfg_MaxRequestWorkers cfg) now clk
            in Some \<lparr>app_server = \<lparr>srv_requestBuffer = buffer, srv_cache = cache, srv_db = d, srv_requestPool = pool\<rparr>,
                 app_service = service, app_manager = manager, app_httpClient = NewHTTPClientService (cfg_MockEnabled cfg),
                 app_queue_goroutines = g'\<rparr>)))"

definition Server_Shutdown :: "app \<Rightarrow> app option" where
  "Server_Shutdown a = map_option (\<lambda>g. a\<lparr>app_queue_goroutines := g, app_service := service_Shutdown (app_service a)\<rparr>)
     (manager_Stop (app_queue_goroutines a))"

text \<open>A configuration change reaches the cache the listener was made for, the server's.\<close>

definition app_config_notification :: "json option \<Rightarrow> app \<Rightarrow> app" where
  "app_config_notification payload a = a\<lparr>app_server := (app_server a)\<lparr>srv_cache :=
     config_handleNotification payload (srv_cache (app_server a))\<rparr>\<rparr>"

section \<open>Answers\<close>

text \<open>The answer the code's contract asks for, from the request and the tables alone.\<close>

definition expected_status :: "webhook_event result \<Rightarrow> database \<Rightarrow> bool \<Rightarrow> nat" where
  "expected_status req d room = (case req of
     Inl err \<Rightarrow> 400
   | Inr event \<Rightarrow>
       if \<not> event_complete event then 400
       else if db_int4in d (ev_WebhookID event) = None then 500
       else (case current_config d (ev_WebhookID event) of
           None \<Rightarrow> 400
         | Some w \<Rightarrow> if ev_EventName event \<notin> set (dto_Events w) then 400 else if room then 202 else 429))"

lemma cache_Validate_ok:
  assumes nf: "db_faults d = []" and ag: "cache_agrees (current_config d) c"
  shows "\<exists>c'. cache_agrees (current_config d) c' \<and> cc_ttl c' = cc_ttl c \<and>
    cache_ValidateWebhook GetWebhookByID t t' i n (c, d) =
      (if db_int4in d i = None then Inl (Driver (''ERROR: invalid input syntax for type integer: '' @ i @ '' (SQLSTATE 22P02)''))
       else Inr (case current_config d i of None \<Rightarrow> False | Some w \<Rightarrow> n \<in> set (dto_Events w)), c', d)"
proof (cases "cache_lookup t i c")
  case (Some w)
  have cur: "current_config d i = Some w" using agrees_lookup [OF ag Some] .
  then have "db_int4in d i \<noteq> None" by (auto simp: current_config_def split: option.splits)
  with Some cur ag show ?thesis
    by (intro exI [of _ c]) (simp add: cache_ValidateWebhook_def event_allowed_iff)
next
  case miss: None
  show ?thesis
  proof (cases "db_int4in d i")
    case None
    then show ?thesis
      using miss nf ag by (intro exI [of _ c])
        (simp add: cache_ValidateWebhook_def GetWebhookByID_def dbm_bind_def int4_param_def)
  next
    case (Some k)
    show ?thesis
    proof (cases "find_config k d")
      case None
      then show ?thesis
        using miss nf ag Some by (intro exI [of _ c])
          (simp add: cache_ValidateWebhook_def GetWebhookByID_def int4_param_ok current_config_def)
    next
      case found: (Some r)
      then have cur: "current_config d i = Some (config_dto_of r)" using Some by (simp add: current_config_def)
      show ?thesis
        using miss nf ag Some found cur agrees_store [OF ag cur]
        by (intro exI [of _ "cache_store t' i (config_dto_of r) c"])
          (simp add: cache_ValidateWebhook_def GetWebhookByID_def int4_param_ok event_allowed_iff)
    qed
  qed
qed

text \<open>C14: requests get the right answer. When no call fails and the cached configurations are current, the
  status is 202 exactly for a complete event of a type its webhook allows while the buffer has room, 429 when
  the buffer is full, 500 for a webhook id that is not an integer, and 400 in all other cases; the event
  enters the buffer exactly when the answer is 202, and the tables stay as they are.\<close>

theorem request_answers:
  assumes nf: "db_faults (srv_db s) = []" and ag: "cache_agrees (current_config (srv_db s)) (srv_cache s)"
    and h: "handleWebhookEvent bind now now' req s = (ans, s')"
  shows "ans_status ans = expected_status (bind req) (srv_db s) (chan_room (srv_requestBuffer s)) \<and>
    (if ans_status ans = 202
     then \<exists>event. bind req = Inr event \<and> ch_buf (srv_requestBuffer s') = ch_buf (srv_requestBuffer s) @ [event]
     else ch_buf (srv_requestBuffer s') = ch_buf (srv_requestBuffer s)) \<and>
    srv_db s' = srv_db s \<and> cache_agrees (current_config (srv_db s')) (srv_cache s')"
proof (cases "bind req")
  case (Inl err)
  then show ?thesis using h ag by (auto simp: handleWebhookEvent_def error_answer_def expected_status_def)
next
  case (Inr event)
  show ?thesis
  proof (cases "Event_Validate event")
    case (Some err)
    then have "\<not> event_complete event" by (simp add: Event_Validate_iff [symmetric])
    then show ?thesis using h ag Inr Some by (auto simp: handleWebhookEvent_def error_answer_def expected_status_def)
  next
    case None
    then have ec: "event_complete event" by (simp add: Event_Validate_iff)
    obtain c' where c': "cache_agrees (current_config (srv_db s)) c'"
      "cache_ValidateWebhook GetWebhookByID now now' (ev_WebhookID event) (ev_EventName event) (srv_cache s, srv_db s) =
      (if db_int4in (srv_db s) (ev_WebhookID event) = None
       then Inl (Driver (''ERROR: invalid input syntax for type integer: '' @ ev_WebhookID event @ '' (SQLSTATE 22P02)''))
       else Inr (case current_config (srv_db s) (ev_WebhookID event) of None \<Rightarrow> False
         | Some w \<Rightarrow> ev_EventName event \<in> set (dto_Events w)), c', srv_db s)"
      using cache_Validate_ok [OF nf ag] by blast
    show ?thesis
      using h c' Inr None ec
      by (cases "db_int4in (srv_db s) (ev_WebhookID event)"; cases "current_config (srv_db s) (ev_WebhookID event)")
        (auto simp: handleWebhookEvent_def error_answer_def expected_status_def select_send_def Let_def split: if_splits)
  qed
qed

text \<open>an accepted event can be lost. If the database refuses the INSERT of an event the server has
  answered with 202, the worker only counts a failure: the tables, and the buffer the event was taken
  from, hold nothing of it.\<close>

theorem accepted_event_can_be_lost:
  assumes "marshal_subscriber (ev_Subscriber event) = Inr j" and "db_faults (srv_db s) = [Some msg]"
  shows "processWebhookRequest now clock event s =
    s\<lparr>srv_db := (srv_db s)\<lparr>db_faults := []\<rparr>, srv_requestPool := RecordFailure (srv_requestPool s)\<rparr>"
  using assms by (simp add: processWebhookRequest_def EnqueueEvent_def StoreEvent_def dbm_lift_def dbm_wrap_def
      dbm_bind_def db_statement_def db_call_def)

section \<open>Configuration changes\<close>

lemma config_notification_invalidates:
  "config_handleNotification (Some (config_payload tg_op i)) c = cache_InvalidateCache (show_int i) c"
proof -
  have k: "fold_key ''webhook_id'' = ''webhook_id''" "fold_key ''operation'' = ''operation''"
    by (simp_all add: fold_key_def lower_char_def)
  show ?thesis
    by (simp add: config_handleNotification_def config_payload_def k set_config_notification_field_def
        zero_config_notification_def)
qed

text \<open>a configuration change reaches only one of the two caches. After the notification for a webhook the
  server's cache has no entry for it, so the next request reads the changed row, but the cache of the
  delivery workers still answers as before: they post to the old URL until its time to live is over.\<close>

theorem delivery_cache_not_invalidated:
  assumes "cache_lookup t (show_int i) (sv_cache (app_service a)) = Some w"
  shows "(let a' = app_config_notification (Some (config_payload ''UPDATE'' i)) a in
    cache_lookup t (show_int i) (srv_cache (app_server a')) = None \<and>
    (\<forall>j. j \<noteq> show_int i \<longrightarrow> cache_lookup t j (srv_cache (app_server a')) = cache_lookup t j (srv_cache (app_server a))) \<and>
    cache_lookup t (show_int i) (sv_cache (app_service a')) = Some w)"
  using assms by (simp add: app_config_notification_def config_notification_invalidates Let_def)

section \<open>Starting twice\<close>

text \<open>the event queue manager is started twice. After \<open>NewServer\<close> two listeners and two sets of background
  routines run for one instance, and \<open>Shutdown\<close> stops only the listener that was started last: the
  first keeps claiming events for channels nobody reads. A second \<open>Shutdown\<close> panics.\<close>

theorem manager_started_twice:
  assumes "0 \<le> cfg_QueueBufferSize cfg" and "0 \<le> cfg_RequestBufferSize cfg"
  shows "\<exists>a a'. NewServer cfg d pid now clk = Some a \<and> length (qg_listeners (app_queue_goroutines a)) = 2 \<and>
    qg_routines (app_queue_goroutines a) = 6 \<and> Server_Shutdown a = Some a' \<and>
    qg_listeners (app_queue_goroutines a') = [0] \<and> qg_routines (app_queue_goroutines a') = 0 \<and>
    Server_Shutdown a' = None"
  using assms by (simp add: NewServer_def NewEventQueueManager_def NewWebhookService_def no_goroutines_def manager_Start_def
      Server_Shutdown_def manager_Stop_def Let_def not_less)

end
