(* ===== verification/System.thy ===== *)
theory System
  imports Server
begin

text \<open>
  The service as a whole: any number of instances over one database, as a step relation. A step is a
  request, the storing of an accepted event, a notification, a worker that takes an event from its channel or
  finishes the delivery of one it has taken, a background routine, a change of the worker pools, a
  crash with a restart under another instance id, or a change from outside: of the configurations, the locks,
  the coming faults. Notifications may be lost, repeated or made up, so that what is shown holds
  whatever PostgreSQL delivers. The statements a worker sends after a delivery are taken as one step; a crash
  between them leaves the database as a fault of the remaining ones would.
\<close>

section \<open>State\<close>

record node =
  nd_id :: string
  nd_buffer :: "webhook_event chan"
  nd_queue :: event_queue
  nd_working :: "webhook_event list"
  nd_server_cache :: config_cache
  nd_service_cache :: config_cache
  nd_request_pool :: pool
  nd_delivery_pool :: pool

record system =
  sys_db :: database
  sys_nodes :: "node list"

definition set_node :: "nat \<Rightarrow> node \<Rightarrow> system \<Rightarrow> system" where
  "set_node k n s = s\<lparr>sys_nodes := (sys_nodes s)[k := n]\<rparr>"

text \<open>The server and the service of a node, over the shared database.\<close>

definition node_server :: "node \<Rightarrow> database \<Rightarrow> server" where
  "node_server n d = \<lparr>srv_requestBuffer = nd_buffer n, srv_cache = nd_server_cache n, srv_db = d,
     srv_requestPool = nd_request_pool n\<rparr>"

definition with_server :: "server \<Rightarrow> node \<Rightarrow> node" where
  "with_server v n = n\<lparr>nd_buffer := srv_requestBuffer v, nd_server_cache := srv_cache v, nd_request_pool := srv_requestPool v\<rparr>"

definition node_service :: "node \<Rightarrow> database \<Rightarrow> service" where
  "node_service n d = \<lparr>sv_cache = nd_service_cache n, sv_db = d, sv_pool = nd_delivery_pool n\<rparr>"

definition with_service :: "service \<Rightarrow> node \<Rightarrow> node" where
  "with_service v n = n\<lparr>nd_service_cache := sv_cache v, nd_delivery_pool := sv_pool v\<rparr>"

text \<open>
  \<open>stall\<close> says whether the cleanup of stalled events is among the steps, \<open>may\<close> with which settings,
  clocks and endpoints a delivery may happen.
\<close>

inductive service_step :: "bool \<Rightarrow> (delivery_env \<Rightarrow> bool) \<Rightarrow> system \<Rightarrow> system \<Rightarrow> bool"
  for stall :: bool and may :: "delivery_env \<Rightarrow> bool" where
  request: "k < length (sys_nodes s) \<Longrightarrow> n = sys_nodes s ! k \<Longrightarrow>
    handleWebhookEvent (bind :: json option \<Rightarrow> webhook_event result) now now' req (node_server n (sys_db s)) = (ans, v) \<Longrightarrow>
    service_step stall may s ((set_node k (with_server v n) s)\<lparr>sys_db := srv_db v\<rparr>)"
| store: "k < length (sys_nodes s) \<Longrightarrow> n = sys_nodes s ! k \<Longrightarrow> chan_recv (nd_buffer n) = Some (ev, b) \<Longrightarrow>
    v = processWebhookRequest now clock ev (node_server (n\<lparr>nd_buffer := b\<rparr>) (sys_db s)) \<Longrightarrow>
    service_step stall may s ((set_node k (with_server v n) s)\<lparr>sys_db := srv_db v\<rparr>)"
| notify: "k < length (sys_nodes s) \<Longrightarrow> n = sys_nodes s ! k \<Longrightarrow>
    event_handleNotification now now' (nd_id n) (\<lambda>q. q) payload (nd_queue n, sys_db s) = (r, q, d) \<Longrightarrow>
    service_step stall may s ((set_node k (n\<lparr>nd_queue := q\<rparr>) s)\<lparr>sys_db := d\<rparr>)"
| take: "k < length (sys_nodes s) \<Longrightarrow> n = sys_nodes s ! k \<Longrightarrow> chan_recv (nd_queue n) = Some (ev, q) \<Longrightarrow>
    service_step stall may s (set_node k (n\<lparr>nd_queue := q, nd_working := ev # nd_working n\<rparr>) s)"
| deliver: "k < length (sys_nodes s) \<Longrightarrow> n = sys_nodes s ! k \<Longrightarrow> ev \<in> set (nd_working n) \<Longrightarrow>
    v = processEvent env ev (node_service n (sys_db s)) \<Longrightarrow> may env \<Longrightarrow>
    service_step stall may s ((set_node k ((with_service v n)\<lparr>nd_working := remove1 ev (nd_working n)\<rparr>) s)\<lparr>sys_db := sv_db v\<rparr>)"
| retry: "service_step stall may s (s\<lparr>sys_db := processReadyRetries now ord (sys_db s)\<rparr>)"
| poll: "k < length (sys_nodes s) \<Longrightarrow> n = sys_nodes s ! k \<Longrightarrow>
    pollEvents now stop taken m (nd_id n) (nd_queue n, sys_db s) = (q, d) \<Longrightarrow>
    service_step stall may s ((set_node k (n\<lparr>nd_queue := q\<rparr>) s)\<lparr>sys_db := d\<rparr>)"
| cleanup: "stall \<Longrightarrow> service_step stall may s (s\<lparr>sys_db := CleanupStalledEvents now clock (sys_db s)\<rparr>)"
| config: "k < length (sys_nodes s) \<Longrightarrow> n = sys_nodes s ! k \<Longrightarrow>
    service_step stall may s (set_node k (n\<lparr>nd_server_cache := config_handleNotification payload (nd_server_cache n)\<rparr>) s)"
| crash: "k < length (sys_nodes s) \<Longrightarrow> n = sys_nodes s ! k \<Longrightarrow>
    service_step stall may s (set_node k (n\<lparr>nd_id := inst, nd_buffer := make_chan (ch_cap (nd_buffer n)), nd_queue := make_chan (ch_cap (nd_queue n)),
      nd_working := [], nd_server_cache := NewWebhookConfigCache cache_ttl, nd_service_cache := NewWebhookConfigCache cache_ttl\<rparr>) s)"
| refresh_server: "k < length (sys_nodes s) \<Longrightarrow> n = sys_nodes s ! k \<Longrightarrow>
    cache_RefreshAllConfigs key_order GetWebhookByID clk (nd_server_cache n, sys_db s) = (m, c, d) \<Longrightarrow>
    service_step stall may s ((set_node k (n\<lparr>nd_server_cache := c\<rparr>) s)\<lparr>sys_db := d\<rparr>)"
| refresh_service: "k < length (sys_nodes s) \<Longrightarrow> n = sys_nodes s ! k \<Longrightarrow>
    cache_RefreshAllConfigs key_order GetWebhookByID clk (nd_service_cache n, sys_db s) = (m, c, d) \<Longrightarrow>
    service_step stall may s ((set_node k (n\<lparr>nd_service_cache := c\<rparr>) s)\<lparr>sys_db := d\<rparr>)"
| workers: "k < length (sys_nodes s) \<Longrightarrow> n = sys_nodes s ! k \<Longrightarrow>
    pool_do a (nd_request_pool n) = Some p \<Longrightarrow> pool_do a' (nd_delivery_pool n) = Some p' \<Longrightarrow>
    service_step stall may s (set_node k (n\<lparr>nd_request_pool := p, nd_delivery_pool := p'\<rparr>) s)"
| outside: "cr_id ` set (db_configs (sys_db s)) \<subseteq> cr_id ` set cs \<Longrightarrow>
    service_step stall may s (s\<lparr>sys_db := (sys_db s)\<lparr>db_configs := cs, db_faults := fs, db_locked := ls\<rparr>\<rparr>)"

abbreviation sys_step :: "bool \<Rightarrow> system \<Rightarrow> system \<Rightarrow> bool" where
  "sys_step stall \<equiv> service_step stall (\<lambda>_. True)"

lemma service_step_mono:
  assumes "service_step stall may s s'" and "\<And>env. may env \<Longrightarrow> may' env"
  shows "service_step stall may' s s'"
  using assms(1)
  by induction (rule service_step.intros; (assumption | (rule assms(2), assumption)))+

definition sys_start :: "system \<Rightarrow> bool" where
  "sys_start s \<longleftrightarrow> db_wf (sys_db s) \<and> reads_back (sys_db s) \<and>
     (\<forall>n \<in> set (sys_nodes s). ch_buf (nd_buffer n) = [] \<and> ch_buf (nd_queue n) = [] \<and> nd_working n = [])"

section \<open>What is in a channel is in the table\<close>

definition matches_row :: "webhook_event \<Rightarrow> event_row \<Rightarrow> bool" where
  "matches_row ev r \<longleftrightarrow> ev_ID ev = show_int (er_id r) \<and> ev_WebhookID ev = show_int (er_webhook_id r) \<and>
     ev_EventName ev = er_event_name r \<and> ev_EventTime ev = er_event_time r \<and>
     UnmarshalSubscriber (er_subscriber_data r) zero_subscriber = Inr (ev_Subscriber ev) \<and>
     (case er_segment_data r of None \<Rightarrow> ev_Segment ev = None
        | Some j \<Rightarrow> \<exists>sg. UnmarshalSegment j zero_segment = Inr sg \<and> ev_Segment ev = Some sg)"

definition queued_ok :: "database \<Rightarrow> webhook_event \<Rightarrow> bool" where
  "queued_ok d ev \<longleftrightarrow> 0 \<le> ev_Attempts ev \<and> (\<exists>r \<in> set (db_events d). matches_row ev r)"

text \<open>The events an instance has claimed: those in its channel and those its workers are delivering.\<close>

definition node_events :: "node \<Rightarrow> webhook_event list" where
  "node_events n = ch_buf (nd_queue n) @ nd_working n"

definition node_ok :: "database \<Rightarrow> node \<Rightarrow> bool" where
  "node_ok d n \<longleftrightarrow> chan_ok (nd_queue n) \<and> (\<forall>ev \<in> set (node_events n). queued_ok d ev)"

definition sys_ok :: "system \<Rightarrow> bool" where
  "sys_ok s \<longleftrightarrow> db_wf (sys_db s) \<and> reads_back (sys_db s) \<and> (\<forall>n \<in> set (sys_nodes s). node_ok (sys_db s) n)"

text \<open>What no step undoes: the events and the attempts.\<close>

definition keeps_history :: "database \<Rightarrow> database \<Rightarrow> bool" where
  "keeps_history d d' \<longleftrightarrow> db_int4in d' = db_int4in d \<and> (\<exists>new. list_all2 same_origin (db_events d @ new) (db_events d')) \<and>
     (\<exists>new. db_deliveries d' = db_deliveries d @ new)"

lemma grows_history: "db_grows d d' \<Longrightarrow> keeps_history d d'"
  by (simp add: db_grows_def keeps_history_def)

lemma history_refl: "keeps_history d d"
  by (rule grows_history) (simp add: same_tables_grows)

lemma history_trans: "keeps_history a b \<Longrightarrow> keeps_history b c \<Longrightarrow> keeps_history a c"
  using db_grows_trans [of "a\<lparr>db_configs := [], db_next_event := 0\<rparr>" "b\<lparr>db_configs := [], db_next_event := 0\<rparr>"
      "c\<lparr>db_configs := [], db_next_event := 0\<rparr>"]
  by (auto simp: keeps_history_def db_grows_def)

lemma history_reads_back: "keeps_history d d' \<Longrightarrow> reads_back d \<Longrightarrow> reads_back d'"
  by (simp add: keeps_history_def reads_back_def)

lemma matches_same_origin: "same_origin r r' \<Longrightarrow> matches_row ev r \<Longrightarrow> matches_row ev r'"
  by (simp add: same_origin_def matches_row_def)

lemma history_row:
  assumes "keeps_history d d'" and "r \<in> set (db_events d)"
  shows "\<exists>r' \<in> set (db_events d'). same_origin r r'"
proof -
  obtain new where l: "list_all2 same_origin (db_events d @ new) (db_events d')"
    using assms(1) by (auto simp: keeps_history_def)
  obtain k where k: "k < length (db_events d)" "db_events d ! k = r" using assms(2) by (auto simp: in_set_conv_nth)
  then have "same_origin ((db_events d @ new) ! k) (db_events d' ! k)" "k < length (db_events d')"
    using list_all2_nthD [OF l, of k] list_all2_lengthD [OF l] by simp_all
  then show ?thesis using k by (metis nth_append nth_mem)
qed

lemma history_queued: "keeps_history d d' \<Longrightarrow> queued_ok d ev \<Longrightarrow> queued_ok d' ev"
  unfolding queued_ok_def by (meson history_row matches_same_origin)

lemma history_node: "keeps_history d d' \<Longrightarrow> node_ok d n \<Longrightarrow> node_ok d' n"
  using history_queued by (auto simp: node_ok_def)

lemma matches_scan: "scanEventFromRow r = Inr ev \<Longrightarrow> matches_row ev r"
  using scan_fields [of r ev] by (simp add: matches_row_def)

section \<open>Frames of the steps\<close>

lemma atomic_GetAndMarkEventByID: "db_atomic (GetAndMarkEventByID now s inst)"
  using atomic_withTransaction [of "claim_tx now s inst"]
  by (auto simp: GetAndMarkEventByID_def db_atomic_def dbm_bind_def dbm_ret_def split: prod.splits sum.splits)

lemma atomic_ReleaseEvent: "db_atomic (ReleaseEvent now s)"
  unfolding ReleaseEvent_def by (rule atomic_withTransaction)

lemma handle_cases:
  assumes h: "event_handleNotification now now' inst (\<lambda>q. q) payload (q, d) = (r, q', d')"
  obtains (none) "q' = q" "same_tables d d'"
  | (sent) s ev where "GetAndMarkEventByID now s inst d = (Inr ev, d')" "chan_room q" "q' = chan_send ev q"
  | (released) s ev d1 x where "GetAndMarkEventByID now s inst d = (Inr ev, d1)" "q' = q"
      "ReleaseEvent now' (ev_ID ev) d1 = (x, d')"
proof (cases "decode_notification payload")
  case (Inl e)
  then show ?thesis using h none by (simp add: event_handleNotification_def)
next
  case n: (Inr n)
  obtain g d1 where g: "GetAndMarkEventByID now (en_EventID n) inst d = (g, d1)" by (metis surj_pair)
  show ?thesis
  proof (cases g)
    case (Inl e)
    then have "same_tables d d1" using g atomic_GetAndMarkEventByID by (auto simp: db_atomic_def)
    then show ?thesis using h n g Inl none by (auto simp: event_handleNotification_def split: if_splits)
  next
    case (Inr ev)
    show ?thesis
    proof (cases "chan_room q")
      case True
      then show ?thesis using h n g Inr sent by (simp add: event_handleNotification_def select_send_def)
    next
      case False
      obtain x d2 where x: "ReleaseEvent now' (ev_ID ev) d1 = (x, d2)" by (metis surj_pair)
      have "d' = d2 \<and> q' = q"
        using h n g Inr False x by (cases x) (auto simp: event_handleNotification_def select_send_def)
      then show ?thesis using g Inr x released by blast
    qed
  qed
qed

lemma handleWebhookEvent_tables:
  assumes "handleWebhookEvent bind now now' req s = (ans, s')"
  shows "same_tables (srv_db s) (srv_db s')"
proof (cases "bind req")
  case (Inr event)
  obtain g c d where g: "cache_ValidateWebhook GetWebhookByID now now' (ev_WebhookID event) (ev_EventName event)
      (srv_cache s, srv_db s) = (g, c, d)" by (metis surj_pair)
  obtain x d1 where f: "GetWebhookByID (ev_WebhookID event) (srv_db s) = (x, d1)" by force
  have "same_tables (srv_db s) d1" using db_keepsD [OF tables_GetWebhookByID f] .
  then have "same_tables (srv_db s) d" using g f
    by (auto simp: cache_ValidateWebhook_def split: option.splits sum.splits goerr.splits)
  then show ?thesis using assms Inr g
    by (auto simp: handleWebhookEvent_def Let_def select_send_def split: option.splits sum.splits if_splits)
qed (use assms in \<open>simp add: handleWebhookEvent_def\<close>)

lemma store_step_db:
  "srv_db (processWebhookRequest now clock ev s) = snd (EnqueueEvent now ev (srv_db s))"
  by (auto simp: processWebhookRequest_def Let_def split: prod.split sum.split)

lemma node_events_same [simp]:
  "node_events (with_server v n) = node_events n" "node_events (with_service w n) = node_events n"
  "node_events (n\<lparr>nd_server_cache := c\<rparr>) = node_events n" "node_events (n\<lparr>nd_service_cache := c\<rparr>) = node_events n"
  "node_events (n\<lparr>nd_request_pool := p, nd_delivery_pool := p'\<rparr>) = node_events n"
  by (simp_all add: node_events_def with_server_def with_service_def)

lemma with_node_queue [simp]: "nd_queue (with_server v n) = nd_queue n" "nd_queue (with_service w n) = nd_queue n"
  "nd_working (with_service w n) = nd_working n"
  by (simp_all add: with_server_def with_service_def)

lemma refresh_each_tables:
  assumes "refresh_each GetWebhookByID clk ids a (c, d) = (m, c', d')"
  shows "same_tables d d'"
  using assms
proof (induction ids arbitrary: clk a c d)
  case (Cons i ids)
  obtain k e where a: "a = (k, e)" by force
  obtain x d1 where x: "GetWebhookByID i d = (x, d1)" by force
  have t: "same_tables d d1" using db_keepsD [OF tables_GetWebhookByID x] .
  have "\<exists>clk a c1. refresh_each GetWebhookByID clk ids a (c1, d1) = (m, c', d')"
    using Cons.prems x a by (cases x) (auto simp: cache_RefreshConfig_def)
  then show ?case using Cons.IH same_tables_trans [OF t] by blast
next
  case Nil
  then show ?case by (cases a) simp
qed

lemma refresh_tables:
  "cache_RefreshAllConfigs key_order GetWebhookByID clk (c, d) = (m, c', d') \<Longrightarrow> same_tables d d'"
  by (auto simp: cache_RefreshAllConfigs_def dest: refresh_each_tables)

lemma node_server_db [simp]: "srv_db (node_server n d) = d"
  by (simp add: node_server_def)

lemma node_service_db [simp]: "sv_db (node_service n d) = d"
  by (simp add: node_service_def)

lemma set_node_fields [simp]:
  "sys_db (set_node k n s) = sys_db s" "sys_nodes (set_node k n s) = (sys_nodes s)[k := n]"
  by (simp_all add: set_node_def)

section \<open>The invariant\<close>

lemma sys_okI:
  assumes ok: "sys_ok s" and wf: "wf_kept (sys_db s) d" and h: "keeps_history (sys_db s) d" and n: "node_ok (sys_db s) n"
  shows "sys_ok ((set_node k n s)\<lparr>sys_db := d\<rparr>)"
proof -
  have "\<forall>m \<in> set (sys_nodes s). node_ok d m" using ok history_node [OF h] by (auto simp: sys_ok_def)
  then have "\<forall>m \<in> set ((sys_nodes s)[k := n]). node_ok d m"
    using history_node [OF h n] set_update_subset_insert [of "sys_nodes s" k n] by auto
  then show ?thesis using ok wf history_reads_back [OF h] by (simp add: sys_ok_def wf_kept_def)
qed

lemma sys_ok_node:
  assumes "sys_ok s" and "node_ok (sys_db s) n"
  shows "sys_ok (set_node k n s)"
proof -
  have "sys_ok ((set_node k n s)\<lparr>sys_db := sys_db s\<rparr>)"
    using assms history_refl by (intro sys_okI) (auto simp: wf_kept_def)
  then show ?thesis by (simp add: set_node_def)
qed

lemma sys_ok_db:
  assumes "sys_ok s" and "wf_kept (sys_db s) d" and h: "keeps_history (sys_db s) d"
  shows "sys_ok (s\<lparr>sys_db := d\<rparr>)"
  using assms history_node [OF h] history_reads_back [OF h] by (auto simp: sys_ok_def wf_kept_def)

lemma recv_node_ok:
  assumes "node_ok d n" and "chan_recv (nd_queue n) = Some (ev, q)"
  shows "node_ok d (n\<lparr>nd_queue := q, nd_working := ev # nd_working n\<rparr>)"
  using assms by (auto simp: node_ok_def node_events_def chan_ok_def chan_len_def elim!: chan_recv_Some)

lemma node_ok_same:
  "node_ok d n \<Longrightarrow> nd_queue m = nd_queue n \<Longrightarrow> node_events m = node_events n \<Longrightarrow> node_ok d m"
  by (simp add: node_ok_def)

lemma claim_queued:
  assumes "GetAndMarkEventByID now s inst d = (Inr ev, d')" and "reads_back d" and "db_wf d"
  shows "queued_ok d ev"
proof -
  from claim_InrE [OF assms(1,2)] obtain r where r: "r \<in> set (db_events d)"
    "scanEventFromRow r = Inr (ev\<lparr>ev_ProcessingInstance := er_processing_instance r\<rparr>)" by blast
  have "0 \<le> er_attempts r" using assms(3) r(1) by (simp add: db_wf_def row_ok_def)
  moreover have "matches_row ev r" using matches_scan [OF r(2)] by (auto simp: matches_row_def split: option.splits)
  ultimately show ?thesis using r scan_fields(6) [OF r(2)] by (auto simp: queued_ok_def)
qed

lemma sys_step_history:
  assumes "sys_step stall s s'"
  shows "keeps_history (sys_db s) (sys_db s')"
  using assms
proof cases
  case (request k n bind now now' req ans v)
  then show ?thesis using handleWebhookEvent_tables [OF request(4)] by (simp add: grows_history same_tables_grows)
next
  case (store k n ev b v now clock)
  then show ?thesis using hist_EnqueueEvent by (simp add: store_step_db db_keeps_def grows_history)
next
  case (notify k n now now' payload r q d)
  then show ?thesis using hist_handleNotification [OF notify(4)] by (simp add: grows_history)
next
  case (deliver k n ev v env)
  then show ?thesis using hist_processEvent [of "node_service n (sys_db s)"] by (simp add: grows_history)
next
  case (poll k n now stop taken m q d)
  then show ?thesis using pollEvents_tables [of now stop taken m "nd_id n" "nd_queue n" "sys_db s"]
    by (auto simp: grows_history same_tables_grows)
next
  case (refresh_server k n key_order clk m c d)
  then show ?thesis using refresh_tables by (auto simp: grows_history same_tables_grows)
next
  case (refresh_service k n key_order clk m c d)
  then show ?thesis using refresh_tables by (auto simp: grows_history same_tables_grows)
next
  case (outside cs fs ls)
  then show ?thesis using list_all2_same_origin_refl by (auto simp: keeps_history_def intro: exI [of _ "[]"])
qed (simp_all add: grows_history hist_processReadyRetries hist_CleanupStalledEvents history_refl)

lemma notify_node_ok:
  assumes ok: "sys_ok s" and n: "node_ok (sys_db s) n"
    and h: "event_handleNotification now now' inst (\<lambda>q. q) payload (nd_queue n, sys_db s) = (r, q, d)"
  shows "node_ok (sys_db s) (n\<lparr>nd_queue := q\<rparr>)"
  using h
proof (cases rule: handle_cases)
  case (sent i ev)
  have "queued_ok (sys_db s) ev" using claim_queued [OF sent(1)] ok by (simp add: sys_ok_def)
  then show ?thesis using n sent by (auto simp: node_ok_def node_events_def chan_ok_def chan_len_def chan_room_def)
qed (use n in \<open>simp_all add: node_ok_def node_events_def\<close>)

lemma sys_step_ok:
  assumes "sys_step stall s s'" and ok: "sys_ok s"
  shows "sys_ok s'"
proof -
  have h: "keeps_history (sys_db s) (sys_db s')" using assms(1) by (rule sys_step_history)
  have node: "node_ok (sys_db s) (sys_nodes s ! k)" if "k < length (sys_nodes s)" for k
    using ok that by (auto simp: sys_ok_def)
  from assms(1) show ?thesis
  proof cases
    case (request k n bind now now' req ans v)
    have "same_tables (sys_db s) (srv_db v)" using handleWebhookEvent_tables [OF request(4)] by simp
    then show ?thesis using ok h request node_ok_same [OF node [of k]]
      by (auto intro!: sys_okI same_tables_wf_kept)
  next
    case (store k n ev b v now clock)
    then show ?thesis using ok h node_ok_same [OF node [of k]] wf_EnqueueEvent
      by (auto intro!: sys_okI simp: store_step_db db_keeps_def)
  next
    case (notify k n now now' payload r q d)
    then show ?thesis using ok h wf_handleNotification [OF notify(4)] notify_node_ok [OF ok _ notify(4)] node [of k]
      by (auto intro: sys_okI)
  next
    case (take k n ev q)
    then show ?thesis using ok recv_node_ok [OF _ take(4)] node [of k] by (auto intro: sys_ok_node)
  next
    case (deliver k n ev v env)
    have "queued_ok (sys_db s) ev" using node [of k] deliver by (auto simp: node_ok_def node_events_def)
    then have "wf_kept (sys_db s) (sv_db v)"
      using wf_processEvent [of ev "node_service n (sys_db s)" env] deliver by (simp add: queued_ok_def)
    moreover have "node_ok (sys_db s) ((with_service v n)\<lparr>nd_working := remove1 ev (nd_working n)\<rparr>)"
      using node [of k] deliver set_remove1_subset [of ev "nd_working n"] by (auto simp: node_ok_def node_events_def)
    ultimately show ?thesis using ok h deliver by (auto intro: sys_okI)
  next
    case (poll k n now stop taken m q d)
    obtain d2 where "q = nd_queue n" "same_tables (sys_db s) d"
      using pollEvents_tables [of now stop taken m "nd_id n" "nd_queue n" "sys_db s"] poll by auto
    then show ?thesis using ok h poll node [of k] by (auto intro!: sys_okI same_tables_wf_kept)
  next
    case (retry now ord)
    then show ?thesis using ok h wf_processReadyRetries by (auto intro: sys_ok_db)
  next
    case (cleanup now clock)
    then show ?thesis using ok h wf_CleanupStalledEvents by (auto intro: sys_ok_db)
  next
    case (config k n payload)
    then show ?thesis using ok node_ok_same [OF node [of k]] by (auto intro!: sys_ok_node)
  next
    case (crash k n inst)
    then show ?thesis using ok by (auto intro!: sys_ok_node simp: node_ok_def node_events_def) (simp add: make_chan_def)
  next
    case (refresh_server k n key_order clk m c d)
    then show ?thesis using ok h node_ok_same [OF node [of k]] refresh_tables [OF refresh_server(4)]
      by (auto intro!: sys_okI same_tables_wf_kept)
  next
    case (refresh_service k n key_order clk m c d)
    then show ?thesis using ok h node_ok_same [OF node [of k]] refresh_tables [OF refresh_service(4)]
      by (auto intro!: sys_okI same_tables_wf_kept)
  next
    case (workers k n a p a' p')
    then show ?thesis using ok node_ok_same [OF node [of k]] by (auto intro!: sys_ok_node)
  next
    case (outside cs fs ls)
    then have "wf_kept (sys_db s) (sys_db s')" by (auto simp: wf_kept_def db_wf_def)
    then have "sys_ok (s\<lparr>sys_db := sys_db s'\<rparr>)" using ok h by (intro sys_ok_db)
    then show ?thesis using outside by simp
  qed
qed

lemma sys_ok_start: "sys_start s \<Longrightarrow> sys_ok s"
  by (auto simp: sys_start_def sys_ok_def node_ok_def node_events_def chan_ok_def chan_len_def)

lemma sys_ok_run:
  assumes "(sys_step stall)\<^sup>*\<^sup>* s s'" and "sys_ok s"
  shows "sys_ok s'"
  using assms by (induction rule: rtranclp_induct) (auto intro: sys_step_ok)

lemma history_run:
  assumes "(sys_step stall)\<^sup>*\<^sup>* s s'"
  shows "keeps_history (sys_db s) (sys_db s')"
  using assms by (induction rule: rtranclp_induct) (auto intro: history_refl history_trans sys_step_history)

text \<open>C11: whatever happens, an event that is stored stays, unaltered. Along every run, with any faults,
  crashes, lost or repeated notifications, each event of the table keeps its id, webhook, name, time and
  data, no delivery attempt disappears, and the tables stay well formed.\<close>

theorem stored_events_survive:
  assumes "sys_start s0" and "(sys_step stall)\<^sup>*\<^sup>* s0 s" and "(sys_step stall)\<^sup>*\<^sup>* s s'" and "r \<in> set (db_events (sys_db s))"
  shows "(\<exists>r' \<in> set (db_events (sys_db s')). same_origin r r') \<and>
    (\<exists>new. db_deliveries (sys_db s') = db_deliveries (sys_db s) @ new) \<and> db_wf (sys_db s')"
proof -
  have "sys_ok s'" using sys_ok_run [OF assms(3)] sys_ok_run [OF assms(2)] sys_ok_start [OF assms(1)] by blast
  moreover have "keeps_history (sys_db s) (sys_db s')" using assms(3) by (rule history_run)
  ultimately show ?thesis using history_row [OF _ assms(4)] by (auto simp: sys_ok_def keeps_history_def)
qed

text \<open>C12: workers deliver what was stored. In every reachable state the channel of each instance is within
  its capacity, and each event in it, or in the hands of a worker, has a row with its id, webhook, name and
  time, whose stored subscriber is the one the event carries.\<close>

theorem queued_events_are_stored:
  assumes "sys_start s0" and "(sys_step stall)\<^sup>*\<^sup>* s0 s" and "n \<in> set (sys_nodes s)"
    and "ev \<in> set (ch_buf (nd_queue n)) \<union> set (nd_working n)"
  shows "length (ch_buf (nd_queue n)) \<le> ch_cap (nd_queue n) \<and> 0 \<le> ev_Attempts ev \<and>
    (\<exists>r \<in> set (db_events (sys_db s)). ev_ID ev = show_int (er_id r) \<and> ev_WebhookID ev = show_int (er_webhook_id r) \<and>
       ev_EventName ev = er_event_name r \<and> ev_EventTime ev = er_event_time r \<and>
       UnmarshalSubscriber (er_subscriber_data r) zero_subscriber = Inr (ev_Subscriber ev))"
proof -
  have "sys_ok s" using sys_ok_run [OF assms(2)] sys_ok_start [OF assms(1)] by blast
  then have n: "node_ok (sys_db s) n" using assms(3) by (simp add: sys_ok_def)
  then have q: "queued_ok (sys_db s) ev" using assms(4) by (auto simp: node_ok_def node_events_def)
  then have "\<exists>r \<in> set (db_events (sys_db s)). ev_ID ev = show_int (er_id r) \<and> ev_WebhookID ev = show_int (er_webhook_id r) \<and>
       ev_EventName ev = er_event_name r \<and> ev_EventTime ev = er_event_time r \<and>
       UnmarshalSubscriber (er_subscriber_data r) zero_subscriber = Inr (ev_Subscriber ev)"
    unfolding queued_ok_def matches_row_def by blast
  then show ?thesis using n q by (simp add: node_ok_def chan_ok_def chan_len_def queued_ok_def)
qed

section \<open>An event is in one channel at most\<close>

text \<open>What a method that names one event leaves alone.\<close>

definition row_only :: "int \<Rightarrow> database \<Rightarrow> database \<Rightarrow> bool" where
  "row_only i d d' \<longleftrightarrow> db_int4in d' = db_int4in d \<and> (\<forall>j. j \<noteq> i \<longrightarrow> event_by_id j d' = event_by_id j d)"

definition only_row :: "string \<Rightarrow> database \<Rightarrow> database \<Rightarrow> bool" where
  "only_row s d d' \<longleftrightarrow> db_int4in d' = db_int4in d \<and> (\<forall>j. db_int4in d s \<noteq> Some j \<longrightarrow> event_by_id j d' = event_by_id j d)"

lemma same_event_by_id: "same_tables d d' \<Longrightarrow> event_by_id i d' = event_by_id i d"
  by (simp add: event_by_id_def same_tables_fields)

interpretation one: db_frame "row_only i" for i
  by unfold_locales (auto simp: row_only_def same_tables_fields same_event_by_id)

interpretation named: db_frame "only_row s" for s
  by unfold_locales (auto simp: only_row_def same_tables_fields same_event_by_id)

lemma named_param:
  assumes "\<And>i. db_keeps (row_only i) (g i)"
  shows "db_keeps (only_row s) (dbm_bind (int4_param s) g)"
  unfolding db_keeps_def
proof
  fix d
  show "only_row s d (snd (dbm_bind (int4_param s) g d))"
  proof (cases "db_int4in d s")
    case None
    then show ?thesis by (simp add: dbm_bind_def int4_param_def only_row_def)
  next
    case (Some i)
    have "row_only i d (snd (g i d))" using assms by (simp add: db_keeps_def)
    then show ?thesis using Some by (simp add: dbm_bind_def int4_param_def only_row_def row_only_def)
  qed
qed

lemma one_update:
  assumes "\<And>r. er_id (f r) = er_id r"
  shows "db_keeps (row_only i) (update_events now (\<lambda>r. er_id r = i) f)"
proof -
  have "map_option (\<lambda>r. if j = i then f r else r) x = x" if "j \<noteq> i" for j x using that by (simp add: option.map_ident)
  then show ?thesis
    using assms by (simp add: db_keeps_def row_only_def update_one_ok event_by_id_def find_set_row)
qed

lemma one_insert_delivery: "db_keeps (row_only i) (insert_delivery now st rs er j)"
  by (auto simp: db_keeps_def row_only_def insert_delivery_def Let_def event_by_id_def)

lemma named_ReleaseEvent: "db_keeps (only_row s) (ReleaseEvent now s)"
  unfolding ReleaseEvent_def by (intro named.keeps_intros named_param one_update) simp

lemma named_UpdateEventStatus: "db_keeps (only_row s) (UpdateEventStatus now s st)"
  unfolding UpdateEventStatus_def by (intro named.keeps_intros named_param one.keeps_intros one_update) simp

lemma named_UpdateEventAttempts: "db_keeps (only_row s) (UpdateEventAttempts now s n la)"
  unfolding UpdateEventAttempts_def by (intro named.keeps_intros named_param one.keeps_intros one_update) simp

lemma named_UpdateRetrySchedule: "db_keeps (only_row s) (UpdateRetrySchedule now clock s delay)"
  unfolding UpdateRetrySchedule_def Let_def
  by (intro named.keeps_intros keeps_if named_param one_update) simp

lemma named_LogDeliveryAttempt: "only_row s d (LogDeliveryAttempt now s success response err d)"
proof -
  have "db_keeps (only_row s) (db_statement (dbm_bind (int4_param s) (insert_delivery now st response er)))" for st er
    by (intro named.keeps_intros named_param one_insert_delivery)
  then show ?thesis by (simp add: LogDeliveryAttempt_def db_keeps_def)
qed

lemma named_processEvent: "only_row (ev_ID ev) (sv_db s) (sv_db (processEvent env ev s))"
  by (rule processEvent_keeps [where R = "only_row (ev_ID ev)"])
    (auto intro: named.frame_same named.frame_trans named_LogDeliveryAttempt named_UpdateEventStatus
      named_UpdateEventAttempts named_UpdateRetrySchedule)

text \<open>
  An event in a channel is held: its row says that it is being processed. \<open>exclusive\<close>: the ids in all
  the channels together are distinct.
\<close>

definition held :: "database \<Rightarrow> webhook_event \<Rightarrow> bool" where
  "held d ev \<longleftrightarrow> (\<exists>i r. int4_range i \<and> ev_ID ev = show_int i \<and> event_by_id i d = Some r \<and> er_status r = ''processing'')"

definition all_claimed :: "system \<Rightarrow> webhook_event list" where
  "all_claimed s = concat (map node_events (sys_nodes s))"

definition exclusive :: "system \<Rightarrow> bool" where
  "exclusive s \<longleftrightarrow> distinct (map ev_ID (all_claimed s)) \<and> (\<forall>ev \<in> set (all_claimed s). held (sys_db s) ev)"

lemma all_claimed_node:
  assumes "k < length (sys_nodes s)"
  shows "\<exists>A B. all_claimed s = A @ node_events (sys_nodes s ! k) @ B \<and>
    (\<forall>n d. all_claimed ((set_node k n s)\<lparr>sys_db := d\<rparr>) = A @ node_events n @ B)"
proof -
  let ?f = node_events
  let ?A = "concat (map ?f (take k (sys_nodes s)))" and ?B = "concat (map ?f (drop (Suc k) (sys_nodes s)))"
  have "sys_nodes s = take k (sys_nodes s) @ sys_nodes s ! k # drop (Suc k) (sys_nodes s)"
    using assms by (rule id_take_nth_drop)
  then have "all_claimed s = ?A @ ?f (sys_nodes s ! k) @ ?B"
    unfolding all_claimed_def by (metis concat.simps(2) concat_append list.simps(9) map_append)
  moreover have "all_claimed ((set_node k n s)\<lparr>sys_db := d\<rparr>) = ?A @ ?f n @ ?B" for n d
    using assms by (simp add: all_claimed_def upd_conv_take_nth_drop)
  ultimately show ?thesis by blast
qed

lemma held_only_row:
  assumes "held d ev0" and "only_row (ev_ID ev) d d'" and "held d ev" and "ev_ID ev0 \<noteq> ev_ID ev" and "reads_back d"
  shows "held d' ev0"
proof -
  obtain i where i: "int4_range i" "ev_ID ev = show_int i" using assms(3) by (auto simp: held_def)
  obtain j r where j: "int4_range j" "ev_ID ev0 = show_int j" "event_by_id j d = Some r" "er_status r = ''processing''"
    using assms(1) by (auto simp: held_def)
  have "db_int4in d (ev_ID ev) = Some i" using assms(5) i by (simp add: reads_back_def)
  moreover have "i \<noteq> j" using assms(4) i(2) j(2) by auto
  ultimately have "event_by_id j d' = Some r" using assms(2) j(3) by (simp add: only_row_def)
  then show ?thesis using j by (auto simp: held_def)
qed

lemma held_found:
  assumes "\<And>i r. event_by_id i d = Some r \<Longrightarrow> event_by_id i d' = Some r" and "held d ev"
  shows "held d' ev"
  using assms(2) unfolding held_def by (elim exE conjE) (intro exI conjI assms(1))

lemma held_same: "same_tables d d' \<Longrightarrow> held d ev \<Longrightarrow> held d' ev"
  by (rule held_found) (simp add: same_event_by_id)

text \<open>The INSERT finds every row that was there.\<close>

definition finds :: "database \<Rightarrow> database \<Rightarrow> bool" where
  "finds d d' \<longleftrightarrow> (\<forall>i r. event_by_id i d = Some r \<longrightarrow> event_by_id i d' = Some r)"

interpretation finds: db_frame finds
  by unfold_locales (auto simp: finds_def same_event_by_id)

lemma find_append_some: "List.find P xs = Some x \<Longrightarrow> List.find P (xs @ ys) = Some x"
  by (induction xs) (auto split: if_splits)

lemma finds_EnqueueEvent: "db_keeps finds (EnqueueEvent now e)"
proof -
  have "db_keeps finds (insert_event now e sub seg w)" for sub seg w
    by (auto simp: db_keeps_def finds_def insert_event_def Let_def event_by_id_def find_append_some split: option.split)
  then show ?thesis unfolding EnqueueEvent_def StoreEvent_def by (intro finds.keeps_intros)
qed

lemma exclusiveI:
  assumes "exclusive s" and "mset (all_claimed s') = mset (all_claimed s)" and "\<And>ev. held (sys_db s) ev \<Longrightarrow> held (sys_db s') ev"
  shows "exclusive s'"
proof -
  have "set (all_claimed s') = set (all_claimed s)" using assms(2) by (rule mset_eq_setD)
  moreover have "distinct (map ev_ID (all_claimed s')) = distinct (map ev_ID (all_claimed s))"
    using assms(2) by (metis mset_eq_imp_distinct_iff mset_map)
  ultimately show ?thesis using assms(1,3) by (simp add: exclusive_def)
qed

lemma all_claimed_same:
  assumes "k < length (sys_nodes s)" and "mset (node_events n) = mset (node_events (sys_nodes s ! k))"
  shows "mset (all_claimed ((set_node k n s)\<lparr>sys_db := d\<rparr>)) = mset (all_claimed s)"
  using all_claimed_node [OF assms(1)] assms(2) by auto

text \<open>A claim finds a row nobody holds.\<close>

lemma exclusive_claim:
  assumes ex: "exclusive s" and ok: "sys_ok s" and c: "GetAndMarkEventByID now i inst (sys_db s) = (Inr ev, d)"
  shows "held d ev \<and> ev_ID ev \<notin> ev_ID ` set (all_claimed s) \<and> (\<forall>e \<in> set (all_claimed s). held d e)"
proof -
  have rb: "reads_back (sys_db s)" and wf: "db_wf (sys_db s)" using ok by (simp_all add: sys_ok_def)
  obtain j r where
    j: "db_int4in (sys_db s) i = Some j" "event_by_id j (sys_db s) = Some r" "er_status r = ''pending''"
      "event_by_id j d = Some (mark_processing inst now r)"
      "\<And>k. k \<noteq> j \<Longrightarrow> event_by_id k d = event_by_id k (sys_db s)" "ev_ID ev = show_int j"
    by (rule claim_event_by_id [OF c rb wf]) (rule that)
  have rng: "int4_range j" using rb j(1) by (simp add: reads_back_def)
  have "held d ev" using rng j by (auto simp: held_def mark_processing_def)
  moreover have "ev_ID e \<noteq> ev_ID ev \<and> held d e" if "e \<in> set (all_claimed s)" for e
  proof -
    have "held (sys_db s) e" using ex that by (simp add: exclusive_def)
    then obtain k x where k: "int4_range k" "ev_ID e = show_int k" "event_by_id k (sys_db s) = Some x" "er_status x = ''processing''"
      by (auto simp: held_def)
    then have "k \<noteq> j" using j(2,3) by auto
    then have "event_by_id k d = Some x" "ev_ID e \<noteq> ev_ID ev" using j(5,6) k by (simp_all add: show_int_inj)
    then show ?thesis using k by (auto simp: held_def)
  qed
  ultimately show ?thesis by (metis (no_types, lifting) image_iff)
qed

lemma exclusive_notify:
  assumes ok: "sys_ok s" and ex: "exclusive s" and k: "k < length (sys_nodes s)"
    and h: "event_handleNotification now now' inst (\<lambda>q. q) payload (nd_queue (sys_nodes s ! k), sys_db s) = (r, q, d)"
  shows "exclusive ((set_node k ((sys_nodes s ! k)\<lparr>nd_queue := q\<rparr>) s)\<lparr>sys_db := d\<rparr>)"
proof -
  let ?n = "sys_nodes s ! k"
  let ?s = "(set_node k (?n\<lparr>nd_queue := q\<rparr>) s)\<lparr>sys_db := d\<rparr>"
  obtain A B where A: "all_claimed s = A @ node_events ?n @ B" and B: "all_claimed ?s = A @ node_events (?n\<lparr>nd_queue := q\<rparr>) @ B"
    using all_claimed_node [OF k] by force
  have db: "sys_db ?s = d" by simp
  have dist: "distinct (map ev_ID (all_claimed s))" using ex by (simp add: exclusive_def)
  show ?thesis
    using h
  proof (cases rule: handle_cases)
    case none
    have "all_claimed ?s = all_claimed s" unfolding A B using none(1) by simp
    then show ?thesis using held_same [OF none(2)] db by (intro exclusiveI [OF ex]) simp_all
  next
    case (sent i ev)
    note c = exclusive_claim [OF ex ok sent(1)]
    have "mset (all_claimed ?s) = add_mset ev (mset (all_claimed s))" unfolding A B using sent(3) by (simp add: node_events_def)
    then have "mset (map ev_ID (all_claimed ?s)) = mset (ev_ID ev # map ev_ID (all_claimed s))"
      and aq: "set (all_claimed ?s) = insert ev (set (all_claimed s))"
      by (simp, metis set_mset_add_mset_insert set_mset_mset)
    then have "distinct (map ev_ID (all_claimed ?s))" using dist c mset_eq_imp_distinct_iff by fastforce
    moreover have "\<forall>e \<in> set (all_claimed ?s). held d e" using c unfolding aq by simp
    ultimately show ?thesis unfolding exclusive_def db by blast
  next
    case (released i ev d1 x)
    note c = exclusive_claim [OF ex ok released(1)]
    have rb: "reads_back d1"
      using ok db_keepsD [OF hist_GetAndMarkEventByID released(1)] by (simp add: sys_ok_def db_grows_def reads_back_def)
    have o: "only_row (ev_ID ev) d1 d" using db_keepsD [OF named_ReleaseEvent released(3)] .
    have "held d e" if "e \<in> set (all_claimed s)" for e
      using held_only_row [OF _ o _ _ rb, of e] c that by (metis image_eqI)
    moreover have "all_claimed ?s = all_claimed s" unfolding A B using released(2) by simp
    ultimately show ?thesis using dist unfolding exclusive_def db by simp
  qed
qed

lemma exclusive_deliver:
  assumes ok: "sys_ok s" and ex: "exclusive s" and k: "k < length (sys_nodes s)"
    and m: "mset (node_events (sys_nodes s ! k)) = add_mset ev (mset (node_events m))"
    and o: "only_row (ev_ID ev) (sys_db s) d"
  shows "exclusive ((set_node k m s)\<lparr>sys_db := d\<rparr>)"
proof -
  let ?s = "(set_node k m s)\<lparr>sys_db := d\<rparr>"
  obtain A B where A: "all_claimed s = A @ node_events (sys_nodes s ! k) @ B" and B: "all_claimed ?s = A @ node_events m @ B"
    using all_claimed_node [OF k] by force
  have ms: "mset (all_claimed s) = add_mset ev (mset (all_claimed ?s))" unfolding A B using m by simp
  then have set: "set (all_claimed s) = insert ev (set (all_claimed ?s))" by (metis set_mset_add_mset_insert set_mset_mset)
  have "mset (map ev_ID (all_claimed s)) = mset (ev_ID ev # map ev_ID (all_claimed ?s))" using ms by simp
  then have dist: "distinct (ev_ID ev # map ev_ID (all_claimed ?s))"
    using ex mset_eq_imp_distinct_iff unfolding exclusive_def by blast
  have rb: "reads_back (sys_db s)" using ok by (simp add: sys_ok_def)
  have h: "held (sys_db s) e" if "e \<in> set (all_claimed s)" for e using ex that by (simp add: exclusive_def)
  have "held d e" if e: "e \<in> set (all_claimed ?s)" for e
  proof (rule held_only_row [OF h o h _ rb])
    show "e \<in> set (all_claimed s)" "ev \<in> set (all_claimed s)" using e set by auto
    show "ev_ID e \<noteq> ev_ID ev" using e dist by (metis distinct.simps(2) image_eqI list.set_map)
  qed
  then show ?thesis using dist unfolding exclusive_def by simp
qed

lemma exclusive_db:
  assumes "exclusive s" and "sys_nodes s' = sys_nodes s" and "\<And>i. event_by_id i (sys_db s') = event_by_id i (sys_db s)"
  shows "exclusive s'"
  using assms(1)
proof (rule exclusiveI)
  show "mset (all_claimed s') = mset (all_claimed s)" by (simp add: all_claimed_def assms(2))
  show "held (sys_db s) ev \<Longrightarrow> held (sys_db s') ev" for ev by (simp add: held_def assms(3))
qed

lemma exclusive_node:
  assumes "exclusive s" and k: "k < length (sys_nodes s)" and "mset (node_events m) = mset (node_events (sys_nodes s ! k))"
    and "\<And>ev. held (sys_db s) ev \<Longrightarrow> held d ev"
  shows "exclusive ((set_node k m s)\<lparr>sys_db := d\<rparr>)"
  using assms(4) by (intro exclusiveI [OF assms(1)] all_claimed_same [OF k assms(3)]) simp

lemma retry_events: "event_by_id i (processReadyRetries now ord d) = event_by_id i d"
proof -
  obtain r d1 where c: "db_call d = (r, d1)" by force
  then have "same_tables d d1" using db_call_same [of d] by simp
  then have "db_events d1 = db_events d" by (simp add: same_tables_fields)
  with c show ?thesis
    by (cases r) (simp_all add: processReadyRetries_def db_statement_def dbm_bind_def check_retry_events_def Let_def event_by_id_def)
qed

lemma exclusive_step:
  assumes "sys_step False s s'" and ok: "sys_ok s" and ex: "exclusive s"
  shows "exclusive s'"
  using assms(1)
proof cases
  case (request k n bind now now' req ans v)
  have "same_tables (sys_db s) (srv_db v)" using handleWebhookEvent_tables [OF request(4)] by simp
  then show ?thesis unfolding request(1) using held_same by (intro exclusive_node [OF ex request(2)]) (simp_all add: request(3))
next
  case (store k n ev b v now clock)
  have "finds (sys_db s) (srv_db v)" using finds_EnqueueEvent store(5) by (simp add: store_step_db db_keeps_def)
  then have "held (sys_db s) ev \<Longrightarrow> held (srv_db v) ev" for ev unfolding finds_def by (auto intro: held_found)
  then show ?thesis unfolding store(1) by (intro exclusive_node [OF ex store(2)]) (simp_all add: store(3))
next
  case (notify k n now now' payload r q d)
  then show ?thesis using exclusive_notify [OF ok ex] by simp
next
  case (take k n ev q)
  have "mset (node_events (n\<lparr>nd_queue := q, nd_working := ev # nd_working n\<rparr>)) = mset (node_events n)"
    using take(4) by (auto simp: node_events_def)
  then have "exclusive ((set_node k (n\<lparr>nd_queue := q, nd_working := ev # nd_working n\<rparr>) s)\<lparr>sys_db := sys_db s\<rparr>)"
    by (intro exclusive_node [OF ex take(2)]) (simp_all add: take(3))
  then show ?thesis unfolding take(1) by (simp add: set_node_def)
next
  case (deliver k n ev v env)
  have "only_row (ev_ID ev) (sys_db s) (sv_db v)" using named_processEvent [of ev "node_service n (sys_db s)" env] deliver(5) by simp
  then show ?thesis unfolding deliver(1) using deliver(4)
    by (intro exclusive_deliver [OF ok ex deliver(2)]) (simp_all add: deliver(3) node_events_def)
next
  case (retry now ord)
  then show ?thesis by (intro exclusive_db [OF ex]) (simp_all add: retry_events)
next
  case (poll k n now stop taken m q d)
  have t: "q = nd_queue n" "same_tables (sys_db s) d"
    using pollEvents_tables [of now stop taken m "nd_id n" "nd_queue n" "sys_db s"] poll(4) by auto
  show ?thesis unfolding poll(1) using held_same [OF t(2)] by (intro exclusive_node [OF ex poll(2)]) (simp_all add: poll(3) t(1))
next
  case (config k n payload)
  let ?m = "n\<lparr>nd_server_cache := config_handleNotification payload (nd_server_cache n)\<rparr>"
  have "exclusive ((set_node k ?m s)\<lparr>sys_db := sys_db s\<rparr>)" by (intro exclusive_node [OF ex config(2)]) (simp_all add: config(3))
  then show ?thesis unfolding config(1) by (simp add: set_node_def)
next
  case (crash k n inst)
  let ?m = "n\<lparr>nd_id := inst, nd_buffer := make_chan (ch_cap (nd_buffer n)), nd_queue := make_chan (ch_cap (nd_queue n)),
      nd_working := [], nd_server_cache := NewWebhookConfigCache cache_ttl, nd_service_cache := NewWebhookConfigCache cache_ttl\<rparr>"
  have s': "s' = (set_node k ?m s)\<lparr>sys_db := sys_db s\<rparr>" using crash(1) by (simp add: set_node_def)
  obtain A B where A: "all_claimed s = A @ node_events (sys_nodes s ! k) @ B" and B: "all_claimed s' = A @ node_events ?m @ B"
    unfolding s' using all_claimed_node [OF crash(2)] by blast
  have B': "all_claimed s' = A @ B" unfolding B by (simp add: make_chan_def node_events_def)
  show ?thesis using ex unfolding exclusive_def A B' by (auto simp: s')
next
  case (refresh_server k n key_order clk m c d)
  show ?thesis unfolding refresh_server(1) using held_same [OF refresh_tables [OF refresh_server(4)]]
    by (intro exclusive_node [OF ex refresh_server(2)]) (simp_all add: refresh_server(3))
next
  case (refresh_service k n key_order clk m c d)
  show ?thesis unfolding refresh_service(1) using held_same [OF refresh_tables [OF refresh_service(4)]]
    by (intro exclusive_node [OF ex refresh_service(2)]) (simp_all add: refresh_service(3))
next
  case (workers k n a p a' p')
  have "exclusive ((set_node k (n\<lparr>nd_request_pool := p, nd_delivery_pool := p'\<rparr>) s)\<lparr>sys_db := sys_db s\<rparr>)"
    by (intro exclusive_node [OF ex workers(2)]) (simp_all add: workers(3))
  then show ?thesis unfolding workers(1) by (simp add: set_node_def)
next
  case (outside cs fs ls)
  then show ?thesis by (intro exclusive_db [OF ex]) (simp_all add: event_by_id_def)
qed simp

lemma start_claimed: "sys_start s \<Longrightarrow> all_claimed s = []"
  by (auto simp: sys_start_def all_claimed_def node_events_def)

text \<open>C3: without the cleanup of stalled events no event is handed out twice. In every state that can be
  reached without it, by any number of instances, notifications, faults and crashes, an event is in at
  most one channel or in the hands of one worker, once, and its row says that it is being processed.\<close>

theorem no_double_delivery_without_cleanup:
  assumes "sys_start s0" and "(sys_step False)\<^sup>*\<^sup>* s0 s"
  shows "distinct (map ev_ID (all_claimed s)) \<and>
    (\<forall>ev \<in> set (all_claimed s). \<exists>i r. ev_ID ev = show_int i \<and> event_by_id i (sys_db s) = Some r \<and> er_status r = ''processing'')"
proof -
  have "exclusive s0" using start_claimed [OF assms(1)] by (simp add: exclusive_def)
  with assms(2) have "exclusive s"
  proof (induction rule: rtranclp_induct)
    case (step a b)
    then show ?case using exclusive_step sys_ok_run [OF step.hyps(1) sys_ok_start [OF assms(1)]] by blast
  qed
  then show ?thesis unfolding exclusive_def held_def by blast
qed

end
