(* ===== verification/Lifecycle.thy ===== *)
theory Lifecycle
  imports System
begin

text \<open>
  What the service promises about an event, stated without tables, channels or instances: an event waits, is
  worked on, and ends delivered or abandoned. Without the cleanup of stalled rows the whole service
  refines this; the abstraction reads the \<open>status\<close> column.
\<close>

section \<open>The life of an event\<close>

datatype phase = Waiting | Working | Delivered | Abandoned

definition phase_of :: "string \<Rightarrow> phase" where
  "phase_of st = (if st = ''pending'' then Waiting else if st = ''processing'' then Working
     else if st = ''success'' then Delivered else Abandoned)"

type_synonym lives = "int \<Rightarrow> phase option"

inductive life_step :: "lives \<Rightarrow> lives \<Rightarrow> bool" where
  born: "A i = None \<Longrightarrow> life_step A (A(i \<mapsto> Waiting))"
| claimed: "A i = Some Waiting \<Longrightarrow> life_step A (A(i \<mapsto> Working))"
| ended: "A i = Some Working \<Longrightarrow> p \<in> {Waiting, Delivered, Abandoned} \<Longrightarrow> life_step A (A(i \<mapsto> p))"

inductive_simps life_step_iff: "life_step A B"

text \<open>In the abstract service an end is final.\<close>

lemma life_final_step:
  assumes "life_step A B" and "A i = Some p" and "p \<in> {Delivered, Abandoned}"
  shows "B i = Some p"
  using assms by (auto simp: life_step_iff)

lemma life_final:
  assumes "life_step\<^sup>*\<^sup>* A B" and "A i = Some p" and "p \<in> {Delivered, Abandoned}"
  shows "B i = Some p"
  using assms by (induction rule: rtranclp_induct) (auto dest: life_final_step)

section \<open>The abstraction\<close>

definition lives_in :: "database \<Rightarrow> lives" where
  "lives_in d = (\<lambda>i. map_option (\<lambda>r. phase_of (er_status r)) (event_by_id i d))"

abbreviation sys_lives :: "system \<Rightarrow> lives" where
  "sys_lives s \<equiv> lives_in (sys_db s)"

lemma lives_same: "(\<And>i. event_by_id i d' = event_by_id i d) \<Longrightarrow> lives_in d' = lives_in d"
  by (simp add: lives_in_def)

lemma lives_tables: "same_tables d d' \<Longrightarrow> lives_in d' = lives_in d"
  by (rule lives_same) (rule same_event_by_id)

lemma phase_cases: "row_ok r \<Longrightarrow> phase_of (er_status r) = Working \<or> phase_of (er_status r) \<in> {Waiting, Delivered, Abandoned}"
  by (cases "phase_of (er_status r)") auto

lemma history_found:
  assumes "keeps_history d d'" and "db_wf d'" and "event_by_id i d = Some r"
  shows "\<exists>r'. event_by_id i d' = Some r'"
proof -
  obtain r' where "r' \<in> set (db_events d')" "same_origin r r'"
    using history_row [OF assms(1)] event_by_id_SomeD [OF assms(3)] by blast
  then show ?thesis
    using event_by_id_in [OF wf_distinct [OF assms(2)]] event_by_id_SomeD [OF assms(3)] by (metis same_origin_def)
qed

text \<open>A step that touches one row, which is being worked on, ends the work or leaves it.\<close>

lemma lives_row:
  assumes o: "only_row (show_int i) d d'" and s: "db_int4in d (show_int i) = Some i"
    and r: "event_by_id i d = Some r" "er_status r = ''processing''"
    and h: "keeps_history d d'" and wf: "db_wf d'"
  shows "life_step\<^sup>*\<^sup>* (lives_in d) (lives_in d')"
proof -
  obtain r' where r': "event_by_id i d' = Some r'" using history_found [OF h wf r(1)] by blast
  let ?p = "phase_of (er_status r')"
  have e: "lives_in d' = (lives_in d)(i \<mapsto> ?p)"
    using o s r' by (auto simp: lives_in_def only_row_def fun_eq_iff)
  have w: "lives_in d i = Some Working" using r by (simp add: lives_in_def phase_of_def)
  show ?thesis
  proof (cases "?p = Working")
    case True
    then have "lives_in d' = lives_in d" using e w by (metis fun_upd_triv)
    then show ?thesis by simp
  next
    case False
    then have "?p \<in> {Waiting, Delivered, Abandoned}" by (cases ?p) auto
    from ended [where A = "lives_in d", OF w this] show ?thesis unfolding e by blast
  qed
qed

lemma lives_claim:
  assumes c: "GetAndMarkEventByID now s inst d = (Inr ev, d')" and rb: "reads_back d" and wf: "db_wf d"
  shows "\<exists>j r. ev_ID ev = show_int j \<and> int4_range j \<and> event_by_id j d' = Some r \<and> er_status r = ''processing'' \<and>
    life_step (lives_in d) (lives_in d')"
proof -
  obtain j r where
    j: "db_int4in d s = Some j" "event_by_id j d = Some r" "er_status r = ''pending''"
      "event_by_id j d' = Some (mark_processing inst now r)"
      "\<And>k. k \<noteq> j \<Longrightarrow> event_by_id k d' = event_by_id k d" "ev_ID ev = show_int j"
    by (rule claim_event_by_id [OF c rb wf]) (rule that)
  have w: "lives_in d j = Some Waiting" using j(2,3) by (simp add: lives_in_def phase_of_def)
  have "lives_in d' = (lives_in d)(j \<mapsto> Working)"
    using j(4,5) by (auto simp: lives_in_def fun_eq_iff mark_processing_def phase_of_def)
  then have "life_step (lives_in d) (lives_in d')" using claimed [where A = "lives_in d", OF w] by simp
  moreover have "int4_range j" using rb j(1) by (simp add: reads_back_def)
  ultimately show ?thesis using j(4,6) by (auto simp: mark_processing_def)
qed

lemma find_snoc: "List.find P (xs @ [y]) = (case List.find P xs of None \<Rightarrow> if P y then Some y else None | Some x \<Rightarrow> Some x)"
  by (induction xs) auto

text \<open>An INSERT brings one new event to life, or none.\<close>

definition births :: "database \<Rightarrow> database \<Rightarrow> bool" where
  "births d d' \<longleftrightarrow> (db_wf d \<longrightarrow> db_wf d' \<and> life_step\<^sup>*\<^sup>* (lives_in d) (lives_in d'))"

interpretation births: db_frame births
proof unfold_locales
  fix d d' assume t: "same_tables d d'"
  show "births d d'" using lives_tables [OF t] same_tables_wf [OF t] by (simp add: births_def)
qed (auto simp: births_def intro: rtranclp_trans)

lemma births_insert: "db_keeps births (insert_event now e sub seg w)"
  unfolding db_keeps_def
proof
  fix d
  let ?d = "snd (insert_event now e sub seg w d)"
  show "births d ?d"
    unfolding births_def
  proof
    assume wf: "db_wf d"
    have wf': "db_wf ?d" using wf_insert_event [of now e sub seg w] wf by (simp add: db_keeps_def wf_kept_def)
    show "db_wf ?d \<and> life_step\<^sup>*\<^sup>* (lives_in d) (lives_in ?d)"
    proof (cases "find_config w d")
      case None
      then have "lives_in ?d = lives_in d" by (simp add: insert_event_def Let_def lives_in_def event_by_id_def)
      with wf' show ?thesis by simp
    next
      case (Some c)
      let ?i = "db_next_event d"
      have new: "event_by_id ?i d = None" using wf by (auto simp: event_by_id_def find_None_all db_wf_def)
      then have n: "lives_in d ?i = None" by (simp add: lives_in_def)
      have "lives_in ?d = (lives_in d)(?i \<mapsto> Waiting)"
        using Some new by (auto simp: fun_eq_iff lives_in_def insert_event_def Let_def event_by_id_def find_snoc
            new_event_row_def phase_of_def split: option.split)
      with wf' born [where A = "lives_in d", OF n] show ?thesis by auto
    qed
  qed
qed

lemma births_EnqueueEvent: "db_keeps births (EnqueueEvent now e)"
  unfolding EnqueueEvent_def StoreEvent_def by (intro births.keeps_intros births_insert)

section \<open>The service refines the life of an event\<close>

definition life_inv :: "system \<Rightarrow> bool" where
  "life_inv s \<longleftrightarrow> sys_ok s \<and> exclusive s"

lemma held_lives:
  assumes inv: "life_inv s" and ev: "held d ev" and d: "reads_back d"
    and o: "only_row (ev_ID ev) d d'" and h: "keeps_history d d'" and wf: "db_wf d'"
  shows "life_step\<^sup>*\<^sup>* (lives_in d) (lives_in d')"
proof -
  obtain i r where i: "int4_range i" "ev_ID ev = show_int i" "event_by_id i d = Some r" "er_status r = ''processing''"
    using ev by (auto simp: held_def)
  have "db_int4in d (show_int i) = Some i" using d i(1) by (simp add: reads_back_def)
  then show ?thesis using lives_row [OF _ _ i(3,4) h wf] o i(2) by simp
qed

lemma lives_notify:
  assumes inv: "life_inv s" and ok': "db_wf d"
    and h: "event_handleNotification now now' inst (\<lambda>q. q) payload (nd_queue n, sys_db s) = (r, q, d)"
  shows "life_step\<^sup>*\<^sup>* (sys_lives s) (lives_in d)"
proof -
  have rb: "reads_back (sys_db s)" and wf: "db_wf (sys_db s)" using inv by (simp_all add: life_inv_def sys_ok_def)
  show ?thesis
    using h
  proof (cases rule: handle_cases)
    case none
    then show ?thesis using lives_tables by simp
  next
    case (sent i ev)
    then show ?thesis using lives_claim [OF sent(1) rb wf] by blast
  next
    case (released i ev d1 x)
    obtain j r where j: "ev_ID ev = show_int j" "int4_range j" "event_by_id j d1 = Some r" "er_status r = ''processing''"
      "life_step (sys_lives s) (lives_in d1)"
      using lives_claim [OF released(1) rb wf] by blast
    have rb1: "reads_back d1"
      using rb db_keepsD [OF hist_GetAndMarkEventByID released(1)] by (simp add: db_grows_def reads_back_def)
    have "life_step\<^sup>*\<^sup>* (lives_in d1) (lives_in d)"
    proof (rule lives_row [OF _ _ j(3,4)])
      show "only_row (show_int j) d1 d" using db_keepsD [OF named_ReleaseEvent released(3)] j(1) by simp
      show "db_int4in d1 (show_int j) = Some j" using rb1 j(2) by (simp add: reads_back_def)
      show "keeps_history d1 d" using db_keepsD [OF hist_ReleaseEvent released(3)] by (rule grows_history)
    qed (rule ok')
    with j(5) show ?thesis by (rule converse_rtranclp_into_rtranclp)
  qed
qed

lemma life_inv_step: "life_inv s \<Longrightarrow> sys_step False s s' \<Longrightarrow> life_inv s'"
  by (auto simp: life_inv_def intro: sys_step_ok exclusive_step)

lemma life_simulates:
  assumes inv: "life_inv s" and st: "sys_step False s s'"
  shows "life_step\<^sup>*\<^sup>* (sys_lives s) (sys_lives s')"
proof -
  have wf': "db_wf (sys_db s')" using life_inv_step [OF assms] by (simp add: life_inv_def sys_ok_def)
  have rb: "reads_back (sys_db s)" and wf: "db_wf (sys_db s)" using inv by (simp_all add: life_inv_def sys_ok_def)
  have h: "keeps_history (sys_db s) (sys_db s')" using st by (rule sys_step_history)
  from st show ?thesis
  proof cases
    case (request k n bind now now' req ans v)
    then show ?thesis using lives_tables handleWebhookEvent_tables [OF request(4)] by simp
  next
    case (store k n ev b v now clock)
    have "births (sys_db s) (sys_db s')" using births_EnqueueEvent store by (simp add: store_step_db db_keeps_def)
    then show ?thesis using wf by (simp add: births_def)
  next
    case (notify k n now now' payload r q d)
    then show ?thesis using lives_notify [OF inv _ notify(4)] wf' by simp
  next
    case (deliver k n ev v env)
    have "ev \<in> set (all_claimed s)" using deliver by (auto simp: all_claimed_def node_events_def)
    then have held: "held (sys_db s) ev" using inv by (simp add: life_inv_def exclusive_def)
    have "only_row (ev_ID ev) (sys_db s) (sys_db s')"
      using named_processEvent [of ev "node_service n (sys_db s)" env] deliver by simp
    then show ?thesis using held_lives [OF inv held rb _ h wf'] by simp
  next
    case (retry now ord)
    then show ?thesis using lives_same [OF retry_events] by simp
  next
    case (poll k n now stop taken m q d)
    then show ?thesis using lives_tables pollEvents_tables [of now stop taken m "nd_id n" "nd_queue n" "sys_db s"] by auto
  next
    case (refresh_server k n key_order clk m c d)
    then show ?thesis using lives_tables refresh_tables [OF refresh_server(4)] by simp
  next
    case (refresh_service k n key_order clk m c d)
    then show ?thesis using lives_tables refresh_tables [OF refresh_service(4)] by simp
  next
    case (outside cs fs ls)
    then show ?thesis using lives_same [of "sys_db s'" "sys_db s"] by (simp add: event_by_id_def)
  qed simp_all
qed

interpretation life: refines "sys_step False" life_step sys_lives life_inv
  by unfold_locales (auto intro: life_inv_step life_simulates)

lemma life_inv_start: "sys_start s \<Longrightarrow> life_inv s"
  using start_claimed [of s] by (simp add: life_inv_def sys_ok_start exclusive_def)



end
