(* ===== verification/Journey.thy ===== *)
theory Journey
  imports Lifecycle
begin

text \<open>
  The components composed: one event's way from the request to its delivery through one instance, and the
  rounds of an event that cannot be delivered.
\<close>

section \<open>From the request to the delivery\<close>

text \<open>
  A request; if it is accepted, a request worker stores the event, the listener handles the notification the
  INSERT sent, and a delivery worker takes the event from the channel and processes it. \<open>clk\<close> are the
  readings of the clocks up to the delivery, which has its own. The result is the status answered, the
  instance and the database.
\<close>

definition store_next :: "(nat \<Rightarrow> instant) \<Rightarrow> node \<Rightarrow> database \<Rightarrow> (node \<times> database) option" where
  "store_next clk n d = (case chan_recv (nd_buffer n) of
     None \<Rightarrow> None
   | Some (ev, b) \<Rightarrow> (let v = processWebhookRequest (clk 2) (clk 3) ev (node_server (n\<lparr>nd_buffer := b\<rparr>) d)
       in Some (with_server v n, srv_db v)))"

definition hear_last :: "(nat \<Rightarrow> instant) \<Rightarrow> node \<Rightarrow> database \<Rightarrow> node \<times> database" where
  "hear_last clk n d = (if db_notes d = [] then (n, d)
     else (case event_handleNotification (clk 4) (clk 5) (nd_id n) (\<lambda>q. q) (Some (last (db_notes d))) (nd_queue n, d) of
       (r, q, d') \<Rightarrow> (n\<lparr>nd_queue := q\<rparr>, d')))"

definition deliver_next :: "delivery_env \<Rightarrow> node \<Rightarrow> database \<Rightarrow> node \<times> database" where
  "deliver_next env n d = (case chan_recv (nd_queue n) of
     None \<Rightarrow> (n, d)
   | Some (ev, q) \<Rightarrow> (let v = processEvent env ev (node_service n d) in ((with_service v n)\<lparr>nd_queue := q\<rparr>, sv_db v)))"

definition journey :: "delivery_env \<Rightarrow> (nat \<Rightarrow> instant) \<Rightarrow> webhook_event \<Rightarrow> node \<Rightarrow> database \<Rightarrow> nat \<times> node \<times> database" where
  "journey env clk event n d =
     (case handleWebhookEvent (\<lambda>e. Inr e) (clk 0) (clk 1) event (node_server n d) of (ans, v) \<Rightarrow>
       (case store_next clk (with_server v n) (srv_db v) of
          None \<Rightarrow> (ans_status ans, with_server v n, srv_db v)
        | Some (n1, d1) \<Rightarrow> (case hear_last clk n1 d1 of (n2, d2) \<Rightarrow> (ans_status ans, deliver_next env n2 d2))))"

lemma handle_accepts:
  assumes nf: "db_faults (srv_db s) = []" and ag: "cache_agrees (current_config (srv_db s)) (srv_cache s)"
    and e: "event_complete event" "current_config (srv_db s) (ev_WebhookID event) = Some w" "ev_EventName event \<in> set (dto_Events w)"
    and room: "chan_room (srv_requestBuffer s)"
  shows "\<exists>c. cache_agrees (current_config (srv_db s)) c \<and> handleWebhookEvent (\<lambda>e. Inr e) now now' event s =
    (\<lparr>ans_status = 202, ans_body = [(''message'', ''Event accepted for processing'')]\<rparr>,
     s\<lparr>srv_cache := c, srv_requestBuffer := chan_send event (srv_requestBuffer s)\<rparr>)"
proof -
  obtain c where c: "cache_agrees (current_config (srv_db s)) c"
    "cache_ValidateWebhook GetWebhookByID now now' (ev_WebhookID event) (ev_EventName event) (srv_cache s, srv_db s) =
      (if db_int4in (srv_db s) (ev_WebhookID event) = None
       then Inl (Driver (''ERROR: invalid input syntax for type integer: '' @ ev_WebhookID event @ '' (SQLSTATE 22P02)''))
       else Inr (case current_config (srv_db s) (ev_WebhookID event) of None \<Rightarrow> False
         | Some w \<Rightarrow> ev_EventName event \<in> set (dto_Events w)), c, srv_db s)"
    using cache_Validate_ok [OF nf ag] by blast
  obtain k where "db_int4in (srv_db s) (ev_WebhookID event) = Some k" using e(2) by (auto simp: current_config_def split: option.splits)
  then show ?thesis
    using c e room by (intro exI [of _ c]) (simp add: handleWebhookEvent_def Event_Validate_iff [symmetric] select_send_def Let_def)
qed

lemma current_config_row:
  assumes "current_config d s = Some w"
  obtains i where "db_int4in d s = Some i" "i \<in> cr_id ` set (db_configs d)"
proof -
  obtain i c where "db_int4in d s = Some i" "find_config i d = Some c"
    using assms by (auto simp: current_config_def split: option.splits)
  moreover from this(2) have "c \<in> set (db_configs d) \<and> cr_id c = i" unfolding find_config_def by (rule find_Some_in)
  ultimately show ?thesis using that by blast
qed

text \<open>What an idle instance looks like: empty channels with room, and caches that are up to date.\<close>

definition idle_node :: "database \<Rightarrow> node \<Rightarrow> bool" where
  "idle_node d n \<longleftrightarrow> ch_buf (nd_buffer n) = [] \<and> 0 < ch_cap (nd_buffer n) \<and> ch_buf (nd_queue n) = [] \<and> 0 < ch_cap (nd_queue n) \<and>
     cache_agrees (current_config d) (nd_server_cache n) \<and> cache_agrees (current_config d) (nd_service_cache n)"

text \<open>Rows keep their places under a change of one of them.\<close>

definition row_becomes :: "int \<Rightarrow> event_row \<Rightarrow> database \<Rightarrow> database \<Rightarrow> bool" where
  "row_becomes i r' d d' \<longleftrightarrow> (\<forall>j. event_by_id j d' = map_option (\<lambda>r. if j = i then r' else r) (event_by_id j d))"

text \<open>A waiting row is claimed and its event processed, with whatever answer the endpoint gives.\<close>

lemma claim_and_process:
  fixes inst :: string and now :: instant
  assumes nf: "db_faults d = []" and wf: "db_wf d" and rb: "reads_back d" and i: "int4_range i" "i \<notin> set (db_locked d)"
    and r: "event_by_id i d = Some r" "er_status r = ''pending''" "scanEventFromRow r = Inr ev"
    and ag: "cache_agrees (current_config d) c" and w: "current_config d (show_int (er_webhook_id r)) = Some w"
  defines "ev' \<equiv> ev\<lparr>ev_ProcessingInstance := Some inst\<rparr>"
    and "d1 \<equiv> d\<lparr>db_events := set_row i (mark_processing inst now) (db_events d)\<rparr>"
  obtains success response err c' d' where
    "de_deliver env (dto_PostURL w) ev' = (success, response, err)"
    "processEvent env ev' \<lparr>sv_cache = c, sv_db = d1, sv_pool = p\<rparr> =
      \<lparr>sv_cache = c', sv_db = d', sv_pool = delivered_metrics env ev' success p\<rparr>"
    "cache_agrees (current_config d') c'" "current_config d' = current_config d" "db_faults d' = []" "db_locked d' = db_locked d"
    "db_int4in d' = db_int4in d" "db_wf d'" "row_becomes i (delivered_row env ev' success (mark_processing inst now r)) d d'"
    "db_deliveries d' = db_deliveries d @ [\<lparr>dr_id = db_next_delivery d, dr_event_id = i,
      dr_status = (if success then ''success'' else ''failed''), dr_response = response,
      dr_error = (case err of None \<Rightarrow> [] | Some e \<Rightarrow> err_text e), dr_timestamp = de_clock env 2\<rparr>]"
proof -
  have id: "r \<in> set (db_events d)" "er_id r = i" using event_by_id_SomeD [OF r(1)] by simp_all
  have si: "db_int4in d1 (ev_ID ev') = Some i" "ev_WebhookID ev' = show_int (er_webhook_id r)" "ev_Attempts ev' = er_attempts r"
    using scan_fields [OF r(3)] id rb i(1) by (simp_all add: ev'_def d1_def reads_back_def)
  have r1: "event_by_id i d1 = Some (mark_processing inst now r)" using r(1) by (simp add: d1_def event_by_id_def find_set_row)
  have cur1: "current_config d1 = current_config d" by (rule current_config_cong) (simp_all add: d1_def)
  obtain success response err where del: "de_deliver env (dto_PostURL w) ev' = (success, response, err)" by (metis prod_cases3)
  obtain c' d' where p: "processEvent env ev' \<lparr>sv_cache = c, sv_db = d1, sv_pool = p\<rparr> =
      \<lparr>sv_cache = c', sv_db = d', sv_pool = delivered_metrics env ev' success p\<rparr>"
    "cache_agrees (current_config d') c'" "db_faults d' = []" "db_int4in d' = db_int4in d1" "db_configs d' = db_configs d1"
    "db_locked d' = db_locked d1"
    "\<And>j. event_by_id j d' = map_option (\<lambda>r. if j = i then delivered_row env ev' success r else r) (event_by_id j d1)"
    "db_deliveries d' = db_deliveries d1 @ [\<lparr>dr_id = db_next_delivery d1, dr_event_id = i,
      dr_status = (if success then ''success'' else ''failed''), dr_response = response,
      dr_error = (case err of None \<Rightarrow> [] | Some e \<Rightarrow> err_text e), dr_timestamp = de_clock env 2\<rparr>]"
    using processEvent_ok [of d1 c ev' w i _ env success response err p] ag w cur1 r1 si del nf by (auto simp: d1_def)
  have "event_by_id j d' = map_option (\<lambda>x. if j = i then delivered_row env ev' success (mark_processing inst now r) else x)
      (event_by_id j d)" for j
    using p(7) [of j] r(1) by (cases "event_by_id j d") (auto simp: d1_def event_by_id_def find_set_row)
  then have b: "row_becomes i (delivered_row env ev' success (mark_processing inst now r)) d d'" by (simp add: row_becomes_def)
  have "0 \<le> ev_Attempts ev'" using si(3) wf id(1) by (auto simp: db_wf_def row_ok_def)
  from wf_processEvent [OF this, of "\<lparr>sv_cache = c, sv_db = d1, sv_pool = p\<rparr>" env] claimed_wf [OF wf, of i inst now, folded d1_def]
  have wf': "db_wf d'" by (simp add: p(1) wf_kept_def)
  have "current_config d' = current_config d" by (rule current_config_cong) (use p in \<open>simp_all add: d1_def\<close>)
  then show ?thesis using that [OF del p(1,2) _ p(3) _ _ wf' b] p by (simp add: d1_def)
qed

text \<open>C7: an accepted event is delivered, once, to the URL of its webhook. When no call fails and the delivery
  succeeds, the request of a complete event of a type its webhook allows, sent to an idle instance, is answered
  with 202, and after one storing, one notification and one delivery the event's row, under the next id, says
  \<open>success\<close>, the delivery attempts have one more entry, for that event, and the instance is idle again.\<close>

theorem accepted_event_is_delivered:
  assumes nf: "db_faults d = []" and wf: "db_wf d" and rb: "reads_back d" and idle: "idle_node d n"
    and e: "event_complete e" "current_config d (ev_WebhookID e) = Some w" "ev_EventName e \<in> set (dto_Events w)"
      "subscriber_marshals (ev_Subscriber e)"
    and i: "int4_range (db_next_event d)" "db_next_event d \<notin> set (db_locked d)" and t: "stamp_ok (clk 2)"
    and del: "\<And>ev. ev_Subscriber ev = ev_Subscriber e \<Longrightarrow> ev_EventName ev = ev_EventName e \<Longrightarrow>
      de_deliver env (dto_PostURL w) ev = (True, response, err)"
  shows "\<exists>n' d' r a. journey env clk e n d = (202, n', d') \<and> idle_node d' n' \<and>
    event_by_id (db_next_event d) d' = Some r \<and> er_status r = ''success'' \<and> er_event_name r = ev_EventName e \<and>
    db_deliveries d' = db_deliveries d @ [a] \<and> dr_event_id a = db_next_event d \<and> dr_status a = ''success'' \<and> dr_response a = response"
proof -
  let ?i = "db_next_event d"
  note [simp] = node_server_def node_service_def with_server_def with_service_def
  have room: "chan_room (nd_buffer n)" "chan_room (nd_queue n)"
    using idle by (simp_all add: idle_node_def chan_room_def chan_len_def)
  obtain k where k: "db_int4in d (ev_WebhookID e) = Some k" "k \<in> cr_id ` set (db_configs d)"
    by (rule current_config_row [OF e(2)]) (rule that)
  obtain c where c: "cache_agrees (current_config d) c" "handleWebhookEvent (\<lambda>e. Inr e) (clk 0) (clk 1) e (node_server n d) =
      (\<lparr>ans_status = 202, ans_body = [(''message'', ''Event accepted for processing'')]\<rparr>,
       (node_server n d)\<lparr>srv_cache := c, srv_requestBuffer := chan_send e (nd_buffer n)\<rparr>)"
    using handle_accepts [of "node_server n d" e w "clk 0" "clk 1"] nf idle e room by (auto simp: idle_node_def)
  obtain r where r: "StoreEvent (clk 2) e d = (Inr (show_int ?i), stored_db (clk 2) r d)" "db_wf (stored_db (clk 2) r d)"
    "event_by_id ?i (stored_db (clk 2) r d) = Some r" "er_status r = ''pending''" "er_webhook_id r = k" "er_id r = ?i"
    "er_event_name r = ev_EventName e" "scanEventFromRow r = Inr (stored_event ?i k (clk 2) e)"
    by (rule store_row [OF nf wf k e(4), of "clk 2"]) (rule that)
  let ?d1 = "stored_db (clk 2) r d"
  let ?ev = "(stored_event ?i k (clk 2) e)\<lparr>ev_ProcessingInstance := Some (nd_id n)\<rparr>"
  let ?d2 = "?d1\<lparr>db_events := set_row ?i (mark_processing (nd_id n) (clk 4)) (db_events ?d1)\<rparr>"
  have d1: "db_faults ?d1 = []" "db_int4in ?d1 = db_int4in d" "db_configs ?d1 = db_configs d" "db_locked ?d1 = db_locked d"
    "db_deliveries ?d1 = db_deliveries d" "db_notes ?d1 \<noteq> []" "last (db_notes ?d1) = notify_payload ''INSERT'' ?i k (clk 2)"
    by (simp_all add: stored_db_def nf r(5,6))
  have recv: "ch_buf q = [] \<Longrightarrow> chan_recv (chan_send x q) = Some (x, q)" for x and q :: "webhook_event chan"
    by (cases q) (simp add: chan_recv_def chan_send_def)
  obtain n1 where n1: "store_next clk (with_server ((node_server n d)\<lparr>srv_cache := c, srv_requestBuffer := chan_send e (nd_buffer n)\<rparr>) n) d =
      Some (n1, ?d1)" "nd_buffer n1 = nd_buffer n" "nd_queue n1 = nd_queue n" "nd_server_cache n1 = c"
      "nd_service_cache n1 = nd_service_cache n" "nd_id n1 = nd_id n"
    using idle recv by (simp add: store_next_def processWebhookRequest_def EnqueueEvent_def dbm_wrap_def r(1) idle_node_def Let_def)
  have h: "hear_last clk n1 ?d1 = (n1\<lparr>nd_queue := chan_send ?ev (nd_queue n)\<rparr>, ?d2)"
    using handle_sends [of ?d1 ?i r, OF d1(1) r(2) _ i(1) _ r(3,4) r(8) t, of "\<lambda>q. q" "nd_queue n" "clk 4" "clk 5" "nd_id n" "''INSERT''" k]
      i(2) rb room(2) d1 by (simp add: hear_last_def n1 reads_back_def)
  have "db_int4in d (show_int k) = Some k" using rb k(1) by (simp add: reads_back_def)
  then have w: "current_config d (show_int k) = Some w" using e(2) k(1) by (simp add: current_config_def)
  have cur1: "current_config ?d1 = current_config d" by (rule current_config_cong) (simp_all add: d1)
  have ev: "ev_Subscriber ?ev = ev_Subscriber e" "ev_EventName ?ev = ev_EventName e"
    by (simp_all add: stored_event_def zero_event_def)
  have pre: "reads_back ?d1" "?i \<notin> set (db_locked ?d1)" "cache_agrees (current_config ?d1) (nd_service_cache n)"
    "current_config ?d1 (show_int (er_webhook_id r)) = Some w"
    using rb i(2) idle w by (simp_all add: reads_back_def d1 cur1 idle_node_def r(5))
  obtain c' d' success response' err' where p: "de_deliver env (dto_PostURL w) ?ev = (success, response', err')"
    "processEvent env ?ev \<lparr>sv_cache = nd_service_cache n, sv_db = ?d2, sv_pool = nd_delivery_pool n1\<rparr> =
      \<lparr>sv_cache = c', sv_db = d', sv_pool = delivered_metrics env ?ev success (nd_delivery_pool n1)\<rparr>"
    "cache_agrees (current_config d') c'" "current_config d' = current_config ?d1"
    "row_becomes ?i (delivered_row env ?ev success (mark_processing (nd_id n) (clk 4) r)) ?d1 d'"
    "db_deliveries d' = db_deliveries ?d1 @ [\<lparr>dr_id = db_next_delivery ?d1, dr_event_id = ?i,
      dr_status = (if success then ''success'' else ''failed''), dr_response = response',
      dr_error = (case err' of None \<Rightarrow> [] | Some e \<Rightarrow> err_text e), dr_timestamp = de_clock env 2\<rparr>]"
    by (rule claim_and_process [OF d1(1) r(2) pre(1) i(1) pre(2) r(3,4,8) pre(3,4), where env = env and inst = "nd_id n" and now = "clk 4"
        and p = "nd_delivery_pool n1"]) (rule that)
  have ok: "success" "response' = response" using p(1) del [OF ev] by simp_all
  obtain n' where n': "deliver_next env (n1\<lparr>nd_queue := chan_send ?ev (nd_queue n)\<rparr>) ?d2 = (n', d')"
    "nd_buffer n' = nd_buffer n" "nd_queue n' = nd_queue n" "nd_server_cache n' = c" "nd_service_cache n' = c'"
    using idle recv p(2) by (simp add: deliver_next_def n1 idle_node_def)
  have idle': "idle_node d' n'" using idle c(1) p(3,4) cur1 by (simp add: idle_node_def n')
  have row: "event_by_id ?i d' = Some (delivered_row env ?ev True (mark_processing (nd_id n) (clk 4) r))"
    using p(5) r(3) ok by (simp add: row_becomes_def)
  have "journey env clk e n d = (202, n', d')"
    using c(2) n1(1) h n'(1) by (simp add: journey_def)
  with idle' row p(6) ok r(7) d1(5) show ?thesis by (simp add: delivered_row_def mark_processing_def)
qed

section \<open>An event that cannot be delivered\<close>

text \<open>
  One round: an instance claims the event and processes it. \<open>rounds\<close> are as many of them one after the other,
  each with its own environment; \<open>None\<close> is a claim that was refused.
\<close>

definition attempt :: "delivery_env \<Rightarrow> instant \<Rightarrow> string \<Rightarrow> string \<Rightarrow> service \<Rightarrow> service option" where
  "attempt env now inst eventID s = (case GetAndMarkEventByID now eventID inst (sv_db s) of
     (Inl e, d) \<Rightarrow> None
   | (Inr ev, d) \<Rightarrow> Some (processEvent env ev \<lparr>sv_cache = sv_cache s, sv_db = d, sv_pool = sv_pool s\<rparr>))"

fun rounds :: "(nat \<Rightarrow> delivery_env) \<Rightarrow> (nat \<Rightarrow> instant) \<Rightarrow> string \<Rightarrow> string \<Rightarrow> nat \<Rightarrow> service \<Rightarrow> service option" where
  "rounds envs clk inst eventID 0 s = Some s"
| "rounds envs clk inst eventID (Suc n) s = (case rounds envs clk inst eventID n s of
     None \<Rightarrow> None
   | Some s' \<Rightarrow> attempt (envs n) (clk n) inst eventID s')"

text \<open>An event that waits and can be claimed, with a current configuration; no call fails.\<close>

definition claimable :: "int \<Rightarrow> service \<Rightarrow> event_row \<Rightarrow> bool" where
  "claimable i s r \<longleftrightarrow> db_faults (sv_db s) = [] \<and> db_wf (sv_db s) \<and> reads_back (sv_db s) \<and> int4_range i \<and> i \<notin> set (db_locked (sv_db s)) \<and>
     cache_agrees (current_config (sv_db s)) (sv_cache s) \<and> event_by_id i (sv_db s) = Some r \<and> er_status r = ''pending'' \<and>
     (\<exists>ev. scanEventFromRow r = Inr ev) \<and> (\<exists>w. current_config (sv_db s) (show_int (er_webhook_id r)) = Some w)"

lemma scan_same_data:
  assumes "er_subscriber_data r' = er_subscriber_data r" and "er_segment_data r' = er_segment_data r" and "scanEventFromRow r = Inr ev"
  shows "\<exists>ev'. scanEventFromRow r' = Inr ev'"
  using assms by (auto simp: scanEventFromRow_def Let_def split: sum.splits option.splits)

lemma failing_round:
  assumes c: "claimable i s r" and fail: "\<And>url ev. fst (de_deliver env url ev) = False"
  shows "\<exists>s' r' a. attempt env now inst (show_int i) s = Some s' \<and> event_by_id i (sv_db s') = Some r' \<and>
    db_deliveries (sv_db s') = db_deliveries (sv_db s) @ [a] \<and> dr_event_id a = i \<and> dr_status a = ''failed'' \<and>
    (if er_attempts r + 1 \<ge> cfg_MaxRetries (de_cfg env) then er_status r' = ''failed''
     else claimable i s' r' \<and> er_attempts r' = er_attempts r + 1)"
proof -
  let ?d = "sv_db s"
  have nf: "db_faults ?d = []" and wf: "db_wf ?d" and rb: "reads_back ?d" and i: "int4_range i" "i \<notin> set (db_locked ?d)"
    and ag: "cache_agrees (current_config ?d) (sv_cache s)" and r: "event_by_id i ?d = Some r" "er_status r = ''pending''"
    using c by (simp_all add: claimable_def)
  obtain ev w where sc: "scanEventFromRow r = Inr ev" and w: "current_config ?d (show_int (er_webhook_id r)) = Some w"
    using c by (auto simp: claimable_def)
  let ?ev = "ev\<lparr>ev_ProcessingInstance := Some inst\<rparr>"
  let ?d1 = "?d\<lparr>db_events := set_row i (mark_processing inst now) (db_events ?d)\<rparr>"
  have si: "db_int4in ?d (show_int i) = Some i" using rb i(1) by (simp add: reads_back_def)
  have cl: "GetAndMarkEventByID now (show_int i) inst ?d = (Inr ?ev, ?d1)" by (rule claim_ok [OF nf wf rb si r i(2) sc])
  obtain success response err c' d' where p: "de_deliver env (dto_PostURL w) ?ev = (success, response, err)"
    "processEvent env ?ev \<lparr>sv_cache = sv_cache s, sv_db = ?d1, sv_pool = sv_pool s\<rparr> =
      \<lparr>sv_cache = c', sv_db = d', sv_pool = delivered_metrics env ?ev success (sv_pool s)\<rparr>"
    "cache_agrees (current_config d') c'" "current_config d' = current_config ?d" "db_faults d' = []" "db_locked d' = db_locked ?d"
    "db_int4in d' = db_int4in ?d" "db_wf d'" "row_becomes i (delivered_row env ?ev success (mark_processing inst now r)) ?d d'"
    "db_deliveries d' = db_deliveries ?d @ [\<lparr>dr_id = db_next_delivery ?d, dr_event_id = i,
      dr_status = (if success then ''success'' else ''failed''), dr_response = response,
      dr_error = (case err of None \<Rightarrow> [] | Some e \<Rightarrow> err_text e), dr_timestamp = de_clock env 2\<rparr>]"
    by (rule claim_and_process [OF nf wf rb i r sc ag w, where env = env and inst = inst and now = now and p = "sv_pool s"]) (rule that)
  have no: "success = False" using p(1) fail [of "dto_PostURL w" ?ev] by simp
  let ?s = "\<lparr>sv_cache = c', sv_db = d', sv_pool = delivered_metrics env ?ev False (sv_pool s)\<rparr>"
  let ?r = "delivered_row env ?ev False (mark_processing inst now r)"
  have at: "attempt env now inst (show_int i) s = Some ?s" by (simp add: attempt_def cl p(2) no)
  have r': "event_by_id i d' = Some ?r" using p(9) r(1) no by (simp add: row_becomes_def)
  have "\<exists>ev'. scanEventFromRow ?r = Inr ev'"
    by (rule scan_same_data [OF _ _ sc]) (simp_all add: delivered_row_def retry_row_def mark_processing_def)
  then have "claimable i ?s ?r" if "\<not> er_attempts r + 1 \<ge> cfg_MaxRetries (de_cfg env)"
    using that p r' rb i w scan_fields [OF sc]
    by (auto simp: claimable_def reads_back_def delivered_row_def retry_row_def mark_processing_def)
  then show ?thesis using at r' p(10) no scan_fields [OF sc]
    by (intro exI [of _ ?s] exI [of _ ?r] exI) (auto simp: delivered_row_def retry_row_def mark_processing_def)
qed

lemma failing_rounds:
  assumes c: "claimable i s r" and fail: "\<And>k url ev. fst (de_deliver (envs k) url ev) = False"
    and M: "\<And>k. cfg_MaxRetries (de_cfg (envs k)) = M" and n: "er_attempts r + int n < M \<or> n = 0"
  shows "\<exists>s' r' new. rounds envs clk inst (show_int i) n s = Some s' \<and> claimable i s' r' \<and> er_attempts r' = er_attempts r + int n \<and>
    db_deliveries (sv_db s') = db_deliveries (sv_db s) @ new \<and> length new = n \<and> (\<forall>a \<in> set new. dr_event_id a = i \<and> dr_status a = ''failed'')"
  using n
proof (induction n)
  case 0
  have "rounds envs clk inst (show_int i) 0 s = Some s" "er_attempts r = er_attempts r + int 0" "sv_db s = sv_db s" by simp_all
  then show ?case using c by (intro exI [of _ s] exI [of _ r] exI [of _ "[]"]) simp
next
  case (Suc n)
  then have "er_attempts r + int n < M \<or> n = 0" by auto
  from Suc.IH [OF this] obtain s' r' new where h: "rounds envs clk inst (show_int i) n s = Some s'" "claimable i s' r'"
    "er_attempts r' = er_attempts r + int n" "db_deliveries (sv_db s') = db_deliveries (sv_db s) @ new" "length new = n"
    "\<forall>a \<in> set new. dr_event_id a = i \<and> dr_status a = ''failed''"
    by blast
  obtain s2 r2 a where s2: "attempt (envs n) (clk n) inst (show_int i) s' = Some s2" "event_by_id i (sv_db s2) = Some r2"
    "db_deliveries (sv_db s2) = db_deliveries (sv_db s') @ [a]" "dr_event_id a = i" "dr_status a = ''failed''"
    "if er_attempts r' + 1 \<ge> cfg_MaxRetries (de_cfg (envs n)) then er_status r2 = ''failed''
     else claimable i s2 r2 \<and> er_attempts r2 = er_attempts r' + 1"
    using failing_round [OF h(2) fail [of n]] by blast
  have "\<not> er_attempts r' + 1 \<ge> M" using h(3) Suc.prems by auto
  then have c2: "claimable i s2 r2" "er_attempts r2 = er_attempts r' + 1" using s2(6) M by simp_all
  show ?case
    by (intro exI [of _ s2] exI [of _ r2] exI [of _ "new @ [a]"]) (use h s2 c2 in auto)
qed

text \<open>an event that cannot be delivered is given up after exactly \<open>MaxRetries\<close> attempts. When no call fails and
  every delivery does, an event that has made \<open>a\<close> attempts is still pending after fewer than \<open>MaxRetries - a\<close>
  rounds of claim and delivery, and marked as failed after that many (one at least); each round adds one failed
  attempt to the log.\<close>

theorem failing_event_is_abandoned:
  assumes "claimable i s r" and "\<And>k url ev. fst (de_deliver (envs k) url ev) = False"
    and "\<And>k. cfg_MaxRetries (de_cfg (envs k)) = M"
  shows "(\<forall>n. er_attempts r + int n < M \<longrightarrow> (\<exists>s' r'. rounds envs clk inst (show_int i) n s = Some s' \<and>
      event_by_id i (sv_db s') = Some r' \<and> er_status r' = ''pending'' \<and> er_attempts r' = er_attempts r + int n)) \<and>
    (\<exists>s' r' new. rounds envs clk inst (show_int i) (nat (max 1 (M - er_attempts r))) s = Some s' \<and>
      event_by_id i (sv_db s') = Some r' \<and> er_status r' = ''failed'' \<and>
      db_deliveries (sv_db s') = db_deliveries (sv_db s) @ new \<and> length new = nat (max 1 (M - er_attempts r)))"
proof (intro conjI allI impI)
  fix n assume "er_attempts r + int n < M"
  then show "\<exists>s' r'. rounds envs clk inst (show_int i) n s = Some s' \<and>
      event_by_id i (sv_db s') = Some r' \<and> er_status r' = ''pending'' \<and> er_attempts r' = er_attempts r + int n"
    using failing_rounds [where envs = envs and clk = clk and inst = inst, OF assms, of n] by (auto simp: claimable_def)
next
  define n where "n = nat (max 1 (M - er_attempts r)) - 1"
  have N: "nat (max 1 (M - er_attempts r)) = Suc n" by (simp add: n_def)
  have "er_attempts r + int n < M \<or> n = 0" by (auto simp: n_def)
  from failing_rounds [where envs = envs and clk = clk and inst = inst, OF assms this] obtain s' r' new where
    h: "rounds envs clk inst (show_int i) n s = Some s'" "claimable i s' r'" "er_attempts r' = er_attempts r + int n"
    "db_deliveries (sv_db s') = db_deliveries (sv_db s) @ new" "length new = n"
    by blast
  obtain s2 r2 a where s2: "attempt (envs n) (clk n) inst (show_int i) s' = Some s2" "event_by_id i (sv_db s2) = Some r2"
    "db_deliveries (sv_db s2) = db_deliveries (sv_db s') @ [a]"
    "if er_attempts r' + 1 \<ge> cfg_MaxRetries (de_cfg (envs n)) then er_status r2 = ''failed''
     else claimable i s2 r2 \<and> er_attempts r2 = er_attempts r' + 1"
    using failing_round [OF h(2) assms(2) [of n]] by blast
  have "er_attempts r' + 1 \<ge> M" using h(3) N by linarith
  then have "er_status r2 = ''failed''" using s2(4) assms(3) by simp
  then show "\<exists>s' r' new. rounds envs clk inst (show_int i) (nat (max 1 (M - er_attempts r))) s = Some s' \<and>
      event_by_id i (sv_db s') = Some r' \<and> er_status r' = ''failed'' \<and>
      db_deliveries (sv_db s') = db_deliveries (sv_db s) @ new \<and> length new = nat (max 1 (M - er_attempts r))"
    unfolding N by (intro exI [of _ s2] exI [of _ r2] exI [of _ "new @ [a]"]) (use h s2 in auto)
qed

end
