(* ===== verification/Row_Types.thy ===== *)
theory Row_Types
  imports System
begin

text \<open>
  The types of the JSON columns. \<open>subscriber_data\<close> and \<open>segment_data\<close> are read back into Go structs whose fields have
  types; a value decodes exactly when each of its members has the type of the field its key names. The service
  stores only values of these types, so no row it reads fails to scan.
\<close>

section \<open>Types of JSON values\<close>

datatype json_type = Any_type | String_type | Time_type | Strings_type | Map_type

text \<open>A \<open>null\<close> has every type: it leaves the field as it is.\<close>

definition has_type :: "json \<Rightarrow> json_type \<Rightarrow> bool" where
  "has_type j t \<longleftrightarrow> j = JNull \<or> (case t of
     Any_type \<Rightarrow> True
   | String_type \<Rightarrow> (\<exists>s. j = JStr s \<or> (\<exists>t. j = JTime s t))
   | Time_type \<Rightarrow> (\<exists>s i. j = JTime s i)
   | Strings_type \<Rightarrow> (\<exists>js. j = JArr js \<and> (\<forall>x \<in> set js. x = JNull \<or> (\<exists>s. x = JStr s \<or> (\<exists>t. x = JTime s t))))
   | Map_type \<Rightarrow> (\<exists>ms. j = JObj ms))"

definition struct_typed :: "(string \<Rightarrow> json_type) \<Rightarrow> json \<Rightarrow> bool" where
  "struct_typed field_type j \<longleftrightarrow>
     j = JNull \<or> (\<exists>ms. j = JObj ms \<and> (\<forall>(k, v) \<in> set ms. has_type v (field_type (fold_key k))))"

text \<open>The field types of \<open>Subscriber\<close> and \<open>Segment\<close>, by their tags; a key no tag names is ignored.\<close>

definition subscriber_field_type :: "string \<Rightarrow> json_type" where
  "subscriber_field_type k =
    (if k \<in> {''id'', ''status'', ''email'', ''source'', ''first_name'', ''last_name'', ''optin_ip''} then String_type
     else if k = ''segments'' then Strings_type else if k = ''custom_fields'' then Map_type
     else if k \<in> {''optin_timestamp'', ''created_at''} then Time_type else Any_type)"

definition segment_field_type :: "string \<Rightarrow> json_type" where
  "segment_field_type k = (if k \<in> {''id'', ''name''} then String_type else Any_type)"

definition decodes :: "'a result \<Rightarrow> bool" where
  "decodes r \<longleftrightarrow> (\<exists>x. r = Inr x)"

lemma decodes_simps [simp]:
  "decodes (Inr x)" "\<not> decodes (Inl e)" "decodes (map_sum id f r) \<longleftrightarrow> decodes r"
  by (auto simp: decodes_def) (cases r; auto)

lemma decodes_string: "decodes (decode_string old j) \<longleftrightarrow> has_type j String_type"
  by (cases j) (auto simp: has_type_def)

lemma decodes_time: "decodes (decode_time old j) \<longleftrightarrow> has_type j Time_type"
  by (cases j) (auto simp: has_type_def)

lemma decodes_map: "decodes (decode_map old j) \<longleftrightarrow> has_type j Map_type"
  by (cases j) (auto simp: has_type_def)

lemma decodes_elems: "decodes (decode_elems f js) \<longleftrightarrow> (\<forall>x \<in> set js. decodes (f x))"
  by (induction js) (auto split: sum.split simp: decodes_def)

lemma decodes_strings: "decodes (decode_strings old j) \<longleftrightarrow> has_type j Strings_type"
  by (cases j) (auto simp: has_type_def decodes_elems decodes_string)

lemmas decodes_fields = decodes_string decodes_time decodes_map decodes_strings

lemma decodes_members:
  assumes "\<And>s k v. decodes (set_field s k v) \<longleftrightarrow> has_type v (ft k)"
  shows "decodes (decode_members set_field s ms) \<longleftrightarrow> (\<forall>(k, v) \<in> set ms. has_type v (ft (fold_key k)))"
proof (induction ms arbitrary: s)
  case (Cons a ms)
  obtain k v where a: "a = (k, v)" by force
  show ?case
    using assms [of s "fold_key k" v] Cons.IH
    by (cases "set_field s (fold_key k) v") (auto simp: a)
qed simp

lemma decodes_struct:
  assumes "\<And>s k v. decodes (set_field s k v) \<longleftrightarrow> has_type v (ft k)"
  shows "decodes (decode_struct set_field s j) \<longleftrightarrow> struct_typed ft j"
  using decodes_members [OF assms] by (cases j) (auto simp: struct_typed_def)

lemma subscriber_decodes: "decodes (UnmarshalSubscriber j s) \<longleftrightarrow> struct_typed subscriber_field_type j"
  unfolding UnmarshalSubscriber_def
  by (rule decodes_struct)
    (simp add: set_subscriber_field_def subscriber_field_type_def decodes_fields, simp add: has_type_def)

lemma segment_decodes: "decodes (UnmarshalSegment j s) \<longleftrightarrow> struct_typed segment_field_type j"
  unfolding UnmarshalSegment_def
  by (rule decodes_struct) (simp add: segment_field_type_def decodes_fields, simp add: has_type_def)

section \<open>Typed rows\<close>

definition row_typed :: "event_row \<Rightarrow> bool" where
  "row_typed r \<longleftrightarrow> struct_typed subscriber_field_type (er_subscriber_data r) \<and>
     (case er_segment_data r of None \<Rightarrow> True | Some j \<Rightarrow> struct_typed segment_field_type j)"

definition rows_typed :: "database \<Rightarrow> bool" where
  "rows_typed d \<longleftrightarrow> (\<forall>r \<in> set (db_events d). row_typed r)"

lemma scan_decodes: "decodes (scanEventFromRow r) \<longleftrightarrow> row_typed r"
  unfolding row_typed_def subscriber_decodes [of _ zero_subscriber, symmetric] segment_decodes [of _ zero_segment, symmetric]
  by (auto simp: scanEventFromRow_def Let_def decodes_def split: sum.splits option.splits)

lemma marshalled_typed:
  "marshal_subscriber s = Inr j \<Longrightarrow> struct_typed subscriber_field_type j"
  "struct_typed segment_field_type (marshal_segment g)"
  by (auto simp: marshal_subscriber_def marshal_segment_def struct_typed_def subscriber_field_type_def segment_field_type_def
      has_type_def marshal_strings_def marshal_map_def marshal_time_def split: sum.splits option.splits if_splits)

definition types_kept :: "database \<Rightarrow> database \<Rightarrow> bool" where
  "types_kept d d' \<longleftrightarrow> (rows_typed d \<longrightarrow> rows_typed d')"

lemma same_tables_events: "same_tables d d' \<Longrightarrow> db_events d' = db_events d"
  by (auto simp: same_tables_def dest: arg_cong [of _ _ db_events])

interpretation types: db_frame types_kept
  by unfold_locales (auto simp: types_kept_def rows_typed_def same_tables_events)

lemma types_update: "(\<And>r. same_origin r (f r)) \<Longrightarrow> db_keeps types_kept (update_events now p f)"
  unfolding db_keeps_def types_kept_def rows_typed_def update_events_def Let_def
  by (auto simp: same_origin_def row_typed_def)

lemma types_insert:
  assumes "struct_typed subscriber_field_type sub" and "\<And>j. seg = Some j \<Longrightarrow> struct_typed segment_field_type j"
  shows "db_keeps types_kept (insert_event now e sub seg w)"
  using assms
  by (auto simp: db_keeps_def types_kept_def rows_typed_def insert_event_def Let_def row_typed_def new_event_row_def
      split: option.splits)

lemma types_StoreEvent: "db_keeps types_kept (StoreEvent now e)"
proof (cases "marshal_subscriber (ev_Subscriber e)")
  case (Inl x)
  then have "StoreEvent now e = dbm_throw x" by (simp add: StoreEvent_def dbm_defs fun_eq_iff)
  then show ?thesis by (simp add: types.keeps_throw)
next
  case (Inr j)
  then have "StoreEvent now e = db_statement (dbm_bind (int4_param (ev_WebhookID e))
      (insert_event now e j (map_option marshal_segment (ev_Segment e))))"
    by (simp add: StoreEvent_def dbm_defs fun_eq_iff)
  moreover have "db_keeps types_kept (insert_event now e j (map_option marshal_segment (ev_Segment e)) w)" for w
    using marshalled_typed(1) [OF Inr] marshalled_typed(2) by (intro types_insert) auto
  ultimately show ?thesis by (auto intro: types.keeps_intros)
qed

lemma types_EnqueueEvent: "db_keeps types_kept (EnqueueEvent now e)"
  unfolding EnqueueEvent_def by (intro types.keeps_intros types_StoreEvent)

lemma types_delivery: "db_keeps types_kept (insert_delivery now st rs er i)"
  by (auto simp: db_keeps_def types_kept_def rows_typed_def insert_delivery_def Let_def)

lemma types_LogDeliveryAttempt: "types_kept d (LogDeliveryAttempt now eventID success response err d)"
proof -
  have "db_keeps types_kept (db_statement (dbm_bind (int4_param eventID) (insert_delivery now st response er)))" for st er
    by (intro types.keeps_intros types_delivery)
  then show ?thesis by (simp add: LogDeliveryAttempt_def db_keeps_def)
qed

lemma types_select_pending: "db_keeps types_kept (select_pending i)"
  by (rule types.keeps_pure) (auto simp: select_pending_def split: option.split)

lemma types_updates:
  "db_keeps types_kept (GetAndMarkEventByID now eventID inst)" "db_keeps types_kept (ReleaseEvent now eventID)"
  "db_keeps types_kept (UpdateEventStatus now eventID st)" "db_keeps types_kept (UpdateEventAttempts now eventID n la)"
  "db_keeps types_kept (UpdateRetrySchedule now clock eventID delay)"
  "db_keeps types_kept (UpdateStalledEventsToPending now clock timeout)"
  unfolding GetAndMarkEventByID_def claim_tx_def ReleaseEvent_def UpdateEventStatus_def UpdateEventAttempts_def
    UpdateRetrySchedule_def UpdateStalledEventsToPending_def Let_def
  by ((intro types.keeps_intros keeps_if keeps_fetch_error types_select_pending types_update, simp)+)

lemma types_handle:
  assumes "event_handleNotification now now' inst taken payload (q, d) = (r, q', d')"
  shows "types_kept d d'"
  by (rule handle_keeps [where R = types_kept, OF _ _ _ _ assms]) (auto simp: types_kept_def types_updates)

lemma types_processEvent: "types_kept (sv_db s) (sv_db (processEvent env ev s))"
  by (rule processEvent_keeps [where R = types_kept])
    (auto intro: types.frame_same types.frame_trans types_updates types_LogDeliveryAttempt)

lemma types_retries: "types_kept d (processReadyRetries now ord d)"
proof -
  have "db_keeps types_kept (check_retry_events now ord)"
    by (simp add: db_keeps_def types_kept_def rows_typed_def check_retry_events_def Let_def)
  then have "db_keeps types_kept (db_statement (check_retry_events now ord))" by (intro types.keeps_intros)
  then show ?thesis by (simp add: processReadyRetries_def db_keeps_def)
qed

lemma types_step:
  assumes "sys_step stall s s'"
  shows "types_kept (sys_db s) (sys_db s')"
  using assms
proof cases
  case (request k n bind now now' req ans v)
  then show ?thesis using handleWebhookEvent_tables [OF request(4)] by (simp add: types.frame_same)
next
  case (store k n ev b v now clock)
  then show ?thesis using types_EnqueueEvent by (simp add: store_step_db db_keeps_def)
next
  case (notify k n now now' payload r q d)
  then show ?thesis using types_handle [OF notify(4)] by simp
next
  case (deliver k n ev v env)
  then show ?thesis using types_processEvent [of "node_service n (sys_db s)"] by simp
next
  case (poll k n now stop taken m q d)
  then show ?thesis using pollEvents_tables [of now stop taken m "nd_id n" "nd_queue n" "sys_db s"]
    by (auto simp: types.frame_same)
next
  case (refresh_server k n key_order clk m c d)
  then show ?thesis using refresh_tables by (auto simp: types.frame_same)
next
  case (refresh_service k n key_order clk m c d)
  then show ?thesis using refresh_tables by (auto simp: types.frame_same)
next
  case (cleanup now clock)
  then show ?thesis using types_updates(6) by (simp add: CleanupStalledEvents_def db_keeps_def)
next
  case (outside cs fs ls)
  then show ?thesis by (simp add: types_kept_def rows_typed_def)
qed (simp_all add: types_retries types.frame_same)

text \<open>C16: What is stored can be read. A row scans into an event exactly when its JSON columns have the types of
  \<open>Subscriber\<close> and \<open>Segment\<close>, and if the rows are so typed at the start they are at every point of every run of any
  number of instances, the cleanup included: the error branches of \<open>scanEventFromRow\<close> are never taken for a row the
  service has stored.
\<close>

theorem stored_rows_are_typed:
  assumes "rows_typed (sys_db s0)" and "(sys_step stall)\<^sup>*\<^sup>* s0 s" and "r \<in> set (db_events (sys_db s))"
  shows "row_typed r \<and> (\<exists>ev. scanEventFromRow r = Inr ev) \<and>
    (\<forall>r'. (\<exists>ev. scanEventFromRow r' = Inr ev) \<longleftrightarrow> row_typed r')"
proof -
  have "rows_typed (sys_db s)"
    using assms(2,1) by (induction rule: rtranclp_induct) (use types_step in \<open>auto simp: types_kept_def\<close>)
  then have "row_typed r" using assms(3) by (simp add: rows_typed_def)
  with scan_decodes show ?thesis by (simp add: decodes_def)
qed

end
