(* ===== verification/Retry_Cycle.thy ===== *)
theory Retry_Cycle
  imports Journey Row_Types
begin

text \<open>
  The retry loop closed: the scheduler announces the events whose time has come, the listener claims each of them, a
  worker delivers it, and what fails comes back later. \<open>Journey\<close> follows an event to its first delivery; here every
  waiting event is followed to its end.
\<close>

section \<open>One cycle\<close>

text \<open>
  The listener of an instance handles the notifications in the order they were sent, and a delivery worker takes each
  event it claims; \<open>clk\<close> are the readings of the clock around the claims, the deliveries have their own. What the
  deliveries announce themselves is heard after the cycle.
\<close>

definition hear :: "instant \<Rightarrow> instant \<Rightarrow> json \<Rightarrow> node \<Rightarrow> database \<Rightarrow> node \<times> database" where
  "hear now now' note n d = (case event_handleNotification now now' (nd_id n) (\<lambda>q. q) (Some note) (nd_queue n, d) of
     (r, q, d') \<Rightarrow> (n\<lparr>nd_queue := q\<rparr>, d'))"

fun hear_and_deliver :: "(nat \<Rightarrow> delivery_env) \<Rightarrow> (nat \<Rightarrow> instant) \<Rightarrow> json list \<Rightarrow> node \<Rightarrow> database \<Rightarrow> node \<times> database" where
  "hear_and_deliver envs clk [] n d = (n, d)"
| "hear_and_deliver envs clk (note # notes) n d =
     (case hear (clk 0) (clk 1) note n d of (n1, d1) \<Rightarrow>
       (case deliver_next (envs 0) n1 d1 of (n2, d2) \<Rightarrow>
         hear_and_deliver (\<lambda>k. envs (k + 1)) (\<lambda>k. clk (k + 2)) notes n2 d2))"

definition retry_cycle :: "instant \<Rightarrow> (event_row list \<Rightarrow> event_row list) \<Rightarrow> (nat \<Rightarrow> delivery_env) \<Rightarrow> (nat \<Rightarrow> instant) \<Rightarrow>
    node \<Rightarrow> database \<Rightarrow> node \<times> database" where
  "retry_cycle now ord envs clk n d = (let d' = processReadyRetries now ord d in
     hear_and_deliver envs clk (drop (length (db_notes d)) (db_notes d')) n d')"

section \<open>A quiet instance\<close>

text \<open>
  No call fails, no row is locked, the keys fit into their columns, the rows can be read, at most as many events wait as
  one run of the scheduler announces, and nothing is under way in the instance.
\<close>

definition is_pending :: "event_row \<Rightarrow> bool" where
  "is_pending r \<longleftrightarrow> er_status r = ''pending''"

definition quiet :: "database \<Rightarrow> node \<Rightarrow> bool" where
  "quiet d n \<longleftrightarrow> db_faults d = [] \<and> db_locked d = [] \<and> db_wf d \<and> reads_back d \<and> rows_typed d \<and> idle_node d n \<and>
     list_all (\<lambda>r. int4_range (er_id r) \<and> int4_range (er_webhook_id r)) (db_events d) \<and>
     length (filter is_pending (db_events d)) \<le> 50"

text \<open>What one attempt makes of a row, by the outcome of the delivery.\<close>

definition attempted :: "delivery_env \<Rightarrow> bool \<Rightarrow> event_row \<Rightarrow> event_row \<Rightarrow> bool" where
  "attempted env success r r' \<longleftrightarrow> same_origin r r' \<and> er_attempts r' = er_attempts r + 1 \<and>
     (if success then er_status r' = ''success''
      else if er_attempts r + 1 \<ge> cfg_MaxRetries (de_cfg env) then er_status r' = ''failed''
      else er_status r' = ''pending'' \<and>
        (\<exists>t. er_next_attempt_at r' = Some t \<and> t \<le> de_clock env 7 + cfg_MaxDelay (de_cfg env)))"

lemma backoff_capped: "calculateBackoff oor rnd n initialDelay maxDelay \<le> maxDelay"
  by (simp add: calculateBackoff_def Let_def)

lemma delivered_attempted:
  assumes "ev_Attempts ev = er_attempts r"
  shows "attempted env success r (delivered_row env ev success (mark_processing inst now r))"
  using assms backoff_capped
  by (simp add: attempted_def delivered_row_def retry_row_def mark_processing_def same_origin_def)

lemma quiet_scans:
  assumes "rows_typed d" and "r \<in> set (db_events d)"
  shows "\<exists>ev. scanEventFromRow r = Inr ev"
  using assms scan_decodes [of r] by (auto simp: rows_typed_def decodes_def)

lemma find_config_exists: "i \<in> cr_id ` set (db_configs d) \<Longrightarrow> \<exists>c. find_config i d = Some c"
  unfolding find_config_def using find_None_iff [of "\<lambda>c. cr_id c = i" "db_configs d"] by (cases "List.find (\<lambda>c. cr_id c = i) (db_configs d)") auto

lemma quiet_config:
  assumes "db_wf d" and "reads_back d" and "r \<in> set (db_events d)" and "int4_range (er_webhook_id r)"
  shows "\<exists>w. current_config d (show_int (er_webhook_id r)) = Some w"
  using assms find_config_exists [of "er_webhook_id r" d] by (auto simp: current_config_def reads_back_def db_wf_def)

lemma becomes_rows:
  assumes "row_becomes i r' d d'" and "db_wf d'" and "x \<in> set (db_events d')"
  shows "(er_id x = i \<and> x = r' \<and> (\<exists>r \<in> set (db_events d). er_id r = i)) \<or> (er_id x \<noteq> i \<and> x \<in> set (db_events d))"
proof -
  have "event_by_id (er_id x) d' = Some x" using event_by_id_in [OF wf_distinct [OF assms(2)] assms(3)] .
  then obtain r where r: "event_by_id (er_id x) d = Some r" "x = (if er_id x = i then r' else r)"
    using assms(1) by (auto simp: row_becomes_def)
  then show ?thesis using event_by_id_SomeD [OF r(1)] by (cases "er_id x = i") auto
qed

lemma fewer_pending:
  assumes "distinct (map er_id (db_events d'))" and "distinct (map er_id (db_events d))"
    and "\<And>x. x \<in> set (db_events d') \<Longrightarrow> is_pending x \<Longrightarrow> \<exists>r \<in> set (db_events d). er_id r = er_id x \<and> is_pending r"
  shows "length (filter is_pending (db_events d')) \<le> length (filter is_pending (db_events d))"
proof -
  have c: "distinct (map er_id rs) \<Longrightarrow> length (filter is_pending rs) = card (er_id ` set (filter is_pending rs))" for rs
    using distinct_card [of "map er_id (filter is_pending rs)"] by (simp add: distinct_map_filter)
  have "er_id ` set (filter is_pending (db_events d')) \<subseteq> er_id ` set (filter is_pending (db_events d))"
  proof
    fix i assume "i \<in> er_id ` set (filter is_pending (db_events d'))"
    then obtain x where x: "x \<in> set (db_events d')" "is_pending x" "i = er_id x" by auto
    then obtain r where "r \<in> set (db_events d)" "er_id r = i" "is_pending r" using assms(3) [of x] by auto
    then show "i \<in> er_id ` set (filter is_pending (db_events d))" by auto
  qed
  then show ?thesis unfolding c [OF assms(1)] c [OF assms(2)] by (intro card_mono) simp_all
qed

section \<open>One event\<close>

lemma quiet_next:
  assumes q: "quiet d n" and b: "row_becomes i r' d d'" and r: "event_by_id i d = Some r" "is_pending r" and o: "same_origin r r'"
    and d': "db_faults d' = []" "db_locked d' = []" "db_wf d'" "db_int4in d' = db_int4in d" "idle_node d' n'" "rows_typed d'"
  shows "quiet d' n'"
proof -
  have id: "r \<in> set (db_events d)" "er_id r = i" using event_by_id_SomeD [OF r(1)] by simp_all
  note rows = becomes_rows [OF b d'(3)]
  have dist: "distinct (map er_id (db_events d'))" "distinct (map er_id (db_events d))"
    using wf_distinct [of d'] wf_distinct [of d] q d'(3) by (simp_all add: quiet_def)
  have "\<exists>s \<in> set (db_events d). er_id s = er_id x \<and> is_pending s" if "x \<in> set (db_events d')" "is_pending x" for x
    using rows [OF that(1)] that(2) id r(2) by blast
  then have few: "length (filter is_pending (db_events d')) \<le> length (filter is_pending (db_events d))"
    by (rule fewer_pending [OF dist])
  have "int4_range (er_id x) \<and> int4_range (er_webhook_id x)" if "x \<in> set (db_events d')" for x
    using rows [OF that] q id o by (auto simp: quiet_def list_all_iff same_origin_def)
  then have "list_all (\<lambda>r. int4_range (er_id r) \<and> int4_range (er_webhook_id r)) (db_events d')"
    by (simp add: list_all_iff)
  then show ?thesis using q d' few by (simp add: quiet_def reads_back_def)
qed

lemma turn:
  assumes q: "quiet d n" and r: "event_by_id i d = Some r" "is_pending r" and t: "stamp_ok t"
  obtains n1 d1 n' d' r' a success url ev where
    "hear now now' (notify_payload tg_op i k t) n d = (n1, d1)" "deliver_next env n1 d1 = (n', d')" "quiet d' n'"
    "row_becomes i r' d d'" "attempted env success r r'" "db_deliveries d' = db_deliveries d @ [a]" "dr_event_id a = i"
    "dr_status a = (if success then ''success'' else ''failed'')" "ev_ID ev = show_int i" "fst (de_deliver env url ev) = success"
proof -
  have nf: "db_faults d = []" and lk: "db_locked d = []" and wf: "db_wf d" and rb: "reads_back d" and ty: "rows_typed d"
    and idle: "idle_node d n" and few: "length (filter is_pending (db_events d)) \<le> 50"
    using q by (simp_all add: quiet_def)
  have id: "r \<in> set (db_events d)" "er_id r = i" using event_by_id_SomeD [OF r(1)] by simp_all
  have i: "int4_range i" "int4_range (er_webhook_id r)" using q id by (auto simp: quiet_def list_all_iff)
  have pend: "er_status r = ''pending''" using r(2) by (simp add: is_pending_def)
  obtain ev where sc: "scanEventFromRow r = Inr ev" using quiet_scans [OF ty id(1)] by blast
  obtain w where w: "current_config d (show_int (er_webhook_id r)) = Some w" using quiet_config [OF wf rb id(1) i(2)] by blast
  let ?ev = "ev\<lparr>ev_ProcessingInstance := Some (nd_id n)\<rparr>"
  let ?m = "mark_processing (nd_id n) now"
  let ?d1 = "d\<lparr>db_events := set_row i ?m (db_events d)\<rparr>"
  let ?n1 = "n\<lparr>nd_queue := chan_send ?ev (nd_queue n)\<rparr>"
  have room: "chan_room (nd_queue n)" using idle by (simp add: idle_node_def chan_room_def chan_len_def)
  have h: "hear now now' (notify_payload tg_op i k t) n d = (?n1, ?d1)"
    using handle_sends [where taken = "\<lambda>q. q", OF nf wf rb i(1) _ r(1) pend sc t room] lk by (simp add: hear_def)
  obtain success response err c' d' where p: "de_deliver env (dto_PostURL w) ?ev = (success, response, err)"
    "processEvent env ?ev \<lparr>sv_cache = nd_service_cache n, sv_db = ?d1, sv_pool = nd_delivery_pool n\<rparr> =
      \<lparr>sv_cache = c', sv_db = d', sv_pool = delivered_metrics env ?ev success (nd_delivery_pool n)\<rparr>"
    "cache_agrees (current_config d') c'" "current_config d' = current_config d" "db_faults d' = []" "db_locked d' = db_locked d"
    "db_int4in d' = db_int4in d" "db_wf d'" "row_becomes i (delivered_row env ?ev success (?m r)) d d'"
    "db_deliveries d' = db_deliveries d @ [\<lparr>dr_id = db_next_delivery d, dr_event_id = i,
      dr_status = (if success then ''success'' else ''failed''), dr_response = response,
      dr_error = (case err of None \<Rightarrow> [] | Some e \<Rightarrow> err_text e), dr_timestamp = de_clock env 2\<rparr>]"
    by (rule claim_and_process [OF nf wf rb i(1) _ r(1) pend sc _ w, where env = env and inst = "nd_id n" and now = now
        and p = "nd_delivery_pool n" and c = "nd_service_cache n"]) (use lk idle that in \<open>simp_all add: idle_node_def\<close>)
  obtain n' where n': "deliver_next env ?n1 ?d1 = (n', d')" "nd_buffer n' = nd_buffer n" "nd_queue n' = nd_queue n"
    "nd_server_cache n' = nd_server_cache n" "nd_service_cache n' = c'"
    using idle p(2) by (cases "nd_queue n")
      (simp add: deliver_next_def node_service_def with_service_def chan_recv_def chan_send_def idle_node_def)
  let ?r' = "delivered_row env ?ev success (?m r)"
  have e: "ev_ID ?ev = show_int i" "ev_Attempts ?ev = er_attempts r" using scan_fields [OF sc] id by simp_all
  have att: "attempted env success r ?r'" using e(2) by (rule delivered_attempted)
  have "rows_typed ?d1"
    using ty by (auto simp: rows_typed_def set_row_def row_typed_def mark_processing_def)
  then have ty': "rows_typed d'"
    using types_processEvent [of "\<lparr>sv_cache = nd_service_cache n, sv_db = ?d1, sv_pool = nd_delivery_pool n\<rparr>" env ?ev]
    by (simp add: p(2) types_kept_def)
  have "idle_node d' n'" using idle p(3,4) by (simp add: idle_node_def n')
  then have q': "quiet d' n'"
    using att p lk ty' by (intro quiet_next [OF q p(9) r]) (simp_all add: attempted_def)
  show ?thesis
    by (rule that [OF h n'(1) q' p(9) att _ _ _ e(1), of _ "dto_PostURL w"]) (use p(10) in simp, simp, simp, simp add: p(1))
qed

section \<open>All events that are due\<close>

lemma becomes_other: "row_becomes i r' d d' \<Longrightarrow> j \<noteq> i \<Longrightarrow> event_by_id j d' = event_by_id j d"
  by (cases "event_by_id j d") (simp_all add: row_becomes_def)

lemma becomes_it: "row_becomes i r' d d' \<Longrightarrow> event_by_id i d = Some r \<Longrightarrow> event_by_id i d' = Some r'"
  by (simp add: row_becomes_def)

text \<open>The row, the entry of the log and the delivery of one event, together.\<close>

definition outcome :: "delivery_env \<Rightarrow> database \<Rightarrow> event_row \<Rightarrow> delivery_row \<Rightarrow> bool" where
  "outcome env d r a \<longleftrightarrow> (\<exists>r' success url ev. event_by_id (er_id r) d = Some r' \<and> attempted env success r r' \<and>
     dr_event_id a = er_id r \<and> dr_status a = (if success then ''success'' else ''failed'') \<and>
     ev_ID ev = show_int (er_id r) \<and> fst (de_deliver env url ev) = success)"

lemma outcomeI:
  assumes "event_by_id (er_id r) d = Some r'" and "attempted env success r r'" and "dr_event_id a = er_id r"
    and "dr_status a = (if success then ''success'' else ''failed'')" and "ev_ID ev = show_int (er_id r)"
    and "fst (de_deliver env url ev) = success"
  shows "outcome env d r a"
  unfolding outcome_def using assms by blast

lemma outcome_cong: "event_by_id (er_id r) d' = event_by_id (er_id r) d \<Longrightarrow> outcome env d' r a = outcome env d r a"
  by (simp add: outcome_def)

lemma turns:
  assumes "quiet d n" and "\<And>r. r \<in> set rows \<Longrightarrow> event_by_id (er_id r) d = Some r \<and> is_pending r"
    and "distinct (map er_id rows)" and t: "stamp_ok t"
  shows "\<exists>n' d' new. hear_and_deliver envs clk (map (\<lambda>r. notify_payload tg_op (er_id r) (er_webhook_id r) t) rows) n d = (n', d') \<and>
    quiet d' n' \<and> db_deliveries d' = db_deliveries d @ new \<and> length new = length rows \<and>
    (\<forall>k < length rows. outcome (envs k) d' (rows ! k) (new ! k)) \<and>
    (\<forall>j. j \<notin> er_id ` set rows \<longrightarrow> event_by_id j d' = event_by_id j d)"
  using assms(1-3)
proof (induction rows arbitrary: d n envs clk)
  case (Cons r rows)
  have r: "event_by_id (er_id r) d = Some r" "is_pending r" using Cons.prems(2) by auto
  obtain n1 d1 n2 d2 r' a success url ev where
    h: "hear (clk 0) (clk 1) (notify_payload tg_op (er_id r) (er_webhook_id r) t) n d = (n1, d1)" "deliver_next (envs 0) n1 d1 = (n2, d2)"
    and q: "quiet d2 n2" and b: "row_becomes (er_id r) r' d d2" and att: "attempted (envs 0) success r r'"
    and l: "db_deliveries d2 = db_deliveries d @ [a]" "dr_event_id a = er_id r"
      "dr_status a = (if success then ''success'' else ''failed'')"
    and e: "ev_ID ev = show_int (er_id r)" "fst (de_deliver (envs 0) url ev) = success"
    by (rule turn [OF Cons.prems(1) r t]) (rule that)
  have new: "er_id r \<notin> er_id ` set rows" using Cons.prems(3) by simp
  have rest: "event_by_id (er_id s) d2 = Some s \<and> is_pending s" if s: "s \<in> set rows" for s
  proof -
    have "er_id s \<noteq> er_id r" using new s by (metis image_eqI)
    then show ?thesis using becomes_other [OF b, of "er_id s"] Cons.prems(2) [of s] s by simp
  qed
  have dist: "distinct (map er_id rows)" using Cons.prems(3) by simp
  from Cons.IH [where envs = "\<lambda>k. envs (k + 1)" and clk = "\<lambda>k. clk (k + 2)", OF q rest dist]
  obtain n' d' as where IH: "hear_and_deliver (\<lambda>k. envs (k + 1)) (\<lambda>k. clk (k + 2))
      (map (\<lambda>r. notify_payload tg_op (er_id r) (er_webhook_id r) t) rows) n2 d2 = (n', d')" "quiet d' n'"
    "db_deliveries d' = db_deliveries d2 @ as" "length as = length rows"
    "\<forall>k < length rows. outcome (envs (k + 1)) d' (rows ! k) (as ! k)"
    "\<forall>j. j \<notin> er_id ` set rows \<longrightarrow> event_by_id j d' = event_by_id j d2"
    by blast
  have "event_by_id (er_id r) d' = event_by_id (er_id r) d2" using IH(6) new by blast
  note same = outcome_cong [OF this]
  have first: "outcome (envs 0) d' r a" unfolding same by (rule outcomeI [OF becomes_it [OF b r(1)] att l(2,3) e])
  have each: "\<forall>k < length (r # rows). outcome (envs k) d' ((r # rows) ! k) ((a # as) ! k)"
  proof (intro allI impI)
    fix k assume "k < length (r # rows)"
    then show "outcome (envs k) d' ((r # rows) ! k) ((a # as) ! k)" using first IH(5) by (cases k) simp_all
  qed
  have others: "\<forall>j. j \<notin> er_id ` set (r # rows) \<longrightarrow> event_by_id j d' = event_by_id j d"
    using IH(6) becomes_other [OF b] by simp
  have run: "hear_and_deliver envs clk (map (\<lambda>r. notify_payload tg_op (er_id r) (er_webhook_id r) t) (r # rows)) n d = (n', d')"
    using h IH(1) by simp
  have log: "db_deliveries d' = db_deliveries d @ a # as" "length (a # as) = length (r # rows)"
    using IH(3,4) l(1) by simp_all
  show ?case
    by (rule exI [of _ n'], rule exI [of _ d'], rule exI [of _ "a # as"]) (intro conjI run IH(2) log each others)
qed simp

lemma quiet_notes [simp]: "quiet (d\<lparr>db_notes := ns\<rparr>) n = quiet d n"
  by (simp add: quiet_def idle_node_def db_wf_def reads_back_def rows_typed_def
      current_config_cong [of "d\<lparr>db_notes := ns\<rparr>" d])

lemma event_by_id_notes [simp]: "event_by_id i (d\<lparr>db_notes := ns\<rparr>) = event_by_id i d"
  by (simp add: event_by_id_def)

lemma ready_pending: "ready_retry now r \<Longrightarrow> is_pending r"
  by (simp add: ready_retry_def is_pending_def)

lemma announced:
  assumes q: "quiet d n" and ord: "permutes ord"
  obtains rows where "distinct (map er_id rows)" "set rows = {r \<in> set (db_events d). ready_retry now r}"
    "processReadyRetries now ord d = d\<lparr>db_notes := db_notes d @
      map (\<lambda>r. notify_payload ''RETRY'' (er_id r) (er_webhook_id r) now) rows\<rparr>"
proof -
  let ?ready = "filter (ready_retry now) (db_events d)"
  note p = permutesD [OF ord, of ?ready]
  have wf: "db_wf d" and nf: "db_faults d = []" and few: "length (filter is_pending (db_events d)) \<le> 50"
    using q by (simp_all add: quiet_def)
  have "filter (ready_retry now) (filter is_pending (db_events d)) = ?ready"
    using ready_pending by (simp add: filter_filter conj_absorb) (metis (mono_tags, lifting))
  then have "length ?ready \<le> length (filter is_pending (db_events d))" by (metis length_filter_le)
  then have "length (ord ?ready) \<le> 50" using few p by simp
  moreover have "distinct (map er_id ?ready)" using wf_distinct [OF wf] by (simp add: distinct_map_filter)
  then have "distinct (map er_id (ord ?ready))" by (simp add: permutes_distinct [OF ord])
  ultimately show ?thesis
    using nf p by (intro that [of "ord ?ready"]) (auto simp: check_retry_events_def processReadyRetries_def Let_def)
qed

lemma cycle_outcomes:
  assumes q: "quiet d n" and ord: "permutes ord" and t: "stamp_ok now"
  obtains n' d' rows new where "retry_cycle now ord envs clk n d = (n', d')" "quiet d' n'"
    "distinct (map er_id rows)" "set rows = {r \<in> set (db_events d). ready_retry now r}"
    "db_deliveries d' = db_deliveries d @ new" "length new = length rows"
    "\<And>k. k < length rows \<Longrightarrow> outcome (envs k) d' (rows ! k) (new ! k)"
    "\<And>j. j \<notin> er_id ` set rows \<Longrightarrow> event_by_id j d' = event_by_id j d"
proof -
  obtain rows where rows: "distinct (map er_id rows)" "set rows = {r \<in> set (db_events d). ready_retry now r}"
    "processReadyRetries now ord d = d\<lparr>db_notes := db_notes d @
      map (\<lambda>r. notify_payload ''RETRY'' (er_id r) (er_webhook_id r) now) rows\<rparr>"
    by (rule announced [OF q ord]) (rule that)
  let ?d = "processReadyRetries now ord d"
  have wf: "db_wf d" using q by (simp add: quiet_def)
  have q1: "quiet ?d n" using q by (simp add: rows(3))
  have w: "event_by_id (er_id r) ?d = Some r \<and> is_pending r" if "r \<in> set rows" for r
    using that event_by_id_in [OF wf_distinct [OF wf], of r] ready_pending [of now r] by (simp add: rows(2,3))
  obtain n' d' new where h: "hear_and_deliver envs clk (map (\<lambda>r. notify_payload ''RETRY'' (er_id r) (er_webhook_id r) now) rows) n ?d = (n', d')"
    "quiet d' n'" "db_deliveries d' = db_deliveries ?d @ new" "length new = length rows"
    "\<forall>k < length rows. outcome (envs k) d' (rows ! k) (new ! k)"
    "\<forall>j. j \<notin> er_id ` set rows \<longrightarrow> event_by_id j d' = event_by_id j ?d"
    using turns [OF q1 w rows(1) t] by blast
  show ?thesis
  proof (rule that [OF _ h(2) rows(1,2) _ h(4)])
    show "retry_cycle now ord envs clk n d = (n', d')" using h(1) by (simp add: retry_cycle_def Let_def rows(3))
  qed (use h rows(3) in auto)
qed

text \<open>C9: one run of the retry scheduler delivers what is due. From a quiet instance, each event whose retry time has come
  is attempted exactly once in the cycle: the log has one new entry for it, that says what its delivery answered, and
  its row is delivered, given up, or waiting again with one attempt more. The other rows are as they were,
  and the instance is quiet again.
\<close>

theorem retry_cycle_attempts_due:
  assumes "quiet d n" and "permutes ord" and "stamp_ok now"
  shows "\<exists>n' d' rows new. retry_cycle now ord envs clk n d = (n', d') \<and> quiet d' n' \<and>
    distinct (map er_id rows) \<and> set rows = {r \<in> set (db_events d). ready_retry now r} \<and>
    db_deliveries d' = db_deliveries d @ new \<and> length new = length rows \<and>
    (\<forall>k < length rows. outcome (envs k) d' (rows ! k) (new ! k)) \<and>
    (\<forall>j. j \<notin> er_id ` set rows \<longrightarrow> event_by_id j d' = event_by_id j d)"
proof -
  obtain n' d' rows new where h: "retry_cycle now ord envs clk n d = (n', d')" "quiet d' n'"
    "distinct (map er_id rows)" "set rows = {r \<in> set (db_events d). ready_retry now r}"
    "db_deliveries d' = db_deliveries d @ new" "length new = length rows"
    "\<And>k. k < length rows \<Longrightarrow> outcome (envs k) d' (rows ! k) (new ! k)"
    "\<And>j. j \<notin> er_id ` set rows \<Longrightarrow> event_by_id j d' = event_by_id j d"
    by (rule cycle_outcomes [OF assms]) (rule that)
  show ?thesis
    by (rule exI [of _ n'], rule exI [of _ d'], rule exI [of _ rows], rule exI [of _ new])
      (intro conjI h(1-6) allI impI; (rule h(7) h(8), assumption))
qed

section \<open>Until the end\<close>

fun retry_cycles :: "(nat \<Rightarrow> instant) \<Rightarrow> (nat \<Rightarrow> event_row list \<Rightarrow> event_row list) \<Rightarrow> (nat \<Rightarrow> nat \<Rightarrow> delivery_env) \<Rightarrow>
    (nat \<Rightarrow> nat \<Rightarrow> instant) \<Rightarrow> nat \<Rightarrow> node \<times> database \<Rightarrow> node \<times> database" where
  "retry_cycles nows ords envs clks 0 s = s"
| "retry_cycles nows ords envs clks (Suc k) s = (case retry_cycles nows ords envs clks k s of
     (n, d) \<Rightarrow> retry_cycle (nows k) (ords k) (envs k) (clks k) n d)"

text \<open>The results the log has for one event, oldest first.\<close>

definition results_of :: "int \<Rightarrow> database \<Rightarrow> string list" where
  "results_of i d = map dr_status (filter (\<lambda>a. dr_event_id a = i) (db_deliveries d))"

lemma filter_at:
  assumes "distinct (map f xs)" and "k < length xs"
  shows "filter (\<lambda>x. f x = f (xs ! k)) xs = [xs ! k]"
  using assms
proof (induction xs arbitrary: k)
  case (Cons x xs)
  show ?case
  proof (cases k)
    case 0
    have "filter (\<lambda>y. f y = f x) xs = []" using Cons.prems(1) by (auto simp: filter_empty_conv) (metis image_eqI)
    then show ?thesis using 0 by simp
  next
    case (Suc m)
    then have "f (xs ! m) \<in> f ` set xs" using Cons.prems(2) by simp
    then have "f x \<noteq> f (xs ! m)" using Cons.prems(1) by auto
    then show ?thesis using Cons Suc by simp
  qed
qed simp

text \<open>What a cycle does to one event.\<close>

lemma cycle_one:
  assumes "quiet d n" and "permutes ord" and "stamp_ok now" and r: "event_by_id i d = Some r"
  obtains n' d' where "retry_cycle now ord envs clk n d = (n', d')" "quiet d' n'"
    "\<not> ready_retry now r \<Longrightarrow> event_by_id i d' = Some r \<and> results_of i d' = results_of i d"
    "ready_retry now r \<Longrightarrow> \<exists>k r' success url ev. event_by_id i d' = Some r' \<and> attempted (envs k) success r r' \<and>
       results_of i d' = results_of i d @ [if success then ''success'' else ''failed''] \<and>
       ev_ID ev = show_int i \<and> fst (de_deliver (envs k) url ev) = success"
proof -
  obtain n' d' rows new where h: "retry_cycle now ord envs clk n d = (n', d')" "quiet d' n'"
    "distinct (map er_id rows)" "set rows = {r \<in> set (db_events d). ready_retry now r}"
    "db_deliveries d' = db_deliveries d @ new" "length new = length rows"
    "\<And>k. k < length rows \<Longrightarrow> outcome (envs k) d' (rows ! k) (new ! k)"
    "\<And>j. j \<notin> er_id ` set rows \<Longrightarrow> event_by_id j d' = event_by_id j d"
    by (rule cycle_outcomes [OF assms(1-3)]) (rule that)
  have id: "r \<in> set (db_events d)" "er_id r = i" using event_by_id_SomeD [OF r] by simp_all
  have dist: "distinct (map er_id (db_events d))" using assms(1) wf_distinct by (simp add: quiet_def)
  have ids: "map dr_event_id new = map er_id rows"
    using h(6,7) by (intro nth_equalityI) (auto simp: outcome_def)
  show ?thesis
  proof (rule that [OF h(1,2)])
    assume nr: "\<not> ready_retry now r"
    have out: "i \<notin> er_id ` set rows"
    proof
      assume "i \<in> er_id ` set rows"
      then obtain s where s: "s \<in> set (db_events d)" "ready_retry now s" "er_id s = i" using h(4) by auto
      then have "event_by_id i d = Some s" using event_by_id_in [OF dist s(1)] by simp
      then show False using r s(2) nr by simp
    qed
    then have "i \<notin> dr_event_id ` set new" using ids by (metis image_set)
    then have "filter (\<lambda>a. dr_event_id a = i) new = []" by (auto simp: filter_empty_conv)
    then show "event_by_id i d' = Some r \<and> results_of i d' = results_of i d"
      using h(5,8) out r by (simp add: results_of_def)
  next
    assume "ready_retry now r"
    then have "r \<in> set rows" using id h(4) by simp
    then obtain k where k: "k < length rows" "rows ! k = r" by (auto simp: in_set_conv_nth)
    obtain r' success url ev where o: "event_by_id i d' = Some r'" "attempted (envs k) success r r'"
      "dr_event_id (new ! k) = i" "dr_status (new ! k) = (if success then ''success'' else ''failed'')"
      "ev_ID ev = show_int i" "fst (de_deliver (envs k) url ev) = success"
      using h(7) [OF k(1)] k(2) id(2) unfolding outcome_def by blast
    have "filter (\<lambda>a. dr_event_id a = i) new = [new ! k]"
      using filter_at [of dr_event_id new k] h(3,6) k(1) ids o(3) by simp
    then have "results_of i d' = results_of i d @ [if success then ''success'' else ''failed'']"
      using h(5) o(4) by (simp add: results_of_def)
    with o show "\<exists>k r' success url ev. event_by_id i d' = Some r' \<and> attempted (envs k) success r r' \<and>
       results_of i d' = results_of i d @ [if success then ''success'' else ''failed''] \<and>
       ev_ID ev = show_int i \<and> fst (de_deliver (envs k) url ev) = success" by blast
  qed
qed

lemma due_ready:
  assumes "quiet d n" and "event_by_id i d = Some r" and "is_pending r" and "er_next_attempt_at r = Some t" and "t \<le> now"
  shows "ready_retry now r"
proof -
  have "row_ok r" using assms(1) event_by_id_SomeD [OF assms(2)] by (auto simp: quiet_def db_wf_def)
  then show ?thesis using assms(3-5) by (simp add: ready_retry_def is_pending_def row_ok_def)
qed

text \<open>After \<open>m\<close> cycles the event still waits, after \<open>m\<close> failures; or it has ended, with the results \<open>lg\<close>.\<close>

definition still_waits :: "int \<Rightarrow> int \<Rightarrow> string list \<Rightarrow> instant \<Rightarrow> nat \<Rightarrow> node \<times> database \<Rightarrow> bool" where
  "still_waits i a lg now m s \<longleftrightarrow> quiet (snd s) (fst s) \<and> results_of i (snd s) = lg @ replicate m ''failed'' \<and>
     (\<exists>r t. event_by_id i (snd s) = Some r \<and> is_pending r \<and> er_attempts r = a + int m \<and> er_next_attempt_at r = Some t \<and> t \<le> now)"

definition has_ended :: "int \<Rightarrow> string \<Rightarrow> string list \<Rightarrow> node \<times> database \<Rightarrow> bool" where
  "has_ended i st lg s \<longleftrightarrow> quiet (snd s) (fst s) \<and> results_of i (snd s) = lg \<and>
     (\<exists>r. event_by_id i (snd s) = Some r \<and> er_status r = st)"

text \<open>
  The conditions of the first \<open>l\<close> runs: the scheduler comes after the longest delay, and \<open>ok\<close> are the answers of the
  endpoint.
\<close>

definition retry_schedule :: "nat \<Rightarrow> int \<Rightarrow> int \<Rightarrow> (nat \<Rightarrow> bool) \<Rightarrow> (nat \<Rightarrow> instant) \<Rightarrow> (nat \<Rightarrow> event_row list \<Rightarrow> event_row list) \<Rightarrow>
    (nat \<Rightarrow> nat \<Rightarrow> delivery_env) \<Rightarrow> bool" where
  "retry_schedule l i M ok nows ords envs \<longleftrightarrow> (\<forall>k < l. permutes (ords k) \<and> stamp_ok (nows k) \<and>
     (\<forall>j. de_clock (envs k j) 7 + cfg_MaxDelay (de_cfg (envs k j)) \<le> nows (Suc k) \<and> cfg_MaxRetries (de_cfg (envs k j)) = M \<and>
       (\<forall>url ev. ev_ID ev = show_int i \<longrightarrow> fst (de_deliver (envs k j) url ev) = ok k)))"

lemma scheduleD:
  assumes "retry_schedule l i M ok nows ords envs" and "k < l"
  shows "permutes (ords k)" "stamp_ok (nows k)" "de_clock (envs k j) 7 + cfg_MaxDelay (de_cfg (envs k j)) \<le> nows (Suc k)"
    "cfg_MaxRetries (de_cfg (envs k j)) = M" "ev_ID ev = show_int i \<Longrightarrow> fst (de_deliver (envs k j) url ev) = ok k"
  using assms unfolding retry_schedule_def by blast+

lemma settling_step:
  assumes sch: "retry_schedule l i M ok nows ords envs" and m: "m < l"
    and w: "still_waits i a lg (nows m) m (retry_cycles nows ords envs clks m s)"
  shows "if ok m then has_ended i ''success'' (lg @ replicate m ''failed'' @ [''success'']) (retry_cycles nows ords envs clks (Suc m) s)
    else if a + int m + 1 \<ge> M then has_ended i ''failed'' (lg @ replicate (Suc m) ''failed'') (retry_cycles nows ords envs clks (Suc m) s)
    else still_waits i a lg (nows (Suc m)) (Suc m) (retry_cycles nows ords envs clks (Suc m) s)"
proof -
  obtain n d where nd: "retry_cycles nows ords envs clks m s = (n, d)" by force
  obtain r t where q: "quiet d n" and l: "results_of i d = lg @ replicate m ''failed''"
    and r: "event_by_id i d = Some r" "is_pending r" "er_attempts r = a + int m" "er_next_attempt_at r = Some t" "t \<le> nows m"
    using w unfolding nd still_waits_def by auto
  have rdy: "ready_retry (nows m) r" using due_ready [OF q r(1,2,4,5)] .
  obtain n' d' where h: "retry_cycle (nows m) (ords m) (envs m) (clks m) n d = (n', d')" "quiet d' n'"
    "ready_retry (nows m) r \<Longrightarrow> \<exists>k r' success url ev. event_by_id i d' = Some r' \<and> attempted (envs m k) success r r' \<and>
       results_of i d' = results_of i d @ [if success then ''success'' else ''failed''] \<and>
       ev_ID ev = show_int i \<and> fst (de_deliver (envs m k) url ev) = success"
    by (rule cycle_one [OF q scheduleD(1,2) [OF sch m] r(1), of "envs m" "clks m"]) (rule that)
  obtain k r' success where o: "event_by_id i d' = Some r'" "attempted (envs m k) success r r'"
    "results_of i d' = results_of i d @ [if success then ''success'' else ''failed'']" "success = ok m"
    using h(3) [OF rdy] scheduleD(5) [OF sch m] by blast
  have run: "retry_cycles nows ords envs clks (Suc m) s = (n', d')" using nd h(1) by simp
  have late: "de_clock (envs m k) 7 + cfg_MaxDelay (de_cfg (envs m k)) \<le> nows (Suc m)" using scheduleD(3) [OF sch m] .
  have M: "cfg_MaxRetries (de_cfg (envs m k)) = M" using scheduleD(4) [OF sch m] .
  show ?thesis
    unfolding run
    using o h(2) l r(3) late by (auto simp: has_ended_def still_waits_def attempted_def M is_pending_def replicate_append_same)
qed

lemma waits_until:
  assumes sch: "retry_schedule l i M ok nows ords envs" and w: "still_waits i a lg (nows 0) 0 s"
    and "\<And>k. k < m \<Longrightarrow> \<not> ok k" and "m = 0 \<or> a + int m < M" and "m \<le> l"
  shows "still_waits i a lg (nows m) m (retry_cycles nows ords envs clks m s)"
  using assms(3-5)
proof (induction m)
  case (Suc m)
  then have "still_waits i a lg (nows m) m (retry_cycles nows ords envs clks m s)" by auto
  from settling_step [OF sch _ this] show ?case using Suc.prems by auto
qed (use w in simp)

lemma ended_stays:
  assumes sch: "retry_schedule l i M ok nows ords envs" and e: "has_ended i st lg (retry_cycles nows ords envs clks m s)"
    and st: "st \<noteq> ''pending''" and "m \<le> m'" and "m' \<le> l"
  shows "has_ended i st lg (retry_cycles nows ords envs clks m' s)"
  using assms(4,5)
proof (induction m' rule: dec_induct)
  case (step k)
  obtain n d where nd: "retry_cycles nows ords envs clks k s = (n, d)" by force
  obtain r where q: "quiet d n" and l: "results_of i d = lg" and r: "event_by_id i d = Some r" "er_status r = st"
    using step.IH step.prems unfolding nd has_ended_def by auto
  have k: "k < l" using step.prems by simp
  have "\<not> ready_retry (nows k) r" using r(2) st by (simp add: ready_retry_def)
  then obtain n' d' where "retry_cycle (nows k) (ords k) (envs k) (clks k) n d = (n', d')" "quiet d' n'"
    "event_by_id i d' = Some r \<and> results_of i d' = results_of i d"
    using cycle_one [OF q scheduleD(1,2) [OF sch k] r(1), of "envs k" "clks k"] by metis
  then show ?case using nd l r(2) by (simp add: has_ended_def)
qed (rule e)

text \<open>C8: an event that waits for its next attempt is settled. Let \<open>a\<close> be the attempts it has made, and let the endpoint accept it
  in the cycles \<open>k\<close> with \<open>ok k\<close>. When the instance is quiet and the scheduler runs each time the longest
  delay has passed, the event has ended after at most \<open>MaxRetries - a\<close> cycles (one at least): delivered if one of their
  attempts succeeds, after exactly the failures before it, and otherwise given up after that many failures. It stays
  so: no later cycle touches it.
\<close>

theorem waiting_event_settles:
  assumes "quiet d n" and "event_by_id i d = Some r" and "is_pending r" and "er_next_attempt_at r = Some t" and "t \<le> nows 0"
    and sch: "retry_schedule m i M ok nows ords envs"
    and N: "N = nat (max 1 (M - er_attempts r))" and m: "N \<le> m"
  shows "\<exists>n' d' r'. retry_cycles nows ords envs clks m (n, d) = (n', d') \<and> event_by_id i d' = Some r' \<and>
    (if \<exists>k < N. ok k
     then er_status r' = ''success'' \<and> results_of i d' = results_of i d @ replicate (LEAST k. ok k) ''failed'' @ [''success'']
     else er_status r' = ''failed'' \<and> results_of i d' = results_of i d @ replicate N ''failed'')"
proof -
  let ?a = "er_attempts r" and ?l = "results_of i d"
  let ?run = "\<lambda>m. retry_cycles nows ords envs clks m (n, d)"
  have w: "still_waits i ?a ?l (nows 0) 0 (n, d)" using assms(1-5) by (auto simp: still_waits_def)
  have result: "\<exists>n' d' r'. ?run m = (n', d') \<and> event_by_id i d' = Some r' \<and> er_status r' = st \<and> results_of i d' = lg"
    if e: "has_ended i st lg (?run k)" and st: "st \<noteq> ''pending''" and k: "k \<le> m" for st lg k
    using ended_stays [OF sch e st k order_refl] by (cases "?run m") (auto simp: has_ended_def)
  show ?thesis
  proof (cases "\<exists>k < N. ok k")
    case True
    then obtain k where k: "k < N" "ok k" by blast
    let ?f = "LEAST k. ok k"
    have f: "ok ?f" "?f \<le> k" using k(2) by (auto intro: LeastI Least_le)
    have before: "\<not> ok j" if "j < ?f" for j using not_less_Least [OF that] .
    have lim: "?f = 0 \<or> ?a + int ?f < M" using f(2) k(1) N by (cases "?f = 0") linarith+
    have fm: "?f < m" using f(2) k(1) m by linarith
    from settling_step [OF sch fm waits_until [where clks = clks, OF sch w before lim]] fm
    have e: "has_ended i ''success'' (?l @ replicate ?f ''failed'' @ [''success'']) (?run (Suc ?f))" using f(1) by simp
    have le: "Suc ?f \<le> m" using f(2) k(1) m by linarith
    obtain n' d' r' where "?run m = (n', d')" "event_by_id i d' = Some r'" "er_status r' = ''success''"
      "results_of i d' = ?l @ replicate ?f ''failed'' @ [''success'']"
      using result [OF e _ le] by auto
    then show ?thesis using True by (intro exI [of _ n'] exI [of _ d'] exI [of _ r']) simp
  next
    case False
    have "0 < N" unfolding N by simp
    then obtain j where j: "N = Suc j" by (metis gr0_conv_Suc)
    have lim: "j = 0 \<or> ?a + int j < M" using j N by linarith
    have none: "\<not> ok k" if "k < Suc j" for k using False that j by blast
    have jm: "j < m" using j m by simp
    then have "still_waits i ?a ?l (nows j) j (?run j)" using none by (intro waits_until [OF sch w _ lim]) simp_all
    from settling_step [OF sch jm this] none [of j] have e: "has_ended i ''failed'' (?l @ replicate N ''failed'') (?run N)"
      using j N by (auto split: if_splits)
    obtain n' d' r' where "?run m = (n', d')" "event_by_id i d' = Some r'" "er_status r' = ''failed''"
      "results_of i d' = ?l @ replicate N ''failed''"
      using result [OF e _ m] by auto
    then show ?thesis using False by (intro exI [of _ n'] exI [of _ d'] exI [of _ r']) auto
  qed
qed

end
