(* ===== verification/Pool_Anomalies.thy ===== *)
theory Pool_Anomalies
  imports Worker_Pool
begin

text \<open>
  Runs of \<open>internal/service/worker_pool.go\<close> in which the counter of workers or the metrics leave their
  meaning: a late panic, a shutdown that a panic undoes, a sum of durations that wraps, a manager that outlives its pool.
\<close>

section \<open>Where the counter and the metrics go wrong\<close>

definition late_panic_run :: "pool_op list" where
  "late_panic_run = [OpAdjust (\<lambda>m. m) 9 9 1 (\<lambda>_. 2) 3, OpAdjust (\<lambda>m. m) 0 9 3 (\<lambda>_. 3) 4, OpLatePanic 0,
     OpReplace 5, OpAdjust (\<lambda>m. m) 9 9 4 (\<lambda>_. 5) 6]"

text \<open>a worker that panics after its removal is counted twice. With at most two workers allowed: a
  loaded check adds a second worker, an idle one removes the oldest while it processes an event, that
  event panics and lowers the counter again, and the replacement and the next loaded check bring three
  workers into the map while the counter says two.\<close>

theorem late_panic_overcommits:
  "\<exists>wp. pool_run (NewNamedWorkerPool ''DeliveryWorkerPool'' 1 2 1 (\<lambda>_. 1)) late_panic_run = Some wp \<and>
     length (wp_workers wp) = 3 \<and> length (wp_goroutines wp) = 3 \<and> wp_activeWorkers wp = 2 \<and> wp_maxWorkers wp = 2"
proof -
  have "(case pool_run (NewNamedWorkerPool ''DeliveryWorkerPool'' 1 2 1 (\<lambda>_. 1)) late_panic_run of None \<Rightarrow> False | Some wp \<Rightarrow>
     length (wp_workers wp) = 3 \<and> length (wp_goroutines wp) = 3 \<and> wp_activeWorkers wp = 2 \<and> wp_maxWorkers wp = 2)"
    by code_simp
  then show ?thesis by (simp split: option.splits)
qed

text \<open>a shut-down pool can come back. If an event that was in progress at the shutdown panics, the
  deferred function starts a replacement, and the pool has a worker again that it does not count.\<close>

theorem shutdown_is_not_final:
  assumes "pool_safe wp" and "i \<in> set (wp_goroutines wp)"
  shows "\<exists>wp'. pool_run wp [OpShutdown, OpLatePanic i, OpReplace now] = Some wp' \<and>
    map fst (wp_workers wp') = [wp_nextWorkerID wp] \<and> wp_nextWorkerID wp \<in> set (wp_goroutines wp') \<and>
    wp_activeWorkers wp' = 0"
  using assms
  by (simp add: pool_run_def pool_step_def pool_Shutdown_def removed_running_def worker_panicked_def
      addWorker_def Let_def pool_safe_def)

text \<open>the average processing time can be negative. \<open>time.Since\<close> of an event time more than 292 years
  back is the largest duration; two such events make the sum of the processing times wrap around,
  and \<open>GetStats\<close> reports a negative average.\<close>

theorem average_can_be_negative:
  assumes "wp_processingTimeNs wp = 0" and "wp_successfulDeliveries wp = 0" and "wp_failedDeliveries wp = 0"
    and "max_int64 \<le> now - t"
  shows "ps_avg_processing_time_ms (pool_GetStats q
    (RecordSuccess (RecordProcessingTime (time_sub now t) (RecordSuccess (RecordProcessingTime (time_sub now t) wp))))) < Fin 0"
proof -
  have "time_sub now t = max_int64" using assms(4) by (simp add: time_sub_def min_def max_def min_int64_def max_int64_def)
  then have "ps_avg_processing_time_ms (pool_GetStats q
    (RecordSuccess (RecordProcessingTime (time_sub now t) (RecordSuccess (RecordProcessingTime (time_sub now t) wp)))))
    = avg_processing_ms (wrap64 (wrap64 max_int64 + max_int64)) (wrap64 (wrap64 (wrap64 1 + 1)))"
    using assms by (simp add: pool_GetStats_def Let_def RecordSuccess_def RecordProcessingTime_def wrap64_def)
  also have "\<dots> < Fin 0" by code_simp
  finally show ?thesis .
qed

section \<open>The manager outlives the pool\<close>

text \<open>
  \<open>manageWorkerPool\<close>: a ticker, and a check at each of its ticks. The loop has no case for the end of the pool. A check sees
  the length and the capacity of the queue, and reads the clock.
\<close>

inductive manageWorkerPool :: "bool \<times> pool \<Rightarrow> bool \<times> pool \<Rightarrow> bool" where
  ticker: "manageWorkerPool (tick, wp) (True, wp)"
| check: "range_ok ord \<Longrightarrow> queueLength \<le> queueCapacity \<Longrightarrow>
    adjustWorkerCount ord queueLength queueCapacity now clk now' wp = Some wp' \<Longrightarrow>
    manageWorkerPool (True, wp) (False, wp')"

lemma no_rate: "processing_rate 0 since = Fin 0"
proof -
  have z: "f64_round 0 = Fin 0" by (simp add: f64_round_def round_rat_def)
  show ?thesis
    by (cases "duration_seconds since") (auto simp: processing_rate_def Let_def f64_of_int_def z)
qed

lemma long_wait:
  assumes "0 < q" and "q \<le> 2 ^ 53"
  shows "Fin 5 < f64_div (f64_of_int (int q)) (f64_max (f64_round (1 / 1000)) (Fin 0))"
proof -
  obtain c where c: "f64_round (1 / 1000) = Fin c" "2 powi (- 10) \<le> c" "c \<le> 2 powi (- 9)"
    by (rule f64_round_within [OF is_f64_powi _ is_f64_powi, of "- 10" "1 / 1000" "- 9"]) simp_all
  have pos: "0 < c" using c(2) by (rule less_le_trans [rotated]) simp
  have m: "f64_max (f64_round (1 / 1000)) (Fin 0) = Fin c" using c(1) pos by (simp add: f64_max_def)
  have "int q \<le> int (2 ^ 53)" using assms(2) by (simp only: of_nat_le_iff)
  then have "\<bar>int q\<bar> \<le> 2 ^ 53" by simp
  from f64_of_int_exact [OF this] have q: "f64_of_int (int q) = Fin (rat_of_nat q)" by simp
  have "rat_of_nat 1 \<le> rat_of_nat q" "rat_of_nat q \<le> rat_of_nat (2 ^ 53)"
    using assms by (simp_all only: of_nat_le_iff)
  then have b: "1 \<le> rat_of_nat q" "rat_of_nat q \<le> 2 ^ 53" by simp_all
  have lo: "2 powi 9 \<le> rat_of_nat q / c"
  proof -
    have "2 powi 9 * c \<le> 2 powi 9 * 2 powi (- 9)" using c(3) by simp
    also have "\<dots> = 1" by simp
    finally show ?thesis using b(1) pos by (simp add: le_divide_eq)
  qed
  have hi: "rat_of_nat q / c \<le> 2 powi 63"
  proof -
    have "rat_of_nat q \<le> 2 powi 63 * 2 powi (- 10)" using b(2) by simp
    also have "\<dots> \<le> 2 powi 63 * c" using c(2) by simp
    finally show ?thesis using pos by (simp add: divide_le_eq)
  qed
  obtain y where "f64_round (rat_of_nat q / c) = Fin y" "2 powi 9 \<le> y"
    by (rule f64_round_within [OF is_f64_powi lo is_f64_powi hi]) simp_all
  then show ?thesis using pos by (simp add: m q)
qed

text \<open>C27: a pool that was shut down comes back. \<open>Shutdown\<close> stops every worker, but the goroutine that manages the pool runs on: when an event is in
  the queue and none was processed since the last check, its next check starts workers again. They process events
  although the pool was shut down, and no second call of \<open>Shutdown\<close> comes.
\<close>

theorem shut_down_pool_revives:
  assumes "range_ok ord" and "0 < queueLength" and "queueLength \<le> queueCapacity" and "queueLength \<le> 2 ^ 53"
    and "wp_totalProcessed wp = wp_lastProcessed wp" and "1 \<le> wp_minWorkers wp" and "wp_minWorkers wp \<le> wp_maxWorkers wp"
  shows "wp_activeWorkers (pool_Shutdown wp) = 0 \<and> (\<exists>wp'. adjustWorkerCount ord queueLength queueCapacity now clk now' (pool_Shutdown wp) = Some wp' \<and>
    manageWorkerPool\<^sup>*\<^sup>* (tick, pool_Shutdown wp) (False, wp') \<and> 0 < wp_activeWorkers wp' \<and> wp_activeWorkers wp' \<le> 3)"
proof -
  let ?s = "pool_Shutdown wp"
  have s: "wp_activeWorkers ?s = 0" "wp_totalProcessed ?s = wp_lastProcessed ?s" "wp_minWorkers ?s = wp_minWorkers wp"
    "wp_maxWorkers ?s = wp_maxWorkers wp"
    using assms(5) by (simp_all add: pool_Shutdown_def)
  let ?a = "workers_to_add (Fin 0) queueLength (utilization_pct queueLength queueCapacity) 0 (wp_maxWorkers wp)"
  have a: "1 \<le> ?a" "?a \<le> 3"
    using long_wait [OF assms(2,4)] assms(2,6,7) by (auto simp: workers_to_add_def Let_def go_min_def)
  let ?wp1 = "?s\<lparr>wp_lastProcessed := wp_totalProcessed ?s\<rparr>"
  let ?wp' = "(add_times (nat ?a) clk ?wp1)\<lparr>wp_lastCheckTime := now'\<rparr>"
  have adj: "adjustWorkerCount ord queueLength queueCapacity now clk now' ?s = Some ?wp'"
    using s assms(6) by (simp add: adjustWorkerCount_def Let_def no_rate workers_to_remove_def wrap64_def)
  have "wp_activeWorkers ?wp' = min (wp_maxWorkers wp) (int (nat ?a))"
    using add_times_active [of ?wp1 "nat ?a" clk] s assms(6,7) by simp
  then have act: "0 < wp_activeWorkers ?wp'" "wp_activeWorkers ?wp' \<le> 3" using a assms(6,7) by auto
  have "manageWorkerPool\<^sup>*\<^sup>* (tick, ?s) (False, ?wp')"
    by (rule converse_rtranclp_into_rtranclp [where r = manageWorkerPool, OF ticker])
      (rule r_into_rtranclp [where r = manageWorkerPool], rule check [OF assms(1,3) adj])
  with adj act s(1) show ?thesis by blast
qed

lemma shut_down_pool_revives_witness:
  "\<exists>wp. adjustWorkerCount (\<lambda>m. m) 1 1000 5 (\<lambda>_. 5) 5 (pool_Shutdown (NewNamedWorkerPool ''p'' 5 20 0 (\<lambda>_. 0))) = Some wp \<and>
    0 < wp_activeWorkers wp"
proof -
  have r: "range_ok (\<lambda>m. m)" by (simp add: range_ok_def)
  have t: "wp_totalProcessed (add_times n clk wp) = wp_totalProcessed wp" "wp_lastProcessed (add_times n clk wp) = wp_lastProcessed wp"
    "wp_minWorkers (add_times n clk wp) = wp_minWorkers wp" "wp_maxWorkers (add_times n clk wp) = wp_maxWorkers wp" for n clk wp
    by (induction n arbitrary: clk wp) (simp_all add: addWorker_def Let_def)
  let ?wp = "NewNamedWorkerPool ''p'' 5 20 0 (\<lambda>_. 0)"
  have wp: "wp_totalProcessed ?wp = wp_lastProcessed ?wp" "1 \<le> wp_minWorkers ?wp" "wp_minWorkers ?wp \<le> wp_maxWorkers ?wp"
    by (simp_all add: NewNamedWorkerPool_def t Let_def)
  from shut_down_pool_revives [OF r _ _ _ wp, of 1 1000 5 "\<lambda>_. 5" 5] show ?thesis by auto
qed

end
