(* ===== verification/Delivery_Bound.thy ===== *)
theory Delivery_Bound
  imports Lifecycle
begin

text \<open>
  How often an event is handed to a delivery: the runs of the service with the deliveries they make, and the
  bound on them that \<open>MAX_RETRIES\<close> gives as long as the cleanup of stalled events does not run.
\<close>

section \<open>Runs and their deliveries\<close>

text \<open>
  The state after a worker of instance \<open>k\<close> has processed \<open>ev\<close>. A run with the events handed to
  \<open>processEvent\<close>, in order, when no instance allows more than \<open>M\<close> attempts; the other steps are those of the
  service without deliveries and without the cleanup.
\<close>

definition delivered_state :: "nat \<Rightarrow> delivery_env \<Rightarrow> webhook_event \<Rightarrow> system \<Rightarrow> system" where
  "delivered_state k env ev s = (let n = sys_nodes s ! k; v = processEvent env ev (node_service n (sys_db s))
     in (set_node k ((with_service v n)\<lparr>nd_working := remove1 ev (nd_working n)\<rparr>) s)\<lparr>sys_db := sv_db v\<rparr>)"

inductive delivery_run :: "int \<Rightarrow> system \<Rightarrow> webhook_event list \<Rightarrow> system \<Rightarrow> bool" for M :: int and s0 :: system where
  none: "delivery_run M s0 [] s0"
| attempt: "delivery_run M s0 tr s \<Longrightarrow> k < length (sys_nodes s) \<Longrightarrow> ev \<in> set (nd_working (sys_nodes s ! k)) \<Longrightarrow>
    cfg_MaxRetries (de_cfg env) \<le> M \<Longrightarrow> delivery_run M s0 (tr @ [ev]) (delivered_state k env ev s)"
| other: "delivery_run M s0 tr s \<Longrightarrow> service_step False (\<lambda>_. False) s s' \<Longrightarrow> delivery_run M s0 tr s'"

text \<open>A step of the service is a delivery or one of the other steps.\<close>

lemma step_delivers_or_not:
  assumes "service_step stall may s s'"
  shows "service_step stall (\<lambda>_. False) s s' \<or> (\<exists>k ev env. k < length (sys_nodes s) \<and>
    ev \<in> set (nd_working (sys_nodes s ! k)) \<and> may env \<and> s' = delivered_state k env ev s)"
  using assms
proof cases
  case (deliver k n ev v env)
  have "s' = delivered_state k env ev s" unfolding deliver(1,3,5) by (simp add: delivered_state_def Let_def)
  with deliver show ?thesis by blast
qed (auto intro: service_step.intros)

text \<open>The runs are all those of the service, and each is one.\<close>

lemma run_has_deliveries:
  assumes "(service_step False (\<lambda>env. cfg_MaxRetries (de_cfg env) \<le> M))\<^sup>*\<^sup>* s0 s"
  shows "\<exists>tr. delivery_run M s0 tr s"
  using assms
proof (induction rule: rtranclp_induct)
  case base
  show ?case using none by blast
next
  case (step s s')
  then show ?case using step_delivers_or_not [OF step.hyps(2)] by (metis attempt other)
qed

lemma delivered_step:
  assumes "k < length (sys_nodes s)" and "ev \<in> set (nd_working (sys_nodes s ! k))"
  shows "sys_step stall s (delivered_state k env ev s)"
  unfolding delivered_state_def Let_def using assms by (intro service_step.deliver) simp_all

lemma delivery_run_steps: "delivery_run M s0 tr s \<Longrightarrow> (sys_step False)\<^sup>*\<^sup>* s0 s"
proof (induction rule: delivery_run.induct)
  case (attempt tr s k ev env)
  then show ?case using delivered_step by (meson rtranclp.rtrancl_into_rtrancl)
next
  case (other tr s s')
  have "sys_step False s s'" using other.hyps(2) by (rule service_step_mono) simp
  then show ?case using other.IH by (rule rtranclp.rtrancl_into_rtrancl [rotated])
qed simp

section \<open>What the statements do to the attempts of a row\<close>

text \<open>
  Rows that were there keep their number of attempts or get \<open>a\<close>, and none becomes pending unless \<open>again\<close>.
\<close>

definition row_attempt :: "int \<Rightarrow> bool \<Rightarrow> event_row \<Rightarrow> event_row \<Rightarrow> bool" where
  "row_attempt a again r r' \<longleftrightarrow> er_attempts r' \<in> {er_attempts r, a} \<and>
     (er_status r' = ''pending'' \<longrightarrow> er_status r = ''pending'' \<or> again)"

definition row_attempted :: "int \<Rightarrow> bool \<Rightarrow> database \<Rightarrow> database \<Rightarrow> bool" where
  "row_attempted a again d d' \<longleftrightarrow> (\<forall>i. rel_option (row_attempt a again) (event_by_id i d) (event_by_id i d'))"

lemma row_attempt_refl [simp]: "row_attempt a again r r"
  by (simp add: row_attempt_def)

lemma row_attempt_trans: "transp (rel_option (row_attempt a again))"
  by (intro option.rel_transp transpI) (auto simp: row_attempt_def)

interpretation attempted: db_frame "row_attempted a again" for a again
proof unfold_locales
  show "row_attempted a again b d" if "row_attempted a again b c" "row_attempted a again c d" for b c d
    using that transpD [OF row_attempt_trans] unfolding row_attempted_def by blast
qed (simp add: row_attempted_def same_event_by_id option.rel_refl)

lemma attempted_update:
  assumes "\<And>r. er_id (f r) = er_id r" and "\<And>r. row_attempt a again r (f r)"
  shows "db_keeps (row_attempted a again) (update_events now (\<lambda>r. er_id r = i) f)"
  using assms(2)
  by (auto simp: db_keeps_def row_attempted_def update_one_ok event_by_id_def find_set_row assms(1) option.rel_map
      intro!: option.rel_refl_strong)

lemma attempted_LogDeliveryAttempt: "row_attempted a again d (LogDeliveryAttempt now s success response err d)"
proof -
  have "db_keeps (row_attempted a again) (insert_delivery now st rs er j)" for st rs er j
    by (auto simp: db_keeps_def row_attempted_def insert_delivery_def Let_def event_by_id_def intro: option.rel_refl)
  then have "db_keeps (row_attempted a again) (db_statement (dbm_bind (int4_param s) (insert_delivery now st response er)))" for st er
    by (intro attempted.keeps_intros)
  then show ?thesis by (simp add: LogDeliveryAttempt_def db_keeps_def)
qed

lemma attempted_UpdateEventStatus:
  "st \<in> {''success'', ''failed''} \<Longrightarrow> db_keeps (row_attempted a again) (UpdateEventStatus now s st)"
  unfolding UpdateEventStatus_def by (intro attempted.keeps_intros attempted_update) (auto simp: row_attempt_def)

lemma attempted_UpdateEventAttempts: "db_keeps (row_attempted a again) (UpdateEventAttempts now s a la)"
  unfolding UpdateEventAttempts_def by (intro attempted.keeps_intros attempted_update) (simp_all add: row_attempt_def)

lemma attempted_UpdateRetrySchedule: "again \<Longrightarrow> db_keeps (row_attempted a again) (UpdateRetrySchedule now clock s delay)"
  unfolding UpdateRetrySchedule_def Let_def
  by (intro attempted.keeps_intros keeps_if attempted_update) (simp_all add: row_attempt_def retry_row_def)

lemma attempted_processEvent:
  "row_attempted (ev_Attempts ev + 1) (ev_Attempts ev + 1 < cfg_MaxRetries (de_cfg env)) (sv_db s) (sv_db (processEvent env ev s))"
  by (rule processEvent_keeps [where R = "row_attempted _ _"])
    (auto intro: attempted.frame_same attempted.frame_trans attempted_LogDeliveryAttempt attempted_UpdateEventStatus
      attempted_UpdateEventAttempts attempted_UpdateRetrySchedule)

text \<open>An INSERT may add a row, which has no attempts; a release keeps the number.\<close>

definition rows_added :: "database \<Rightarrow> database \<Rightarrow> bool" where
  "rows_added d d' \<longleftrightarrow> (\<forall>i. event_by_id i d' = event_by_id i d \<or>
     event_by_id i d = None \<and> (\<exists>r. event_by_id i d' = Some r \<and> er_attempts r = 0))"

interpretation added: db_frame rows_added
proof unfold_locales
  show "rows_added a c" if "rows_added a b" "rows_added b c" for a b c
    using that unfolding rows_added_def by (metis option.distinct(1))
qed (simp add: rows_added_def same_event_by_id)

lemma added_EnqueueEvent: "db_keeps rows_added (EnqueueEvent now e)"
proof -
  have "db_keeps rows_added (insert_event now e sub seg w)" for sub seg w
    by (auto simp: db_keeps_def rows_added_def insert_event_def Let_def event_by_id_def find_snoc new_event_row_def
        split: option.split)
  then show ?thesis unfolding EnqueueEvent_def StoreEvent_def by (intro added.keeps_intros)
qed

definition attempts_kept :: "database \<Rightarrow> database \<Rightarrow> bool" where
  "attempts_kept d d' \<longleftrightarrow> (\<forall>i. map_option er_attempts (event_by_id i d') = map_option er_attempts (event_by_id i d))"

interpretation kept: db_frame attempts_kept
  by unfold_locales (auto simp: attempts_kept_def same_event_by_id)

lemma kept_ReleaseEvent: "db_keeps attempts_kept (ReleaseEvent now s)"
proof -
  have "db_keeps attempts_kept (update_events now (\<lambda>r. er_id r = i) release_row)" for i
    by (auto simp: db_keeps_def attempts_kept_def update_one_ok event_by_id_def find_set_row option.map_comp
        release_row_def intro!: option.map_cong)
  then show ?thesis unfolding ReleaseEvent_def by (intro kept.keeps_intros)
qed

section \<open>What is logged\<close>

text \<open>Only a delivery adds to \<open>delivery_attempts\<close>, and at most one entry, for its event.\<close>

definition logged :: "int \<Rightarrow> database \<Rightarrow> nat" where
  "logged i d = length (filter (\<lambda>a. dr_event_id a = i) (db_deliveries d))"

definition log_same :: "database \<Rightarrow> database \<Rightarrow> bool" where
  "log_same d d' \<longleftrightarrow> db_deliveries d' = db_deliveries d"

interpretation log: db_frame log_same
  by unfold_locales (auto simp: log_same_def same_tables_fields)

lemma log_same_update: "db_keeps log_same (update_events now p f)"
  by (simp add: db_keeps_def log_same_def update_events_def Let_def)

lemmas log_same_intros = log.keeps_intros log_same_update keeps_if keeps_fetch_error

lemma log_same_methods:
  "db_keeps log_same (UpdateEventStatus now s st)" "db_keeps log_same (UpdateEventAttempts now s n la)"
  "db_keeps log_same (UpdateRetrySchedule now clock s delay)" "db_keeps log_same (ReleaseEvent now s)"
  unfolding UpdateEventStatus_def UpdateEventAttempts_def UpdateRetrySchedule_def ReleaseEvent_def Let_def
  by (intro log_same_intros)+

lemma log_same_claim: "db_keeps log_same (GetAndMarkEventByID now s inst)"
proof -
  have "db_keeps log_same (select_pending i)" for i
    by (rule log.keeps_pure) (auto simp: select_pending_def split: option.split)
  then show ?thesis unfolding GetAndMarkEventByID_def claim_tx_def by (intro log_same_intros)
qed

lemma log_same_EnqueueEvent: "db_keeps log_same (EnqueueEvent now e)"
proof -
  have "db_keeps log_same (insert_event now e sub seg w)" for sub seg w
    by (auto simp: db_keeps_def log_same_def insert_event_def Let_def split: option.split)
  then show ?thesis unfolding EnqueueEvent_def StoreEvent_def by (intro log_same_intros)
qed

lemma log_same_retries: "log_same d (processReadyRetries now ord d)"
proof -
  have "db_keeps log_same (check_retry_events now ord)"
    by (simp add: db_keeps_def log_same_def check_retry_events_def Let_def)
  then have "db_keeps log_same (db_statement (check_retry_events now ord))" by (rule log.keeps_statement)
  then show ?thesis by (simp add: processReadyRetries_def db_keeps_def)
qed

lemma log_one: "db_deliveries (LogDeliveryAttempt now s success response err d) = db_deliveries d \<or>
    (\<exists>j a. db_int4in d s = Some j \<and> dr_event_id a = j \<and>
       db_deliveries (LogDeliveryAttempt now s success response err d) = db_deliveries d @ [a])"
proof -
  obtain r d1 where c: "db_call d = (r, d1)" by force
  then have "same_tables d d1" using db_call_same [of d] by simp
  then have "db_deliveries d1 = db_deliveries d" "db_int4in d1 = db_int4in d" by (simp_all add: same_tables_fields)
  with c show ?thesis
    by (cases r; cases "db_int4in d s")
      (auto simp: LogDeliveryAttempt_def db_statement_def dbm_bind_def int4_param_def insert_delivery_def Let_def)
qed

lemma logged_processEvent:
  assumes "reads_back (sv_db s)" and "int4_range j" and "ev_ID ev = show_int j"
  shows "logged i (sv_db (processEvent env ev s)) \<le> logged i (sv_db s) + (if j = i then 1 else 0)"
proof -
  have "\<exists>d1 success response err. same_tables (sv_db s) d1 \<and>
    log_same (LogDeliveryAttempt (de_clock env 2) (ev_ID ev) success response err d1) (sv_db (processEvent env ev s))"
    by (rule processEvent_logs) (auto simp: log_same_methods log.frame_same intro: log.frame_trans)
  then obtain d1 success response err where d1: "same_tables (sv_db s) d1"
    "db_deliveries (sv_db (processEvent env ev s)) =
      db_deliveries (LogDeliveryAttempt (de_clock env 2) (ev_ID ev) success response err d1)"
    by (auto simp: log_same_def)
  have "db_int4in d1 (ev_ID ev) = Some j" "db_deliveries d1 = db_deliveries (sv_db s)"
    using d1(1) assms by (simp_all add: same_tables_fields reads_back_def)
  then show ?thesis
    using log_one [of "de_clock env 2" "ev_ID ev" success response err d1] d1(2) by (auto simp: logged_def)
qed

lemma log_same_other:
  assumes "service_step False (\<lambda>_. False) s s'"
  shows "log_same (sys_db s) (sys_db s')"
  using assms
proof cases
  case (request k n bind now now' req ans v)
  then show ?thesis using log.frame_same handleWebhookEvent_tables [OF request(4)] by simp
next
  case (store k n ev b v now clock)
  then show ?thesis using log_same_EnqueueEvent by (simp add: store_step_db db_keeps_def)
next
  case (notify k n now now' payload r q d)
  have "log_same (sys_db s) d"
    by (rule handle_keeps [OF _ _ _ _ notify(4)]) (auto intro: log_same_claim log_same_methods log.frame_same log.frame_trans)
  then show ?thesis by (simp add: notify(1))
next
  case (poll k n now stop taken m q d)
  then show ?thesis
    using log.frame_same pollEvents_tables [of now stop taken m "nd_id n" "nd_queue n" "sys_db s"] by auto
next
  case (refresh_server k n key_order clk m c d)
  then show ?thesis using log.frame_same refresh_tables [OF refresh_server(4)] by simp
next
  case (refresh_service k n key_order clk m c d)
  then show ?thesis using log.frame_same refresh_tables [OF refresh_service(4)] by simp
next
  case (retry now ord)
  then show ?thesis using log_same_retries by simp
qed (simp_all add: log_same_def)

section \<open>The bound\<close>

text \<open>
  What \<open>c\<close> deliveries of event \<open>i\<close> leave: an event without a row has none, a waiting one can be delivered once
  more and its row counts at least \<open>c\<close> attempts, and one that is held was read with at least \<open>c\<close>.
\<close>

definition budget :: "int \<Rightarrow> int \<Rightarrow> int \<Rightarrow> system \<Rightarrow> bool" where
  "budget M i c s \<longleftrightarrow> c \<le> max 1 M \<and> (event_by_id i (sys_db s) = None \<longrightarrow> c = 0) \<and>
     (\<forall>r. event_by_id i (sys_db s) = Some r \<and> er_status r = ''pending'' \<longrightarrow> c < max 1 M \<and> c \<le> er_attempts r) \<and>
     (\<forall>ev \<in> set (all_claimed s). ev_ID ev = show_int i \<longrightarrow> c < max 1 M \<and> c \<le> ev_Attempts ev \<and>
        (\<forall>r. event_by_id i (sys_db s) = Some r \<longrightarrow> er_attempts r = ev_Attempts ev + 1))"

lemma budget_frame:
  assumes "budget M i c s" and "event_by_id i (sys_db s') = event_by_id i (sys_db s)"
    and "set (all_claimed s') \<subseteq> set (all_claimed s)"
  shows "budget M i c s'"
  using assms by (auto simp: budget_def)

lemma held_row:
  assumes "held d ev" and "ev_ID ev = show_int i"
  shows "int4_range i \<and> (\<exists>r. event_by_id i d = Some r \<and> er_status r = ''processing'')"
  using assms by (auto simp: held_def show_int_inj)

lemma claimed_node_set:
  assumes "k < length (sys_nodes s)"
  obtains A where "set (all_claimed s) = A \<union> set (node_events (sys_nodes s ! k))"
    "\<And>n d. set (all_claimed ((set_node k n s)\<lparr>sys_db := d\<rparr>)) = A \<union> set (node_events n)"
proof -
  obtain A B where A: "all_claimed s = A @ node_events (sys_nodes s ! k) @ B"
    "\<And>n d. all_claimed ((set_node k n s)\<lparr>sys_db := d\<rparr>) = A @ node_events n @ B"
    using all_claimed_node [OF assms] by blast
  show ?thesis by (rule that [of "set A \<union> set B"]) (auto simp: A)
qed

lemma budget_node:
  assumes "budget M i c s" and "k < length (sys_nodes s)" and "set (node_events n) \<subseteq> set (node_events (sys_nodes s ! k))"
    and "event_by_id i d = event_by_id i (sys_db s)"
  shows "budget M i c ((set_node k n s)\<lparr>sys_db := d\<rparr>)"
proof (rule budget_frame [OF assms(1)])
  obtain A where "set (all_claimed s) = A \<union> set (node_events (sys_nodes s ! k))"
    "\<And>n d. set (all_claimed ((set_node k n s)\<lparr>sys_db := d\<rparr>)) = A \<union> set (node_events n)"
    by (rule claimed_node_set [OF assms(2)]) (rule that)
  then show "set (all_claimed ((set_node k n s)\<lparr>sys_db := d\<rparr>)) \<subseteq> set (all_claimed s)" using assms(3) by auto
qed (simp add: assms(4))

text \<open>A claim takes up a waiting row, whose attempts it counts one higher than the event says.\<close>

lemma budget_claim:
  assumes b: "budget M i c s" and inv: "life_inv s" and k: "k < length (sys_nodes s)"
    and cl: "GetAndMarkEventByID now p inst (sys_db s) = (Inr ev, d)"
    and n: "set (node_events n) = insert ev (set (node_events (sys_nodes s ! k)))"
  shows "budget M i c ((set_node k n s)\<lparr>sys_db := d\<rparr>)"
proof -
  have ok: "sys_ok s" "exclusive s" using inv by (simp_all add: life_inv_def)
  then have rb: "reads_back (sys_db s)" and wf: "db_wf (sys_db s)" by (simp_all add: sys_ok_def)
  obtain j r where j: "event_by_id j (sys_db s) = Some r" "er_status r = ''pending''"
      "event_by_id j d = Some (mark_processing inst now r)"
      "\<And>k. k \<noteq> j \<Longrightarrow> event_by_id k d = event_by_id k (sys_db s)" "ev_ID ev = show_int j" "ev_Attempts ev = er_attempts r"
    by (rule claim_event_by_id [OF cl rb wf]) (rule that)
  obtain A where A: "set (all_claimed s) = A \<union> set (node_events (sys_nodes s ! k))"
    "\<And>n d. set (all_claimed ((set_node k n s)\<lparr>sys_db := d\<rparr>)) = A \<union> set (node_events n)"
    by (rule claimed_node_set [OF k]) (rule that)
  have all: "set (all_claimed ((set_node k n s)\<lparr>sys_db := d\<rparr>)) = insert ev (set (all_claimed s))" using A n by auto
  have new: "ev_ID e \<noteq> ev_ID ev" if "e \<in> set (all_claimed s)" for e
    using exclusive_claim [OF ok(2,1) cl] that by (metis image_eqI)
  show ?thesis
  proof (cases "i = j")
    case True
    have old: "c < max 1 M" "c \<le> er_attempts r" using b j True by (auto simp: budget_def)
    have "ev_ID e \<noteq> show_int i" if "e \<in> set (all_claimed s)" for e using new [OF that] j(5) True by simp
    then show ?thesis using old j True unfolding budget_def all by (simp add: mark_processing_def)
  next
    case False
    then have "ev_ID ev \<noteq> show_int i" using j(5) by (simp add: show_int_inj)
    then show ?thesis using b j(4) [OF False] unfolding budget_def all by auto
  qed
qed

lemma budget_notify:
  assumes b: "budget M i c s" and inv: "life_inv s" and k: "k < length (sys_nodes s)"
    and h: "event_handleNotification now now' inst (\<lambda>q. q) payload (nd_queue (sys_nodes s ! k), sys_db s) = (r, q, d)"
  shows "budget M i c ((set_node k ((sys_nodes s ! k)\<lparr>nd_queue := q\<rparr>) s)\<lparr>sys_db := d\<rparr>)"
  using h
proof (cases rule: handle_cases)
  case none
  then show ?thesis by (intro budget_node [OF b k]) (simp_all add: same_event_by_id)
next
  case (sent p ev)
  then show ?thesis by (intro budget_claim [OF b inv k sent(1)]) (auto simp: node_events_def)
next
  case (released p ev d1 x)
  let ?n = "sys_nodes s ! k"
  let ?s1 = "(set_node k (?n\<lparr>nd_working := ev # nd_working ?n\<rparr>) s)\<lparr>sys_db := d1\<rparr>"
  let ?s2 = "(set_node k (?n\<lparr>nd_queue := q\<rparr>) s)\<lparr>sys_db := d\<rparr>"
  have b1: "budget M i c ?s1"
    by (rule budget_claim [OF b inv k released(1)]) (auto simp: node_events_def)
  obtain A where A: "\<And>n d. set (all_claimed ((set_node k n s)\<lparr>sys_db := d\<rparr>)) = A \<union> set (node_events n)"
    by (rule claimed_node_set [OF k]) (rule that)
  have all: "set (all_claimed ?s1) = insert ev (set (all_claimed ?s2))" using released(2) by (auto simp: A node_events_def)
  have ok: "sys_ok s" "exclusive s" using inv by (simp_all add: life_inv_def)
  have rb: "reads_back d1" using ok db_keepsD [OF hist_GetAndMarkEventByID released(1)]
    by (simp add: sys_ok_def db_grows_def reads_back_def)
  have held: "held d1 ev" using exclusive_claim [OF ok(2,1) released(1)] by simp
  have at: "map_option er_attempts (event_by_id i d) = map_option er_attempts (event_by_id i d1)"
    using db_keepsD [OF kept_ReleaseEvent released(3)] by (simp add: attempts_kept_def)
  have o: "only_row (ev_ID ev) d1 d" using db_keepsD [OF named_ReleaseEvent released(3)] .
  show ?thesis
  proof (cases "ev_ID ev = show_int i")
    case True
    have "c < max 1 M" "c \<le> ev_Attempts ev" "\<And>r. event_by_id i d1 = Some r \<Longrightarrow> er_attempts r = ev_Attempts ev + 1"
      using b1 True unfolding budget_def all by auto
    moreover obtain r1 where "event_by_id i d1 = Some r1" using held_row [OF held True] by blast
    ultimately show ?thesis using b1 at unfolding budget_def all by auto
  next
    case False
    obtain j where j: "int4_range j" "ev_ID ev = show_int j" using held by (auto simp: held_def)
    then have "i \<noteq> j" using False by auto
    then have "event_by_id i d = event_by_id i d1" using o rb j by (simp add: only_row_def reads_back_def)
    then show ?thesis using b1 unfolding budget_def all by auto
  qed
qed

lemma budget_deliver:
  assumes b: "budget M i c s" and inv: "life_inv s" and k: "k < length (sys_nodes s)"
    and ev: "ev \<in> set (nd_working (sys_nodes s ! k))" and M: "cfg_MaxRetries (de_cfg env) \<le> M"
  shows "budget M i (if ev_ID ev = show_int i then c + 1 else c) (delivered_state k env ev s)"
proof -
  let ?n = "sys_nodes s ! k"
  define v where "v = processEvent env ev (node_service ?n (sys_db s))"
  let ?s' = "(set_node k ((with_service v ?n)\<lparr>nd_working := remove1 ev (nd_working ?n)\<rparr>) s)\<lparr>sys_db := sv_db v\<rparr>"
  have s': "delivered_state k env ev s = ?s'" by (simp add: delivered_state_def Let_def v_def)
  have ok: "sys_ok s" "exclusive s" using inv by (simp_all add: life_inv_def)
  have rb: "reads_back (sys_db s)" using ok by (simp add: sys_ok_def)
  obtain A B where A: "all_claimed s = A @ node_events ?n @ B"
    "\<And>n d. all_claimed ((set_node k n s)\<lparr>sys_db := d\<rparr>) = A @ node_events n @ B"
    using all_claimed_node [OF k] by blast
  have "mset (all_claimed s) = add_mset ev (mset (all_claimed ?s'))" using ev by (simp add: A node_events_def)
  then have set: "set (all_claimed s) = insert ev (set (all_claimed ?s'))"
    and "mset (map ev_ID (all_claimed s)) = mset (ev_ID ev # map ev_ID (all_claimed ?s'))"
    by (metis set_mset_add_mset_insert set_mset_mset, simp)
  then have gone: "ev_ID ev \<notin> ev_ID ` set (all_claimed ?s')"
    using ok(2) mset_eq_imp_distinct_iff [of "map ev_ID (all_claimed s)" "ev_ID ev # map ev_ID (all_claimed ?s')"]
    by (simp add: exclusive_def)
  have held: "held (sys_db s) ev" using ok(2) set by (simp add: exclusive_def)
  have o: "only_row (ev_ID ev) (sys_db s) (sv_db v)" using named_processEvent [of ev "node_service ?n (sys_db s)" env] by (simp add: v_def)
  have t: "row_attempted (ev_Attempts ev + 1) (ev_Attempts ev + 1 < cfg_MaxRetries (de_cfg env)) (sys_db s) (sv_db v)"
    using attempted_processEvent [of ev env "node_service ?n (sys_db s)"] by (simp add: v_def)
  show ?thesis
  proof (cases "ev_ID ev = show_int i")
    case True
    obtain r where r: "event_by_id i (sys_db s) = Some r" "er_status r = ''processing''" using held_row [OF held True] by blast
    have c: "c < max 1 M" "c \<le> ev_Attempts ev" "er_attempts r = ev_Attempts ev + 1"
      using b r(1) True unfolding budget_def set by auto
    have "rel_option (row_attempt (ev_Attempts ev + 1) (ev_Attempts ev + 1 < cfg_MaxRetries (de_cfg env))) (Some r)
        (event_by_id i (sv_db v))"
      using t r(1) unfolding row_attempted_def by metis
    then obtain r' where r': "event_by_id i (sv_db v) = Some r'"
      "row_attempt (ev_Attempts ev + 1) (ev_Attempts ev + 1 < cfg_MaxRetries (de_cfg env)) r r'" by (auto simp: option_rel_Some1)
    then have "er_attempts r' = ev_Attempts ev + 1" "er_status r' = ''pending'' \<longrightarrow> ev_Attempts ev + 1 < M"
      using c(3) r(2) M by (auto simp: row_attempt_def)
    moreover have "ev_ID e \<noteq> show_int i" if "e \<in> set (all_claimed ?s')" for e using gone that True by (metis image_eqI)
    ultimately show ?thesis using c r' True unfolding s' budget_def by auto
  next
    case False
    obtain j where j: "int4_range j" "ev_ID ev = show_int j" using held by (auto simp: held_def)
    then have "i \<noteq> j" using False by auto
    then have "event_by_id i (sv_db v) = event_by_id i (sys_db s)" using o rb j by (simp add: only_row_def reads_back_def)
    then have "budget M i c ?s'" using b unfolding budget_def set by auto
    then show ?thesis using False by (simp add: s')
  qed
qed

lemma budget_other:
  assumes b: "budget M i c s" and inv: "life_inv s" and st: "service_step False (\<lambda>_. False) s s'"
  shows "budget M i c s'"
  using st
proof cases
  case (request k n bind now now' req ans v)
  have "same_tables (sys_db s) (srv_db v)" using handleWebhookEvent_tables [OF request(4)] by simp
  then show ?thesis unfolding request(1) using request(3) by (intro budget_node [OF b request(2)]) (simp_all add: same_event_by_id)
next
  case (store k n ev x v now clock)
  have "rows_added (sys_db s) (srv_db v)" using added_EnqueueEvent store(5) by (simp add: store_step_db db_keeps_def)
  then consider (same) "event_by_id i (srv_db v) = event_by_id i (sys_db s)"
    | (new) r where "event_by_id i (sys_db s) = None" "event_by_id i (srv_db v) = Some r" "er_attempts r = 0"
    unfolding rows_added_def by blast
  then show ?thesis
  proof cases
    case same
    then show ?thesis unfolding store(1) using store(3) by (intro budget_node [OF b store(2)]) simp_all
  next
    case new
    obtain A where A: "set (all_claimed s) = A \<union> set (node_events (sys_nodes s ! k))"
      "\<And>n d. set (all_claimed ((set_node k n s)\<lparr>sys_db := d\<rparr>)) = A \<union> set (node_events n)"
      by (rule claimed_node_set [OF store(2)]) (rule that)
    have all: "set (all_claimed s') = set (all_claimed s)" using store(3) unfolding store(1) A by simp
    have "ev_ID e \<noteq> show_int i" if "e \<in> set (all_claimed s)" for e
      using held_row [of "sys_db s" e i] inv that new(1) by (auto simp: life_inv_def exclusive_def)
    then show ?thesis using b new unfolding budget_def all by (auto simp: store(1))
  qed
next
  case (notify k n now now' payload r q d)
  then show ?thesis using budget_notify [OF b inv] by simp
next
  case (take k n ev q)
  have "budget M i c ((set_node k (n\<lparr>nd_queue := q, nd_working := ev # nd_working n\<rparr>) s)\<lparr>sys_db := sys_db s\<rparr>)"
    using take(3,4) by (intro budget_node [OF b take(2)]) (auto simp: node_events_def)
  then show ?thesis unfolding take(1) by (simp add: set_node_def)
next
  case (retry now ord)
  then show ?thesis by (intro budget_frame [OF b]) (simp_all add: retry_events all_claimed_def)
next
  case (poll k n now stop taken m q d)
  have t: "q = nd_queue n" "same_tables (sys_db s) d"
    using pollEvents_tables [of now stop taken m "nd_id n" "nd_queue n" "sys_db s"] poll(4) by auto
  show ?thesis unfolding poll(1) using poll(3) t by (intro budget_node [OF b poll(2)]) (simp_all add: same_event_by_id)
next
  case (config k n payload)
  have "budget M i c ((set_node k (n\<lparr>nd_server_cache := config_handleNotification payload (nd_server_cache n)\<rparr>) s)\<lparr>sys_db := sys_db s\<rparr>)"
    using config(3) by (intro budget_node [OF b config(2)]) simp_all
  then show ?thesis unfolding config(1) by (simp add: set_node_def)
next
  case (crash k n inst)
  let ?m = "n\<lparr>nd_id := inst, nd_buffer := make_chan (ch_cap (nd_buffer n)), nd_queue := make_chan (ch_cap (nd_queue n)),
      nd_working := [], nd_server_cache := NewWebhookConfigCache cache_ttl, nd_service_cache := NewWebhookConfigCache cache_ttl\<rparr>"
  have "budget M i c ((set_node k ?m s)\<lparr>sys_db := sys_db s\<rparr>)"
    by (intro budget_node [OF b crash(2)]) (simp_all add: node_events_def make_chan_def)
  then show ?thesis unfolding crash(1) by (simp add: set_node_def)
next
  case (refresh_server k n key_order clk m x d)
  show ?thesis unfolding refresh_server(1) using refresh_server(3) same_event_by_id [OF refresh_tables [OF refresh_server(4)]]
    by (intro budget_node [OF b refresh_server(2)]) simp_all
next
  case (refresh_service k n key_order clk m x d)
  show ?thesis unfolding refresh_service(1) using refresh_service(3) same_event_by_id [OF refresh_tables [OF refresh_service(4)]]
    by (intro budget_node [OF b refresh_service(2)]) simp_all
next
  case (workers k n a p a' p')
  have "budget M i c ((set_node k (n\<lparr>nd_request_pool := p, nd_delivery_pool := p'\<rparr>) s)\<lparr>sys_db := sys_db s\<rparr>)"
    using workers(3) by (intro budget_node [OF b workers(2)]) simp_all
  then show ?thesis unfolding workers(1) by (simp add: set_node_def)
next
  case (outside cs fs ls)
  then show ?thesis by (intro budget_frame [OF b]) (simp_all add: event_by_id_def all_claimed_def)
qed simp_all

lemma budget_start:
  assumes "sys_start s"
  shows "budget M i 0 s"
proof -
  have "0 \<le> er_attempts r" if "event_by_id i (sys_db s) = Some r" for r
    using assms event_by_id_SomeD [OF that] by (simp add: sys_start_def db_wf_def row_ok_def)
  then show ?thesis using start_claimed [OF assms] by (auto simp: budget_def)
qed

lemma deliver_inv:
  assumes "life_inv s" and "k < length (sys_nodes s)" and "ev \<in> set (nd_working (sys_nodes s ! k))"
  shows "life_inv (delivered_state k env ev s) \<and> held (sys_db s) ev"
proof -
  have "ev \<in> set (all_claimed s)" using assms(2,3) by (auto simp: all_claimed_def node_events_def)
  then show ?thesis using life_inv_step [OF assms(1) delivered_step [OF assms(2,3)]] assms(1)
    by (simp add: life_inv_def exclusive_def)
qed

lemma logged_deliver:
  assumes "life_inv s" and "held (sys_db s) ev"
  shows "logged i (sys_db (delivered_state k env ev s)) \<le> logged i (sys_db s) + (if ev_ID ev = show_int i then 1 else 0)"
proof -
  obtain j where j: "int4_range j" "ev_ID ev = show_int j" using assms(2) by (auto simp: held_def)
  have "reads_back (sv_db (node_service (sys_nodes s ! k) (sys_db s)))" using assms(1) by (simp add: life_inv_def sys_ok_def)
  from logged_processEvent [OF this j, of i env] j show ?thesis
    by (simp add: delivered_state_def Let_def show_int_inj)
qed

abbreviation times_delivered :: "int \<Rightarrow> webhook_event list \<Rightarrow> nat" where
  "times_delivered i tr \<equiv> length (filter (\<lambda>ev. ev_ID ev = show_int i) tr)"

lemma run_budget:
  assumes "delivery_run M s0 tr s" and "sys_start s0"
  shows "life_inv s \<and> budget M i (int (times_delivered i tr)) s \<and>
    logged i (sys_db s) \<le> logged i (sys_db s0) + times_delivered i tr"
  using assms
proof (induction rule: delivery_run.induct)
  case none
  then show ?case using life_inv_start budget_start [of s0 M i] by simp
next
  case (attempt tr s k ev env)
  then have IH: "life_inv s" "budget M i (int (times_delivered i tr)) s"
    "logged i (sys_db s) \<le> logged i (sys_db s0) + times_delivered i tr" by simp_all
  note inv = deliver_inv [OF IH(1) attempt.hyps(2,3), of env]
  have "logged i (sys_db (delivered_state k env ev s)) \<le> logged i (sys_db s0) + times_delivered i (tr @ [ev])"
    using logged_deliver [OF IH(1) conjunct2 [OF inv], of i k env] IH(3) by (auto split: if_splits)
  moreover have "budget M i (int (times_delivered i (tr @ [ev]))) (delivered_state k env ev s)"
    using budget_deliver [OF IH(2,1) attempt.hyps(2,3,4)] by (auto split: if_splits simp: algebra_simps)
  ultimately show ?case using inv by blast
next
  case (other tr s s')
  then have IH: "life_inv s" "budget M i (int (times_delivered i tr)) s"
    "logged i (sys_db s) \<le> logged i (sys_db s0) + times_delivered i tr" by simp_all
  have "sys_step False s s'" using other.hyps(2) by (rule service_step_mono) simp
  moreover have "logged i (sys_db s') = logged i (sys_db s)"
    using log_same_other [OF other.hyps(2)] by (simp add: logged_def log_same_def)
  ultimately show ?case using life_inv_step [OF IH(1)] budget_other [OF IH(2,1) other.hyps(2)] IH(3) by simp
qed

text \<open>C6: no event is delivered more often than the settings allow. Along every run of any number of instances
  without the cleanup of stalled events, whatever the requests, notifications, faults and crashes, an event
  is handed to a delivery at most \<open>MAX_RETRIES\<close> times, or once if that is not positive; the table of attempts
  has no more new entries for it than that; and while it waits again its deliveries are counted in its
  row and another one is left.\<close>

theorem deliveries_within_retries:
  assumes "sys_start s0" and "delivery_run M s0 tr s"
  shows "int (times_delivered i tr) \<le> max 1 M \<and>
    logged i (sys_db s) \<le> logged i (sys_db s0) + times_delivered i tr \<and>
    (\<forall>r. event_by_id i (sys_db s) = Some r \<and> er_status r = ''pending'' \<longrightarrow>
       int (times_delivered i tr) \<le> er_attempts r \<and> int (times_delivered i tr) < max 1 M)"
  using run_budget [OF assms(2,1), of i] unfolding budget_def by blast

end
