(* ===== verification/Broadcast.thy ===== *)
theory Broadcast
  imports System
begin

text \<open>
  A notification reaches every instance that listens. What becomes of its event, when the instances handle it
  one after the other, in any order: PostgreSQL locks the row, so the transactions of their claims do not overlap.
\<close>

section \<open>Every instance hears it\<close>

text \<open>\<open>clk k\<close> are the readings of the clock while instance \<open>k\<close> handles the notification, \<open>ks\<close> the order.\<close>

definition hear :: "(nat \<Rightarrow> nat \<Rightarrow> instant) \<Rightarrow> json option \<Rightarrow> nat \<Rightarrow> system \<Rightarrow> system" where
  "hear clk payload k s = (let n = sys_nodes s ! k in
     case event_handleNotification (clk k 0) (clk k 1) (nd_id n) (\<lambda>q. q) payload (nd_queue n, sys_db s) of
       (_, q, d) \<Rightarrow> (set_node k (n\<lparr>nd_queue := q\<rparr>) s)\<lparr>sys_db := d\<rparr>)"

definition broadcast :: "(nat \<Rightarrow> nat \<Rightarrow> instant) \<Rightarrow> json option \<Rightarrow> nat list \<Rightarrow> system \<Rightarrow> system" where
  "broadcast clk payload ks s = fold (hear clk payload) ks s"

lemma broadcast_simps [simp]:
  "broadcast clk payload [] s = s" "broadcast clk payload (k # ks) s = broadcast clk payload ks (hear clk payload k s)"
  "broadcast clk payload (ks @ ks') s = broadcast clk payload ks' (broadcast clk payload ks s)"
  by (simp_all add: broadcast_def)

text \<open>It is a run of the service.\<close>

lemma hear_step: "k < length (sys_nodes s) \<Longrightarrow> sys_step stall s (hear clk payload k s)"
  by (auto simp: hear_def Let_def split: prod.split intro: service_step.notify)

lemma hear_nodes [simp]: "length (sys_nodes (hear clk payload k s)) = length (sys_nodes s)"
  by (simp add: hear_def Let_def split: prod.split)

lemma broadcast_run:
  "list_all (\<lambda>k. k < length (sys_nodes s)) ks \<Longrightarrow> (sys_step stall)\<^sup>*\<^sup>* s (broadcast clk payload ks s)"
proof (induction ks arbitrary: s)
  case (Cons k ks)
  then show ?case using hear_step [of k s stall clk payload]
    by (auto intro: converse_rtranclp_into_rtranclp)
qed simp

section \<open>Who gets the event\<close>

text \<open>A waiting event that can be claimed: no call fails, and the row is pending, unlocked and readable.\<close>

definition offered :: "int \<Rightarrow> event_row \<Rightarrow> webhook_event \<Rightarrow> database \<Rightarrow> bool" where
  "offered i r ev d \<longleftrightarrow> db_faults d = [] \<and> db_wf d \<and> reads_back d \<and> int4_range i \<and> i \<notin> set (db_locked d) \<and>
     event_by_id i d = Some r \<and> er_status r = ''pending'' \<and> scanEventFromRow r = Inr ev"

lemma offeredD:
  assumes "offered i r ev d"
  shows "db_faults d = []" "db_wf d" "reads_back d" "int4_range i" "i \<notin> set (db_locked d)"
    "event_by_id i d = Some r" "er_status r = ''pending''" "scanEventFromRow r = Inr ev"
  using assms by (simp_all add: offered_def)

lemma scan_attempts:
  "scanEventFromRow r = Inr ev \<Longrightarrow> scanEventFromRow (r\<lparr>er_attempts := n\<rparr>) = Inr (ev\<lparr>ev_Attempts := n\<rparr>)"
  by (auto simp: scanEventFromRow_def Let_def split: sum.splits option.splits)

text \<open>An instance whose channel is full gives the event back; it is offered again with one attempt more.\<close>

lemma hear_full:
  assumes o: "offered i r ev (sys_db s)" and k: "k < length (sys_nodes s)" and full: "\<not> chan_room (nd_queue (sys_nodes s ! k))"
    and t: "stamp_ok t"
  shows "sys_nodes (hear clk (Some (notify_payload tg_op i w t)) k s) = sys_nodes s \<and>
    offered i (r\<lparr>er_attempts := er_attempts r + 1\<rparr>) (ev\<lparr>ev_Attempts := er_attempts r + 1\<rparr>)
      (sys_db (hear clk (Some (notify_payload tg_op i w t)) k s)) \<and>
    (\<forall>j. j \<noteq> i \<longrightarrow> event_by_id j (sys_db (hear clk (Some (notify_payload tg_op i w t)) k s)) = event_by_id j (sys_db s))"
proof -
  let ?n = "sys_nodes s ! k" and ?d = "sys_db s"
  note f = offeredD [OF o]
  obtain d where d: "event_handleNotification (clk k 0) (clk k 1) (nd_id ?n) (\<lambda>q. q) (Some (notify_payload tg_op i w t)) (nd_queue ?n, ?d) =
      (Inl (Errorf (''event queue is full, could not enqueue event: '' @ show_int i)), nd_queue ?n, d)"
    "d = ?d\<lparr>db_events := set_row i (\<lambda>r. release_row (mark_processing (nd_id ?n) (clk k 0) r)) (db_events ?d),
       db_notes := db_notes ?d @ notify_webhook_event_change ''UPDATE'' (clk k 1) (r\<lparr>er_attempts := er_attempts r + 1\<rparr>)\<rparr>"
    "release_row (mark_processing (nd_id ?n) (clk k 0) r) = r\<lparr>er_attempts := er_attempts r + 1\<rparr>"
    using handle_gives_back [where taken = "\<lambda>q. q" and q = "nd_queue ?n", OF f t full] by blast
  have h: "hear clk (Some (notify_payload tg_op i w t)) k s = (set_node k (?n\<lparr>nd_queue := nd_queue ?n\<rparr>) s)\<lparr>sys_db := d\<rparr>"
    by (simp add: hear_def Let_def d(1) del: One_nat_def)
  have e: "event_by_id j d = map_option (\<lambda>x. if j = i then r\<lparr>er_attempts := er_attempts r + 1\<rparr> else x) (event_by_id j ?d)" for j
    using f(6) d(3) unfolding d(2) by (cases "j = i") (simp_all add: event_by_id_def find_set_row)
  have "wf_kept ?d d" using wf_handleNotification [OF d(1)] .
  then have "db_wf d" using f(2) by (simp add: wf_kept_def)
  moreover have "db_int4in d = db_int4in ?d" "db_faults d = []" "db_locked d = db_locked ?d" by (simp_all add: d(2) f(1))
  ultimately have "offered i (r\<lparr>er_attempts := er_attempts r + 1\<rparr>) (ev\<lparr>ev_Attempts := er_attempts r + 1\<rparr>) d"
    using f scan_attempts [OF f(8)] by (simp add: offered_def e reads_back_def)
  moreover have "event_by_id j d = event_by_id j ?d" if "j \<noteq> i" for j using e [of j] that by (simp add: option.map_ident)
  ultimately show ?thesis using k by (simp add: h)
qed

lemma broadcast_full:
  assumes "offered i r ev (sys_db s)" and "stamp_ok t"
    and "list_all (\<lambda>k. k < length (sys_nodes s) \<and> \<not> chan_room (nd_queue (sys_nodes s ! k))) ks"
  shows "sys_nodes (broadcast clk (Some (notify_payload tg_op i w t)) ks s) = sys_nodes s \<and>
    offered i (r\<lparr>er_attempts := er_attempts r + int (length ks)\<rparr>) (ev\<lparr>ev_Attempts := er_attempts r + int (length ks)\<rparr>)
      (sys_db (broadcast clk (Some (notify_payload tg_op i w t)) ks s)) \<and>
    (\<forall>j. j \<noteq> i \<longrightarrow> event_by_id j (sys_db (broadcast clk (Some (notify_payload tg_op i w t)) ks s)) = event_by_id j (sys_db s))"
  using assms(1,3)
proof (induction ks arbitrary: r ev s)
  case Nil
  have "ev_Attempts ev = er_attempts r" using scan_fields(6) offeredD(8) [OF Nil(1)] by blast
  then have "r\<lparr>er_attempts := er_attempts r\<rparr> = r" "ev\<lparr>ev_Attempts := er_attempts r\<rparr> = ev" by simp_all
  with Nil show ?case by simp
next
  case (Cons k ks)
  let ?s = "hear clk (Some (notify_payload tg_op i w t)) k s"
  have h: "sys_nodes ?s = sys_nodes s" "offered i (r\<lparr>er_attempts := er_attempts r + 1\<rparr>) (ev\<lparr>ev_Attempts := er_attempts r + 1\<rparr>) (sys_db ?s)"
    "\<And>j. j \<noteq> i \<Longrightarrow> event_by_id j (sys_db ?s) = event_by_id j (sys_db s)"
    using hear_full [OF Cons.prems(1) _ _ assms(2)] Cons.prems(2) by auto
  show ?case using Cons.IH [OF h(2)] Cons.prems(2) h by (simp add: add.assoc)
qed

text \<open>After the claim the other instances find nothing to do.\<close>

lemma broadcast_ignored:
  assumes o: "offered i r ev d" and t: "stamp_ok t"
    and d: "sys_db s = d\<lparr>db_events := set_row i (mark_processing inst now) (db_events d)\<rparr>"
    and ks: "list_all (\<lambda>k. k < length (sys_nodes s)) ks"
  shows "broadcast clk (Some (notify_payload tg_op i w t)) ks s = s"
  using ks
proof (induction ks)
  case (Cons k ks)
  let ?q = "make_chan 1 :: event_queue"
  note f = offeredD [OF o]
  have room: "chan_room ((\<lambda>q. q) ?q)" by (simp add: chan_room_def chan_len_def make_chan_def)
  have "event_handleNotification (clk k 0) (clk k 1) (nd_id (sys_nodes s ! k)) (\<lambda>q. q) (Some (notify_payload tg_op i w t))
      (nd_queue (sys_nodes s ! k), sys_db s) = (Inr (), nd_queue (sys_nodes s ! k), sys_db s)"
    unfolding d by (rule second_instance_ignores [where taken = "\<lambda>q. q" and q = ?q, OF f t room handle_sends [where taken = "\<lambda>q. q" and q = ?q, OF f t room]])
  then have "hear clk (Some (notify_payload tg_op i w t)) k s = s" by (simp add: hear_def Let_def set_node_def del: One_nat_def)
  then show ?case using Cons by simp
qed simp


end
