(* ===== verification/Witnesses.thy ===== *)
theory Witnesses
  imports Retry_Cycle Pool_Anomalies Delivery_Bound Broadcast
begin

text \<open>
  Concrete inputs at which the hypotheses of the properties hold: a database with one configuration and
  one pending event, an instance, pools of workers, requests and deliveries, and each property applied
  to them.
\<close>

section \<open>A small database\<close>

text \<open>An input function for INTEGER: what \<^const>\<open>atoi\<close> reads, within four bytes.\<close>

definition sample_int4in :: "string \<Rightarrow> int option" where
  "sample_int4in s = (case atoi s of None \<Rightarrow> None | Some i \<Rightarrow> if int4_range i then Some i else None)"

definition sample_subscriber :: subscriber where
  "sample_subscriber = zero_subscriber\<lparr>sub_ID := ''s1'', sub_Status := ''active'', sub_Email := ''a@b.c''\<rparr>"

definition sample_event :: webhook_event where
  "sample_event = zero_event\<lparr>ev_WebhookID := ''1'', ev_EventName := EventSubscriberCreated,
     ev_EventTime := unix_epoch, ev_Subscriber := sample_subscriber\<rparr>"

definition sample_subscriber_json :: json where
  "sample_subscriber_json = (case marshal_subscriber sample_subscriber of Inl e \<Rightarrow> JNull | Inr j \<Rightarrow> j)"

definition sample_config :: config_row where
  "sample_config = \<lparr>cr_id = 1, cr_name = ''news'', cr_post_url = ''http://h/w'', cr_events = [EventSubscriberCreated]\<rparr>"

definition sample_now :: instant where
  "sample_now = unix_epoch + nano_second"

definition sample_row :: event_row where
  "sample_row = new_event_row 7 1 sample_event sample_subscriber_json None sample_now"

definition sample_db :: database where
  "sample_db = \<lparr>db_configs = [sample_config], db_events = [sample_row], db_deliveries = [], db_next_event = 8,
     db_next_delivery = 1, db_notes = [], db_locked = [], db_faults = [], db_int4in = sample_int4in\<rparr>"

text \<open>The event a claim of the row returns.\<close>

definition sample_claim :: webhook_event where
  "sample_claim = sample_event\<lparr>ev_ID := ''7'', ev_Status := ''pending'', ev_CreatedAt := sample_now\<rparr>"

lemmas sample_defs = sample_subscriber_def sample_event_def sample_subscriber_json_def sample_config_def
  sample_now_def sample_row_def sample_claim_def

lemma show_int_small [simp]: "show_int 1 = ''1''" "show_int 7 = ''7''" "show_int 8 = ''8''"
  by code_simp+

lemma sample_int4in_show: "sample_int4in (show_int i) = (if int4_range i then Some i else None)"
  by (auto simp: sample_int4in_def atoi_show_int int4_range_def min_int64_def max_int64_def)

lemma sample_int4in_small [simp]: "sample_int4in ''1'' = Some 1" "sample_int4in ''7'' = Some 7" "sample_int4in ''8'' = Some 8"
  using sample_int4in_show [of 1] sample_int4in_show [of 7] sample_int4in_show [of 8] by (simp_all add: int4_range_def)

lemma sample_reads_back: "db_int4in d = sample_int4in \<Longrightarrow> reads_back d"
  by (auto simp: reads_back_def sample_int4in_show) (auto simp: sample_int4in_def split: option.splits if_splits)

lemma sample_row_fields [simp]:
  "er_id sample_row = 7" "er_webhook_id sample_row = 1" "er_status sample_row = ''pending''"
  "er_attempts sample_row = 0" "er_next_attempt_at sample_row = None" "row_ok sample_row"
  by (simp_all add: sample_row_def new_event_row_def row_ok_def)

lemma sample_config_fields [simp]:
  "cr_id sample_config = 1" "cr_events sample_config = [EventSubscriberCreated]" "cr_post_url sample_config = ''http://h/w''"
  by (simp_all add: sample_config_def)

lemma sample_db_fields [simp]:
  "db_configs sample_db = [sample_config]" "db_events sample_db = [sample_row]" "db_deliveries sample_db = []"
  "db_next_event sample_db = 8" "db_next_delivery sample_db = 1" "db_notes sample_db = []" "db_locked sample_db = []"
  "db_faults sample_db = []" "db_int4in sample_db = sample_int4in"
  by (simp_all add: sample_db_def)

lemma sample_wf [simp]: "db_wf sample_db"
  by (simp add: db_wf_def)

lemma sample_reads [simp]: "reads_back sample_db"
  by (rule sample_reads_back) simp

lemma sample_by_id [simp]: "event_by_id 7 sample_db = Some sample_row"
  by (simp add: event_by_id_def)

lemma sample_scan [simp]: "scanEventFromRow sample_row = Inr sample_claim"
  by code_simp

lemma sample_int4 [simp]: "int4_range 7" "int4_range 8"
  by (simp_all add: int4_range_def)

lemma sample_stamp [simp]: "stamp_ok sample_now"
  by (simp add: stamp_ok_def sample_now_def nano_second_def)

lemma sample_current [simp]:
  "current_config sample_db ''1'' = Some \<lparr>dto_ID = ''1'', dto_Events = [EventSubscriberCreated], dto_PostURL = ''http://h/w''\<rparr>"
proof -
  have "str_join CHR '','' [EventSubscriberCreated] \<noteq> []" "str_split CHR '','' EventSubscriberCreated = [EventSubscriberCreated]"
    by (simp_all add: EventSubscriberCreated_def)
  then show ?thesis by (simp add: current_config_def find_config_def config_dto_of_def)
qed

lemma empty_cache_agrees [simp]: "cache_agrees cur (NewWebhookConfigCache ttl)"
  by (simp add: cache_agrees_def NewWebhookConfigCache_def)

section \<open>The tables\<close>

definition claimed_db :: "instant \<Rightarrow> string \<Rightarrow> database" where
  "claimed_db now inst = sample_db\<lparr>db_events := [mark_processing inst now sample_row]\<rparr>"

lemma sample_claimed: "GetAndMarkEventByID now ''7'' inst sample_db =
    (Inr (sample_claim\<lparr>ev_ProcessingInstance := Some inst\<rparr>), claimed_db now inst)"
  using claim_ok [of sample_db "''7''" 7 sample_row sample_claim now inst]
  by (simp add: claimed_db_def set_row_def)

lemma claim_exclusive_witness:
  "\<exists>e. fst (GetAndMarkEventByID 5 ''7'' ''b'' (claimed_db 3 ''a'')) = Inl e"
  using claim_exclusive [OF sample_wf sample_reads sample_claimed [of 3 "''a''"], of 5 "''b''"]
  by (simp add: sample_claim_def)

lemma sample_event_fields [simp]:
  "ev_WebhookID sample_event = ''1''" "ev_EventName sample_event = EventSubscriberCreated"
  "ev_Subscriber sample_event = sample_subscriber" "ev_EventTime sample_event = unix_epoch"
  by (simp_all add: sample_event_def)

lemma sample_subscriber_marshals [simp]: "subscriber_marshals sample_subscriber"
  by (simp add: subscriber_marshals_def sample_subscriber_def zero_subscriber_def time_has_text_def nano_second_def)



section \<open>The configuration cache\<close>

lemma sample_names [simp]: "distinct (map cr_id (db_configs sample_db))"
  "\<forall>r \<in> set (db_configs sample_db). names_travel (cr_events r)"
  by (simp_all add: names_travel_def EventSubscriberCreated_def)

definition sample_dto :: config_dto where
  "sample_dto = \<lparr>dto_ID = ''1'', dto_Events = [EventSubscriberCreated], dto_PostURL = ''http://h/w''\<rparr>"

lemma sample_fetch [simp]: "GetWebhookByID ''1'' sample_db = (Inr sample_dto, sample_db)"
  using sample_current
  by (auto simp: GetWebhookByID_def current_config_def int4_param_def dbm_bind_def sample_dto_def)

lemma sample_miss: "cache_ValidateWebhook GetWebhookByID now now' ''1'' EventSubscriberCreated (NewWebhookConfigCache ttl, sample_db) =
    (Inr True, cache_store now' ''1'' sample_dto (NewWebhookConfigCache ttl), sample_db)"
  by (simp add: cache_ValidateWebhook_def cache_lookup_def NewWebhookConfigCache_def sample_dto_def)

lemma cached_validation_correct_witness:
  "cache_agrees (current_config sample_db) (cache_store 6 ''1'' sample_dto (NewWebhookConfigCache cache_ttl))"
proof -
  have v: "ValidateWebhook ''1'' EventSubscriberCreated sample_db = (Inr True, sample_db)"
    by (simp add: ValidateWebhook_def dbm_bind_def int4_param_def)
  show ?thesis
    using cached_validation_correct [OF empty_cache_agrees sample_names sample_miss v] by blast
qed

lemma cache_staleness_bound_witness:
  "\<exists>s t. w_now s = 5 \<and> cache_lookup 5 ''1'' (w_cache s) = Some sample_dto \<and> was_current s t ''1'' sample_dto \<and> 5 < t + 0 + 10"
proof -
  let ?s0 = "world_start 10 5 sample_db"
  let ?s1 = "?s0\<lparr>w_db := sample_db, w_flight := [(5, ''1'', sample_dto)], w_past := [(5, sample_db)]\<rparr>"
  let ?s2 = "?s1\<lparr>w_cache := cache_store 5 ''1'' sample_dto (NewWebhookConfigCache 10), w_flight := []\<rparr>"
  have "cache_step 0 ?s0 ?s1"
    using fetched [of "''1''" ?s0 sample_dto sample_db 0] by (simp add: world_start_def)
  moreover have "cache_step 0 ?s1 ?s2"
    using stored [of 5 "''1''" sample_dto ?s1 0] by (simp add: world_start_def)
  ultimately have run: "(cache_step 0)\<^sup>*\<^sup>* ?s0 ?s2"
    by (meson converse_rtranclp_into_rtranclp rtranclp.rtrancl_refl)
  have now: "w_now ?s2 = 5" by (simp add: world_start_def)
  have hit: "cache_lookup (w_now ?s2) ''1'' (w_cache ?s2) = Some sample_dto"
    by (simp add: world_start_def NewWebhookConfigCache_def)
  from cache_staleness_bound [OF run hit] hit now show ?thesis by metis
qed

lemma invalidation_can_be_lost_witness:
  "\<exists>s. (cache_step 0)\<^sup>*\<^sup>* (world_start 10 5 sample_db) s \<and> w_db s = sample_db\<lparr>db_configs := []\<rparr> \<and>
    cache_lookup 14 ''1'' (w_cache s) = Some sample_dto"
proof -
  obtain s where s: "(cache_step 0)\<^sup>*\<^sup>* (world_start 10 5 sample_db) s" "w_db s = sample_db\<lparr>db_configs := []\<rparr>"
    "\<And>t. t < 5 + 10 \<Longrightarrow> cache_lookup t ''1'' (w_cache s) = Some sample_dto"
    using invalidation_can_be_lost [OF sample_fetch order_refl, of 10 5 "sample_db\<lparr>db_configs := []\<rparr>"] by metis
  from s(3) [of 14] s(1,2) show ?thesis by (intro exI [of _ s]) simp
qed

lemma refresh_all_correct_witness:
  "\<exists>c'. cache_RefreshAllConfigs (map fst) GetWebhookByID (\<lambda>_. 9)
      (cache_store 6 ''1'' sample_dto (NewWebhookConfigCache 10), sample_db) = ((1, 0), c', sample_db) \<and>
    cache_agrees (current_config sample_db) c' \<and> dom (map_of (cc_configs c')) = {''1''}"
proof -
  let ?c = "cache_store 6 ''1'' sample_dto (NewWebhookConfigCache 10)"
  have c: "cc_configs ?c = [(''1'', sample_dto)]" by (simp add: cache_store_def NewWebhookConfigCache_def)
  obtain c' where r: "cache_RefreshAllConfigs (map fst) GetWebhookByID (\<lambda>_. 9) (?c, sample_db) = ((1, 0), c', sample_db)"
    by (simp add: cache_RefreshAllConfigs_def c cache_RefreshConfig_def)
  have k: "set (map fst (cc_configs ?c)) = dom (map_of (cc_configs ?c))" "distinct (map fst (cc_configs ?c))"
    by (simp_all add: c dom_def)
  from refresh_all_correct [OF k r] show ?thesis by (intro exI [of _ c']) (simp add: r c dom_def)
qed

section \<open>Pools of workers\<close>

definition sample_pool :: pool where
  "sample_pool = NewNamedWorkerPool ''DeliveryWorkerPool'' 1 3 1 (\<lambda>_. 1)"

text \<open>With a second worker, created later.\<close>

definition sample_pool2 :: pool where
  "sample_pool2 = addWorker 2 sample_pool"

lemma sample_pool_ok [simp]: "pool_ok sample_pool" "pool_safe sample_pool" "pool_ok sample_pool2" "pool_safe sample_pool2"
proof -
  show 1: "pool_ok sample_pool" unfolding sample_pool_def by (rule new_pool_ok)
  then show "pool_safe sample_pool" by (simp add: pool_ok_def)
  show 2: "pool_ok sample_pool2" unfolding sample_pool2_def by (rule addWorker_ok [OF 1])
  then show "pool_safe sample_pool2" by (simp add: pool_ok_def)
qed

lemma sample_pool_eq:
  "sample_pool = \<lparr>wp_name = ''DeliveryWorkerPool'', wp_minWorkers = 1, wp_maxWorkers = 3, wp_activeWorkers = 1,
     wp_workers = [(0, \<lparr>wk_id = 0, wk_createdAt = 1\<rparr>)], wp_nextWorkerID = 1, wp_lastCheckTime = 1, wp_lastProcessed = 0,
     wp_totalProcessed = 0, wp_successfulDeliveries = 0, wp_failedDeliveries = 0, wp_processingTimeNs = 0,
     wp_goroutines = [0], wp_replacing = 0\<rparr>"
  by (simp add: sample_pool_def NewNamedWorkerPool_def addWorker_def Let_def)

lemma sample_pool2_eq:
  "sample_pool2 = sample_pool\<lparr>wp_activeWorkers := 2, wp_nextWorkerID := 2,
     wp_workers := [(0, \<lparr>wk_id = 0, wk_createdAt = 1\<rparr>), (1, \<lparr>wk_id = 1, wk_createdAt = 2\<rparr>)], wp_goroutines := [0, 1]\<rparr>"
  by (simp add: sample_pool2_def sample_pool_eq addWorker_def Let_def)

lemma sample_order [simp]: "range_ok (\<lambda>m. m)"
  by (simp add: range_ok_def)

definition busy_ops :: "pool_op list" where
  "busy_ops = [OpAdjust (\<lambda>m. m) 9 9 3 (\<lambda>_. 3) 3, OpPanic 0, OpReplace 4, OpSuccess, OpTime 5, OpAdjust (\<lambda>m. m) 0 9 9 (\<lambda>_. 9) 9]"

lemma pool_never_crashes_witness:
  "\<exists>wp. pool_run (NewNamedWorkerPool ''p'' 1 3 1 (\<lambda>_. 1)) (busy_ops @ [OpShutdown, OpLatePanic 1]) = Some wp \<and>
    wp_minWorkers wp = 1 \<and> wp_maxWorkers wp = 3"
proof -
  have "list_all order_ok (busy_ops @ [OpShutdown, OpLatePanic 1])" by (simp add: busy_ops_def)
  from pool_never_crashes [OF this, of "''p''" 1 3 1 "\<lambda>_. 1"] show ?thesis by auto
qed

lemma pool_size_bounds_witness:
  "\<exists>wp. pool_run (NewNamedWorkerPool ''p'' 1 3 1 (\<lambda>_. 1)) busy_ops = Some wp \<and> wp_activeWorkers wp \<le> 3"
proof -
  have "list_all no_late busy_ops" by (simp add: busy_ops_def)
  from pool_size_bounds [OF this, of "''p''" 1 3 1 "\<lambda>_. 1"] show ?thesis by auto
qed

lemma removeWorker_oldest_witness:
  "\<exists>i w. map_of (wp_workers sample_pool2) i = Some w \<and> removeWorker (\<lambda>m. m) sample_pool2 =
    Some (sample_pool2\<lparr>wp_workers := AList.delete i (wp_workers sample_pool2), wp_activeWorkers := 1\<rparr>)"
proof -
  have a: "wp_minWorkers sample_pool2 < wp_activeWorkers sample_pool2" "wp_activeWorkers sample_pool2 - 1 = 1"
    by (simp_all add: sample_pool2_eq sample_pool_eq)
  have c: "\<forall>(i, w) \<in> set (wp_workers sample_pool2). 0 < wk_createdAt w" by (simp add: sample_pool2_eq)
  from removeWorker_oldest [OF sample_pool_ok(4) sample_order a(1) c] show ?thesis unfolding a(2) by blast
qed

lemma idle_pool_shrinks_witness:
  "\<exists>wp. pool_run sample_pool2 [OpAdjust (\<lambda>m. m) 0 9 9 (\<lambda>_. 9) 9] = Some wp \<and> wp_activeWorkers wp = wp_minWorkers sample_pool2"
  by (rule idle_pool_shrinks) (simp_all, simp_all add: sample_pool2_eq sample_pool_eq)

lemma adjust_direction_witness:
  "\<exists>wp. adjustWorkerCount (\<lambda>m. m) 0 9 9 (\<lambda>_. 9) 9 sample_pool2 = Some wp \<and> wp_activeWorkers wp \<le> wp_activeWorkers sample_pool2"
proof -
  obtain wp where w: "adjustWorkerCount (\<lambda>m. m) 0 9 9 (\<lambda>_. 9) 9 sample_pool2 = Some wp"
    using adjust_keeps [OF sample_pool_ok(4) sample_order, of 0 9 9 "\<lambda>_. 9" 9] by blast
  have "wp_minWorkers sample_pool2 \<le> wp_activeWorkers sample_pool2" by (simp add: sample_pool2_eq sample_pool_eq)
  from adjust_direction [OF sample_pool_ok(3) sample_order this w] w show ?thesis by blast
qed

lemma shutdown_is_not_final_witness:
  "\<exists>wp. pool_run sample_pool [OpShutdown, OpLatePanic 0, OpReplace 5] = Some wp \<and> map fst (wp_workers wp) = [1] \<and> wp_activeWorkers wp = 0"
proof -
  have "0 \<in> set (wp_goroutines sample_pool)" "wp_nextWorkerID sample_pool = 1" by (simp_all add: sample_pool_eq)
  with shutdown_is_not_final [OF sample_pool_ok(2) this(1), of 5] show ?thesis by auto
qed

lemma average_can_be_negative_witness:
  "ps_avg_processing_time_ms (pool_GetStats (make_chan 5)
    (RecordSuccess (RecordProcessingTime (time_sub sample_now 0) (RecordSuccess (RecordProcessingTime (time_sub sample_now 0) sample_pool))))) < Fin 0"
  by (rule average_can_be_negative) (simp_all add: sample_pool_eq sample_now_def unix_epoch_def nano_second_def max_int64_def)

section \<open>The event queue\<close>

abbreviation sample_note :: json where
  "sample_note \<equiv> notify_payload ''INSERT'' 7 1 sample_now"

lemma sample_unlocked [simp]: "7 \<notin> set (db_locked sample_db)"
  by simp

lemma sample_room [simp]: "chan_room (make_chan 1)" "chan_room (make_chan (Suc 0))" "\<not> chan_room (make_chan 0)"
  by (simp_all add: chan_room_def chan_len_def make_chan_def)

lemma full_queue_burns_attempt_witness:
  "\<exists>e d'. event_handleNotification 3 4 ''a'' (\<lambda>q. q) (Some sample_note) (make_chan 0, sample_db) = (Inl e, make_chan 0, d') \<and>
    event_by_id 7 d' = Some (sample_row\<lparr>er_attempts := 1\<rparr>)"
proof -
  have "\<not> chan_room (make_chan 0 :: webhook_event chan)" by simp
  from full_queue_burns_attempt [where taken = "\<lambda>q. q", OF _ sample_wf sample_reads _ _ sample_by_id _ sample_scan sample_stamp this,
      of 3 4 "''a''" "''INSERT''" 1]
  show ?thesis by auto
qed

lemma second_instance_ignores_witness:
  "\<exists>q d. event_handleNotification 3 4 ''a'' (\<lambda>q. q) (Some sample_note) (make_chan 1, sample_db) = (Inr (), q, d) \<and>
    event_handleNotification 5 6 ''b'' (\<lambda>q. q) (Some sample_note) (make_chan 1, d) = (Inr (), make_chan 1, d)"
proof -
  obtain x q d where h: "event_handleNotification 3 4 ''a'' (\<lambda>q. q) (Some sample_note) (make_chan 1, sample_db) = (x, q, d)"
    by (metis surj_pair)
  have r: "chan_room (make_chan 1 :: webhook_event chan)" by simp
  have x: "x = Inr ()"
  proof -
    obtain n where n: "decode_notification (Some sample_note) = Inr n" "en_EventID n = ''7''"
      using decode_notify_payload [OF sample_stamp, of "''INSERT''" 7 1] by auto
    with h r show ?thesis by (auto simp: event_handleNotification_def sample_claimed select_send_def)
  qed
  from second_instance_ignores [where taken = "\<lambda>q. q", OF _ sample_wf sample_reads _ _ sample_by_id _ sample_scan sample_stamp r h, of 5 6 "''b''" "\<lambda>q. q" "make_chan 1"]
  show ?thesis using h x by auto
qed

text \<open>A row whose retry is due, one that is stalled, and their database.\<close>

definition retry_db :: database where
  "retry_db = sample_db\<lparr>db_events := [sample_row\<lparr>er_next_attempt_at := Some 5\<rparr>]\<rparr>"

lemma retry_db_wf [simp]: "db_wf retry_db"
  by (simp add: retry_db_def db_wf_def row_ok_def sample_row_def new_event_row_def)

lemma retry_scheduler_correct_witness:
  "db_notes (processReadyRetries 9 rev retry_db) = [notify_payload ''RETRY'' 7 1 9]"
proof -
  have p: "permutes rev" by (simp add: permutes_def)
  have n: "db_faults retry_db = []" by (simp add: retry_db_def)
  have f: "filter (ready_retry 9) (db_events retry_db) = [sample_row\<lparr>er_next_attempt_at := Some 5\<rparr>]"
    by (simp add: retry_db_def ready_retry_def) (simp add: sample_row_def new_event_row_def)
  obtain rows where r: "length rows = 1" "set rows = {r \<in> set (db_events retry_db). ready_retry 9 r}"
    "processReadyRetries 9 rev retry_db = retry_db\<lparr>db_notes := db_notes retry_db @
      map (\<lambda>r. notify_payload ''RETRY'' (er_id r) (er_webhook_id r) 9) rows\<rparr>"
    using retry_scheduler_correct [OF retry_db_wf n p, of 9] f by auto
  have "set rows = {sample_row\<lparr>er_next_attempt_at := Some 5\<rparr>}" unfolding r(2) set_filter [symmetric] f by simp
  with r(1) have "rows = [sample_row\<lparr>er_next_attempt_at := Some 5\<rparr>]" by (cases rows) auto
  with r(3) show ?thesis by (simp add: retry_db_def)
qed

lemma cleanup_releases_stalled_witness:
  "db_events (CleanupStalledEvents 9 (4 * nano_minute) (claimed_db 3 ''a'')) = [release_row (mark_processing ''a'' 3 sample_row)]"
proof -
  have "db_faults (claimed_db 3 ''a'') = []" by (simp add: claimed_db_def)
  from conjunct1 [OF cleanup_releases_stalled [OF this, of 9 "4 * nano_minute"]] show ?thesis
    by (simp add: claimed_db_def stalled_def mark_processing_def nano_minute_def nano_second_def)
qed

lemma missed_event_is_stuck_witness:
  "\<exists>d' new. foldl routine_step (make_chan 1, sample_db) [RetryCheck 9 rev, Cleanup 9 9, BackupPoll 9 (\<lambda>_. False) (\<lambda>_ q. q) 5 ''a''] =
    (make_chan 1, d') \<and> event_by_id 7 d' = Some sample_row \<and> db_notes d' = new"
proof -
  have "list_all order_permutes [RetryCheck 9 rev, Cleanup 9 9, BackupPoll 9 (\<lambda>_. False) (\<lambda>_ q. q) 5 ''a'']"
    by (simp add: permutes_def)
  from missed_event_is_stuck [OF sample_wf sample_by_id _ _ this, of "make_chan 1"] show ?thesis by auto
qed

lemma queue_metrics_correct_witness:
  "\<exists>m. GetQueueMetrics sample_db = (m, sample_db) \<and> qm_pending m = 1"
proof -
  have "length (filter (\<lambda>r. er_status r = ''pending'') (db_events sample_db)) = 1" by simp
  with queue_metrics_correct [OF sample_db_fields(8) sample_wf] show ?thesis by metis
qed

section \<open>Deliveries\<close>

lemma deliver_contract_witness:
  "length (fst (snd (DeliverWebhook False (\<lambda>u j. Inr \<lparr>rsp_StatusCode = 200, rsp_chunks = [''ok'']\<rparr>) (\<lambda>k n. 0) ''http://h/w'' sample_event))) \<le> 1024"
proof -
  obtain s r e where d: "DeliverWebhook False (\<lambda>u j. Inr \<lparr>rsp_StatusCode = 200, rsp_chunks = [''ok'']\<rparr>) (\<lambda>k n. 0) ''http://h/w'' sample_event = (s, r, e)"
    by (metis surj_pair)
  from deliver_contract [of sample_event "\<lambda>u j. Inr \<lparr>rsp_StatusCode = 200, rsp_chunks = [''ok'']\<rparr>" "''http://h/w''" "\<lambda>k n. 0"]
  show ?thesis unfolding d by simp
qed

lemma backoff_bounds_witness:
  "\<exists>d. 4000000000 \<le> d \<and> 16 * d \<le> 84000000000 \<and>
    calculateBackoff (\<lambda>_. 0) (Fin (1 / 2)) 3 1000000000 60000000000 = min 60000000000 d"
proof -
  have f: "21 * (1000000000 * 2 ^ nat (3 - 1)) \<le> 16 * max_int64" by (simp add: max_int64_def)
  from backoff_bounds [of 1000000000 3 "1 / 2", OF _ _ _ _ _ f, of "\<lambda>_. 0" 60000000000] show ?thesis by simp
qed

lemma backoff_overflow_witness:
  "calculateBackoff (\<lambda>_. min_int64) (Fin (1 / 2)) 40 1000000000 60000000000 = min_int64"
  by (rule backoff_overflow) simp_all

text \<open>An environment in which every delivery has the given outcome.\<close>

definition sample_env :: "bool \<Rightarrow> delivery_env" where
  "sample_env ok = \<lparr>de_cfg = default_config, de_clock = (\<lambda>n. sample_now + int n), de_rnd = Fin 0, de_oor = (\<lambda>_. 0),
     de_deliver = (\<lambda>url ev. (ok, ''body'', None))\<rparr>"

lemma sample_env_fields [simp]:
  "de_deliver (sample_env ok) url ev = (ok, ''body'', None)" "cfg_MaxRetries (de_cfg (sample_env ok)) = 5"
  by (simp_all add: sample_env_def default_config_def)

lemma sample_claim_fields [simp]:
  "ev_ID sample_claim = ''7''" "ev_WebhookID sample_claim = ''1''" "ev_Attempts sample_claim = 0"
  by (simp_all add: sample_claim_def sample_event_def zero_event_def)

abbreviation sample_cache :: config_cache where
  "sample_cache \<equiv> NewWebhookConfigCache cache_ttl"

lemma sample_current_dto: "current_config d = current_config sample_db \<Longrightarrow> current_config d (ev_WebhookID sample_claim) = Some sample_dto"
  by (simp add: sample_dto_def)

lemma delivery_outcome_witness:
  "\<exists>r. event_by_id 7 (sv_db (processEvent (sample_env False) sample_claim \<lparr>sv_cache = sample_cache, sv_db = sample_db, sv_pool = sample_pool\<rparr>)) = Some r \<and>
    er_status r = ''pending'' \<and> er_attempts r = 1"
proof -
  have s: "db_int4in sample_db (ev_ID sample_claim) = Some 7" by simp
  have r: "event_by_id 7 sample_db = Some sample_row" by simp
  have d: "de_deliver (sample_env False) (dto_PostURL sample_dto) sample_claim = (False, ''body'', None)" by simp
  from delivery_outcome [OF sample_db_fields(8) empty_cache_agrees sample_current_dto [OF refl] s r d, of cache_ttl sample_pool]
  show ?thesis by (auto simp: Let_def)
qed

text \<open>The row after another instance delivered it.\<close>

definition delivered_db :: database where
  "delivered_db = sample_db\<lparr>db_events := [sample_row\<lparr>er_status := ''success''\<rparr>]\<rparr>"


lemma config_error_is_final_witness:
  "event_by_id 7 (sv_db (processEvent (sample_env True) sample_claim
    \<lparr>sv_cache = sample_cache, sv_db = sample_db\<lparr>db_faults := [Some ''timeout'']\<rparr>, sv_pool = sample_pool\<rparr>)) =
    Some (sample_row\<lparr>er_status := ''failed''\<rparr>)"
proof -
  let ?d = "sample_db\<lparr>db_faults := [Some ''timeout'']\<rparr>"
  have m: "cache_lookup (de_clock (sample_env True) 0) (ev_WebhookID sample_claim) sample_cache = None"
    by (simp add: cache_lookup_def NewWebhookConfigCache_def)
  have r: "db_faults ?d = [Some ''timeout'']" "db_int4in ?d (ev_ID sample_claim) = Some 7" "event_by_id 7 ?d = Some sample_row"
    using sample_by_id by (simp_all add: event_by_id_def)
  from config_error_is_final [OF m r, of sample_pool] show ?thesis by (simp add: Let_def)
qed

section \<open>Requests, and the whole service\<close>

definition sample_server :: "database \<Rightarrow> server" where
  "sample_server d = \<lparr>srv_requestBuffer = make_chan 1, srv_cache = sample_cache, srv_db = d, srv_requestPool = sample_pool\<rparr>"

lemma sample_server_fields [simp]:
  "srv_requestBuffer (sample_server d) = make_chan 1" "srv_cache (sample_server d) = sample_cache"
  "srv_db (sample_server d) = d" "srv_requestPool (sample_server d) = sample_pool"
  by (simp_all add: sample_server_def)

lemma request_answers_witness:
  "ans_status (fst (handleWebhookEvent (\<lambda>e. Inr e) 3 4 sample_event (sample_server sample_db))) = 202"
proof -
  obtain ans s where h: "handleWebhookEvent (\<lambda>e. Inr e) 3 4 sample_event (sample_server sample_db) = (ans, s)" by (metis surj_pair)
  have c: "event_complete sample_event"
    by (simp add: event_complete_def subscriber_complete_def sample_subscriber_def event_name_defs unix_epoch_def nano_second_def)
  have nf: "db_faults (srv_db (sample_server sample_db)) = []" by simp
  have ag: "cache_agrees (current_config (srv_db (sample_server sample_db))) (srv_cache (sample_server sample_db))" by simp
  from request_answers [OF nf ag h] c h show ?thesis by (simp add: expected_status_def)
qed

lemma accepted_event_can_be_lost_witness:
  "srv_db (processWebhookRequest 3 4 sample_event (sample_server (sample_db\<lparr>db_faults := [Some ''down'']\<rparr>))) = sample_db"
proof -
  obtain j where j: "marshal_subscriber (ev_Subscriber sample_event) = Inr j"
    using Unmarshal_marshal_subscriber [OF sample_subscriber_marshals] by auto
  have f: "db_faults (srv_db (sample_server (sample_db\<lparr>db_faults := [Some ''down'']\<rparr>))) = [Some ''down'']" by simp
  from accepted_event_can_be_lost [OF j f, of 3 4] show ?thesis by (simp add: sample_db_def)
qed

definition sample_app :: app where
  "sample_app = \<lparr>app_server = sample_server sample_db,
     app_service = \<lparr>sv_cache = cache_store 6 ''1'' sample_dto sample_cache, sv_db = sample_db, sv_pool = sample_pool\<rparr>,
     app_manager = the (NewEventQueueManager default_config [] ''a''), app_httpClient = NewHTTPClientService False, app_queue_goroutines = no_goroutines\<rparr>"

lemma delivery_cache_not_invalidated_witness:
  "cache_lookup 7 ''1'' (sv_cache (app_service (app_config_notification (Some (config_payload ''UPDATE'' 1)) sample_app))) = Some sample_dto"
proof -
  have "cache_ttl > 1" by (simp add: cache_ttl_def nano_minute_def nano_second_def)
  then have "cache_lookup 7 (show_int 1) (sv_cache (app_service sample_app)) = Some sample_dto"
    by (simp add: sample_app_def NewWebhookConfigCache_def)
  from delivery_cache_not_invalidated [OF this] show ?thesis by (simp add: Let_def)
qed

lemma manager_started_twice_witness:
  "\<exists>a. NewServer default_config sample_db 42 1 (\<lambda>_. 1) = Some a \<and> length (qg_listeners (app_queue_goroutines a)) = 2"
proof -
  have "0 \<le> cfg_QueueBufferSize default_config" "0 \<le> cfg_RequestBufferSize default_config" by (simp_all add: default_config_def)
  from manager_started_twice [OF this, of sample_db 42 1 "\<lambda>_. 1"] show ?thesis by auto
qed

definition sample_node :: node where
  "sample_node = \<lparr>nd_id = ''a'', nd_buffer = make_chan 1, nd_queue = make_chan 1, nd_working = [], nd_server_cache = sample_cache,
     nd_service_cache = sample_cache, nd_request_pool = sample_pool, nd_delivery_pool = sample_pool\<rparr>"

definition sample_sys :: system where
  "sample_sys = \<lparr>sys_db = sample_db, sys_nodes = [sample_node]\<rparr>"

definition sample_queue :: event_queue where
  "sample_queue = chan_send (sample_claim\<lparr>ev_ProcessingInstance := Some ''a''\<rparr>) (make_chan 1)"

definition sample_sys1 :: system where
  "sample_sys1 = \<lparr>sys_db = claimed_db 3 ''a'', sys_nodes = [sample_node\<lparr>nd_queue := sample_queue\<rparr>]\<rparr>"

lemma sample_start: "sys_start sample_sys"
  by (simp add: sys_start_def sample_sys_def sample_node_def make_chan_def)

lemma sample_sys_step: "service_step stall may sample_sys sample_sys1"
proof -
  obtain n where n: "decode_notification (Some sample_note) = Inr n" "en_EventID n = ''7''"
    using decode_notify_payload [OF sample_stamp, of "''INSERT''" 7 1] by auto
  have h: "event_handleNotification 3 4 (nd_id sample_node) (\<lambda>q. q) (Some sample_note) (nd_queue sample_node, sys_db sample_sys) =
      (Inr (), sample_queue, claimed_db 3 ''a'')"
    using n by (simp add: event_handleNotification_def sample_claimed select_send_def sample_node_def sample_sys_def sample_queue_def)
  have "service_step stall may sample_sys ((set_node 0 (sample_node\<lparr>nd_queue := sample_queue\<rparr>) sample_sys)\<lparr>sys_db := claimed_db 3 ''a''\<rparr>)"
    by (rule notify [OF _ _ h]) (simp_all add: sample_sys_def)
  then show ?thesis by (simp add: sample_sys1_def sample_sys_def set_node_def)
qed

lemma sample_sys_run: "(sys_step stall)\<^sup>*\<^sup>* sample_sys sample_sys1"
  using sample_sys_step by (rule r_into_rtranclp)

lemma stored_events_survive_witness: "\<exists>r. r \<in> set (db_events (sys_db sample_sys1)) \<and> same_origin sample_row r"
proof -
  have r: "sample_row \<in> set (db_events (sys_db sample_sys))" by (simp add: sample_sys_def)
  from stored_events_survive [OF sample_start rtranclp.rtrancl_refl sample_sys_run r] show ?thesis by blast
qed

lemma queued_events_are_stored_witness:
  "\<exists>r. r \<in> set (db_events (sys_db sample_sys1)) \<and> show_int (er_id r) = ''7''"
proof -
  let ?n = "sample_node\<lparr>nd_queue := sample_queue\<rparr>" and ?e = "sample_claim\<lparr>ev_ProcessingInstance := Some ''a''\<rparr>"
  have n: "?n \<in> set (sys_nodes sample_sys1)" by (simp add: sample_sys1_def)
  have e: "?e \<in> set (ch_buf (nd_queue ?n)) \<union> set (nd_working ?n)" by (simp add: sample_queue_def make_chan_def)
  from queued_events_are_stored [OF sample_start sample_sys_run n e] show ?thesis by auto
qed

lemma no_double_delivery_without_cleanup_witness:
  "distinct (map ev_ID (all_claimed sample_sys1)) \<and> length (all_claimed sample_sys1) = 1"
proof -
  have "length (all_claimed sample_sys1) = 1" by (simp add: all_claimed_def node_events_def sample_sys1_def sample_node_def sample_queue_def make_chan_def)
  with no_double_delivery_without_cleanup [OF sample_start sample_sys_run] show ?thesis by blast
qed



lemma accepted_event_is_delivered_witness:
  "\<exists>n d r. journey (sample_env True) (\<lambda>_. sample_now) sample_event sample_node sample_db = (202, n, d) \<and>
    event_by_id 8 d = Some r \<and> er_status r = ''success''"
proof -
  have idle: "idle_node sample_db sample_node" by (simp add: idle_node_def sample_node_def make_chan_def)
  have c: "event_complete sample_event"
    by (simp add: event_complete_def subscriber_complete_def sample_subscriber_def event_name_defs unix_epoch_def nano_second_def)
  have w: "current_config sample_db (ev_WebhookID sample_event) = Some sample_dto" by (simp add: sample_dto_def)
  have a: "ev_EventName sample_event \<in> set (dto_Events sample_dto)" by (simp add: sample_dto_def)
  have m: "subscriber_marshals (ev_Subscriber sample_event)" by simp
  have i: "int4_range (db_next_event sample_db)" "db_next_event sample_db \<notin> set (db_locked sample_db)" by simp_all
  have t: "stamp_ok ((\<lambda>_. sample_now) (2 :: nat))" by simp
  have d: "de_deliver (sample_env True) (dto_PostURL sample_dto) ev = (True, ''body'', None)" for ev by simp
  obtain n d r where "journey (sample_env True) (\<lambda>_. sample_now) sample_event sample_node sample_db = (202, n, d)"
    "event_by_id (db_next_event sample_db) d = Some r" "er_status r = ''success''"
    using accepted_event_is_delivered [OF sample_db_fields(8) sample_wf sample_reads idle c w a m i, of "\<lambda>_. sample_now", OF sample_stamp d]
    by blast
  then show ?thesis by auto
qed

lemma failing_event_is_abandoned_witness:
  "\<exists>s r. rounds (\<lambda>_. sample_env False) (\<lambda>_. sample_now) ''a'' ''7'' 5
      \<lparr>sv_cache = sample_cache, sv_db = sample_db, sv_pool = sample_pool\<rparr> = Some s \<and>
    event_by_id 7 (sv_db s) = Some r \<and> er_status r = ''failed''"
proof -
  let ?s = "\<lparr>sv_cache = sample_cache, sv_db = sample_db, sv_pool = sample_pool\<rparr>"
  have c: "claimable 7 ?s sample_row" by (simp add: claimable_def)
  have "fst (de_deliver ((\<lambda>_. sample_env False) k) url ev) = False" for k :: nat and url ev by simp
  moreover have "cfg_MaxRetries (de_cfg ((\<lambda>_. sample_env False) k)) = 5" for k :: nat by simp
  ultimately show ?thesis
    using conjunct2 [OF failing_event_is_abandoned [where envs = "\<lambda>_. sample_env False" and M = 5 and clk = "\<lambda>_. sample_now" and inst = "''a''", OF c]]
    by auto
qed

lemma stored_rows_are_typed_witness:
  "\<exists>r ev. r \<in> set (db_events (sys_db sample_sys1)) \<and> row_typed r \<and> scanEventFromRow r = Inr ev"
proof -
  have t: "rows_typed (sys_db sample_sys)"
    using sample_scan scan_decodes [of sample_row] by (auto simp: rows_typed_def decodes_def sample_sys_def)
  have r: "mark_processing ''a'' 3 sample_row \<in> set (db_events (sys_db sample_sys1))"
    by (simp add: sample_sys1_def claimed_db_def)
  from stored_rows_are_typed [OF t sample_sys_run r] r show ?thesis by blast
qed

lemma retry_quiet [simp]: "quiet retry_db sample_node"
proof -
  have "rows_typed sample_db" using sample_scan scan_decodes [of sample_row] by (auto simp: rows_typed_def decodes_def)
  then have "rows_typed retry_db" by (simp add: rows_typed_def retry_db_def row_typed_def)
  moreover have "idle_node retry_db sample_node" by (simp add: idle_node_def sample_node_def make_chan_def)
  moreover have "reads_back retry_db" by (rule sample_reads_back) (simp add: retry_db_def)
  ultimately show ?thesis by (simp add: quiet_def) (simp add: retry_db_def is_pending_def int4_range_def)
qed

lemma retry_cycle_attempts_due_witness:
  "\<exists>n d a. retry_cycle sample_now rev (\<lambda>_. sample_env True) (\<lambda>_. sample_now) sample_node retry_db = (n, d) \<and>
    db_deliveries d = [a] \<and> dr_event_id a = 7 \<and> dr_status a = ''success''"
proof -
  let ?r = "sample_row\<lparr>er_next_attempt_at := Some 5\<rparr>"
  have p: "permutes rev" by (simp add: permutes_def)
  have rdy: "{r \<in> set (db_events retry_db). ready_retry sample_now r} = {?r}"
    by (auto simp: retry_db_def ready_retry_def sample_now_def sample_row_def new_event_row_def unix_epoch_def nano_second_def)
  obtain n d rows new where h: "retry_cycle sample_now rev (\<lambda>_. sample_env True) (\<lambda>_. sample_now) sample_node retry_db = (n, d)"
    "distinct (map er_id rows)" "set rows = {r \<in> set (db_events retry_db). ready_retry sample_now r}"
    "db_deliveries d = db_deliveries retry_db @ new" "length new = length rows"
    "\<forall>k < length rows. outcome (sample_env True) d (rows ! k) (new ! k)"
    using retry_cycle_attempts_due [OF retry_quiet p sample_stamp, of "\<lambda>_. sample_env True" "\<lambda>_. sample_now"] by blast
  have "rows = [?r]" using h(2,3) rdy by (cases rows; cases "tl rows") auto
  then obtain a where a: "new = [a]" "outcome (sample_env True) d ?r a" using h(5,6) by (cases new) auto
  from a(2) have "dr_event_id a = 7" "dr_status a = ''success''" by (auto simp: outcome_def)
  with h(1,4) a(1) show ?thesis by (simp add: retry_db_def)
qed

lemma waiting_event_settles_witness:
  "\<exists>n d r. retry_cycles (\<lambda>_. sample_now + 60 * nano_minute) (\<lambda>_. rev) (\<lambda>k _. sample_env (k = 1)) (\<lambda>_ _. sample_now) 5 (sample_node, retry_db) = (n, d) \<and>
    event_by_id 7 d = Some r \<and> er_status r = ''success'' \<and> results_of 7 d = [''failed'', ''success'']"
proof -
  let ?r = "sample_row\<lparr>er_next_attempt_at := Some 5\<rparr>"
  have r: "event_by_id 7 retry_db = Some ?r" "is_pending ?r" "er_next_attempt_at ?r = Some 5"
    by (simp_all add: retry_db_def event_by_id_def is_pending_def)
  have due: "5 \<le> sample_now + 60 * nano_minute" by (simp add: sample_now_def unix_epoch_def nano_minute_def nano_second_def)
  have sch: "retry_schedule 5 7 5 (\<lambda>k. k = 1) (\<lambda>_. sample_now + 60 * nano_minute) (\<lambda>_. rev) (\<lambda>k _. sample_env (k = 1))"
    by (simp add: retry_schedule_def permutes_def stamp_ok_def sample_env_def default_config_def
        sample_now_def unix_epoch_def nano_minute_def nano_second_def)
  have N: "5 = nat (max 1 (5 - er_attempts ?r))" by simp
  have f: "(LEAST k. k = 1) = (1 :: nat)" by (rule Least_equality) simp_all
  from waiting_event_settles [OF retry_quiet r due sch N order_refl, of "\<lambda>_ _. sample_now"] f
  show ?thesis by (simp add: results_of_def retry_db_def)
qed

text \<open>A run with a notification, the taking of the event and a failed delivery.\<close>

lemma deliveries_within_retries_witness:
  "\<exists>tr s. delivery_run 5 sample_sys tr s \<and> tr \<noteq> [] \<and> (\<forall>ev \<in> set tr. ev_ID ev = show_int 7) \<and> int (length tr) \<le> 5"
proof -
  let ?e = "sample_claim\<lparr>ev_ProcessingInstance := Some ''a''\<rparr>"
  let ?n = "sample_node\<lparr>nd_queue := sample_queue\<rparr>"
  let ?s = "set_node 0 (?n\<lparr>nd_queue := make_chan 1, nd_working := [?e]\<rparr>) sample_sys1"
  have n: "sys_nodes sample_sys1 ! 0 = ?n" "nd_working ?n = []" and l: "0 < length (sys_nodes sample_sys1)"
    by (simp_all add: sample_sys1_def sample_node_def)
  have recv: "chan_recv (nd_queue ?n) = Some (?e, make_chan 1)" by (simp add: sample_queue_def make_chan_def chan_recv_def chan_send_def)
  have "delivery_run 5 sample_sys [] sample_sys1" using sample_sys_step [of False "\<lambda>_. False"] by (rule other [OF delivery_run.none])
  moreover have "service_step False (\<lambda>_. False) sample_sys1 ?s"
    using service_step.take [OF _ n(1) [symmetric] recv, unfolded n(2)] by (simp only: l)
  ultimately have r: "delivery_run 5 sample_sys [] ?s" by (rule delivery_run.other)
  have c: "0 < length (sys_nodes ?s)" "?e \<in> set (nd_working (sys_nodes ?s ! 0))" "cfg_MaxRetries (de_cfg (sample_env False)) \<le> 5"
    by (simp_all add: sample_sys1_def)
  have "delivery_run 5 sample_sys ([] @ [?e]) (delivered_state 0 (sample_env False) ?e ?s)"
    by (rule delivery_run.attempt [OF r c])
  then have "delivery_run 5 sample_sys [?e] (delivered_state 0 (sample_env False) ?e ?s)" by simp
  with deliveries_within_retries [OF sample_start this, of 7] show ?thesis by (intro exI conjI) auto
qed


end
