(* ===== verification/Stalled_Events.thy ===== *)
theory Stalled_Events
  imports Witnesses
begin

text \<open>
  What the cleanup of stalled events does to the properties of \<open>Lifecycle\<close>: a run of two instances in which an event
  that has waited in a channel for more than three minutes is handed out a second time.
\<close>

definition released_row :: event_row where
  "released_row = release_row (mark_processing ''a'' 3 sample_row)"

definition released_db :: database where
  "released_db = (claimed_db 3 ''a'')\<lparr>db_events := [released_row], db_notes := [notify_payload ''UPDATE'' 7 1 9]\<rparr>"

lemma cleanup_run: "CleanupStalledEvents 9 (4 * nano_minute) (claimed_db 3 ''a'') = released_db"
  by (simp add: CleanupStalledEvents_def UpdateStalledEventsToPending_def dbm_wrap_def update_events_def Let_def
      claimed_db_def released_db_def released_row_def stalled_def mark_processing_def release_row_def stalledTimeout_def
      nano_minute_def nano_second_def notify_webhook_event_change_def due_def)

lemma released_row_fields [simp]: "er_id released_row = 7" "er_status released_row = ''pending''" "row_ok released_row"
  "er_webhook_id released_row = 1"
  by (simp_all add: released_row_def release_row_def mark_processing_def row_ok_def)

lemma released_scan: "scanEventFromRow released_row = Inr (sample_claim\<lparr>ev_Attempts := 1\<rparr>)"
  by code_simp

lemma released_claim:
  "GetAndMarkEventByID 5 ''7'' ''b'' released_db = (Inr (sample_claim\<lparr>ev_Attempts := 1, ev_ProcessingInstance := Some ''b''\<rparr>),
    released_db\<lparr>db_events := [mark_processing ''b'' 5 released_row]\<rparr>)"
proof -
  have d: "db_faults released_db = []" "db_wf released_db" "reads_back released_db" "db_int4in released_db ''7'' = Some 7"
    "event_by_id 7 released_db = Some released_row" "7 \<notin> set (db_locked released_db)"
    using sample_reads_back [of released_db]
    by (simp_all add: released_db_def claimed_db_def db_wf_def event_by_id_def)
  from claim_ok [OF d(1-5) released_row_fields(2) d(6) released_scan, of 5 "''b''"] show ?thesis
    by (simp add: released_db_def set_row_def)
qed

definition two_nodes :: system where
  "two_nodes = \<lparr>sys_db = sample_db, sys_nodes = [sample_node, sample_node\<lparr>nd_id := ''b''\<rparr>]\<rparr>"


end
