(* ===== verification/Listener.thy ===== *)
theory Listener
  imports Server "HOL-Library.Sublist"
begin

text \<open>
  The goroutines of the two listeners, \<open>event_queue_listener.go\<close> and \<open>webhook_config_listener.go\<close>: connecting,
  \<open>LISTEN\<close>, the heartbeat beside the wait for notifications, reconnecting, and stopping. The two files
  have the same code up to the channel and the handler, which is a parameter of the machine here.
\<close>

section \<open>The machine\<close>

text \<open>
  Where the goroutine of \<open>listen\<close> stands: at the head of its loop; in \<open>pgx.Connect\<close>; in the \<open>Exec\<close> of \<open>LISTEN\<close>; at the
  \<open>select\<close> of the notification loop; in \<open>WaitForNotification\<close>; in \<open>handleNotification\<close>; waiting to reconnect;
  returned. The heartbeat belongs to one call of \<open>connectAndListen\<close>.
\<close>

datatype 'p position = Looking | Connecting | Subscribing | Selecting | Waiting_note | Handling 'p | Pausing | Returned

datatype heartbeat = Heart_off | Heart_connecting | Heart_beating

text \<open>
  \<open>ln_stopped\<close>: \<open>stopChan\<close> is closed. \<open>ln_cancelled\<close>: the context of the current call is. \<open>ln_heartbeatErr\<close>: \<open>heartbeatErrCh\<close>
  holds an error. \<open>ln_inbox\<close>: notifications on the connection not yet returned by \<open>WaitForNotification\<close>. \<open>ln_world\<close>: what
  the handler works on.
\<close>

record ('p, 'w) listener =
  ln_at :: "'p position"
  ln_stopped :: bool
  ln_cancelled :: bool
  ln_heart :: heartbeat
  ln_heartbeatErr :: bool
  ln_inbox :: "'p list"
  ln_world :: 'w

definition in_loop :: "('p, 'w) listener \<Rightarrow> bool" where
  "in_loop l \<longleftrightarrow> (case ln_at l of Selecting \<Rightarrow> True | Waiting_note \<Rightarrow> True | Handling p \<Rightarrow> True | _ \<Rightarrow> False)"

text \<open>The server may have registered the \<open>LISTEN\<close> before its \<open>Exec\<close> returns.\<close>

definition listening :: "('p, 'w) listener \<Rightarrow> bool" where
  "listening l \<longleftrightarrow> in_loop l \<or> ln_at l = Subscribing"

text \<open>\<open>NewEventQueueListener\<close> and \<open>Start\<close>: the goroutine at its beginning.\<close>

definition started_listener :: "'w \<Rightarrow> ('p, 'w) listener" where
  "started_listener w = \<lparr>ln_at = Looking, ln_stopped = False, ln_cancelled = False, ln_heart = Heart_off,
     ln_heartbeatErr = False, ln_inbox = [], ln_world = w\<rparr>"

text \<open>The end of a call of \<open>connectAndListen\<close>: the deferred calls close its connection and end its heartbeat.\<close>

definition leave_call :: "'p position \<Rightarrow> ('p, 'w) listener \<Rightarrow> ('p, 'w) listener" where
  "leave_call pos l = l\<lparr>ln_at := pos, ln_cancelled := False, ln_heart := Heart_off, ln_heartbeatErr := False, ln_inbox := []\<rparr>"

text \<open>
  What is seen of a step: a notification is sent by the database and heard, or lost, because the listener has no
  subscription or its connection is dead; a notification is handled; \<open>Stop\<close> closes \<open>stopChan\<close>; the connection fails; the world is changed by others.
\<close>

datatype ('p, 'w) sight = Heard 'p | Lost 'p | Handled 'p | Stop_called | Connection_failed | World_changed 'w | Silent

inductive heartbeat_step :: "('p, 'w) listener \<Rightarrow> ('p, 'w) listener \<Rightarrow> bool" where
  heart_connects: "ln_heart l = Heart_connecting \<Longrightarrow> heartbeat_step l (l\<lparr>ln_heart := Heart_beating\<rparr>)"
| heart_fails: "ln_heart l \<noteq> Heart_off \<Longrightarrow> heartbeat_step l (l\<lparr>ln_heart := Heart_off, ln_heartbeatErr := True\<rparr>)"
| heart_ends: "ln_heart l = Heart_beating \<Longrightarrow> ln_cancelled l \<Longrightarrow> heartbeat_step l (l\<lparr>ln_heart := Heart_off\<rparr>)"

text \<open>
  \<open>handles p w w'\<close> says that \<open>handleNotification\<close> may turn \<open>w\<close> into \<open>w'\<close>. A \<open>select\<close> whose channels are both ready
  takes either.
\<close>

inductive listener_step ::
  "('p \<Rightarrow> 'w \<Rightarrow> 'w \<Rightarrow> bool) \<Rightarrow> ('p, 'w) listener \<Rightarrow> ('p, 'w) sight \<Rightarrow> ('p, 'w) listener \<Rightarrow> bool" for handles where
  return: "ln_at l = Looking \<Longrightarrow> ln_stopped l \<Longrightarrow> listener_step handles l Silent (l\<lparr>ln_at := Returned\<rparr>)"
| call: "ln_at l = Looking \<Longrightarrow> \<not> ln_stopped l \<Longrightarrow> listener_step handles l Silent (l\<lparr>ln_at := Connecting\<rparr>)"
| cancel: "ln_stopped l \<Longrightarrow> \<not> ln_cancelled l \<Longrightarrow> ln_at l \<notin> {Looking, Pausing, Returned} \<Longrightarrow>
    listener_step handles l Silent (l\<lparr>ln_cancelled := True\<rparr>)"
| connect: "ln_at l = Connecting \<Longrightarrow> listener_step handles l Silent (l\<lparr>ln_at := Subscribing\<rparr>)"
| no_connection: "ln_at l = Connecting \<Longrightarrow> listener_step handles l Connection_failed (leave_call Pausing l)"
| subscribe: "ln_at l = Subscribing \<Longrightarrow>
    listener_step handles l Silent (l\<lparr>ln_at := Selecting, ln_heart := Heart_connecting\<rparr>)"
| no_subscription: "ln_at l = Subscribing \<Longrightarrow> listener_step handles l Connection_failed (leave_call Pausing l)"
| heartbeat_failed: "ln_at l = Selecting \<Longrightarrow> ln_heartbeatErr l \<Longrightarrow> listener_step handles l Silent (leave_call Pausing l)"
| cancelled: "ln_at l = Selecting \<Longrightarrow> ln_cancelled l \<Longrightarrow> listener_step handles l Silent (leave_call Looking l)"
| wait: "ln_at l = Selecting \<Longrightarrow> \<not> ln_heartbeatErr l \<Longrightarrow> \<not> ln_cancelled l \<Longrightarrow>
    listener_step handles l Silent (l\<lparr>ln_at := Waiting_note\<rparr>)"
| receive: "ln_at l = Waiting_note \<Longrightarrow> ln_inbox l = p # ps \<Longrightarrow>
    listener_step handles l Silent (l\<lparr>ln_at := Handling p, ln_inbox := ps\<rparr>)"
| wait_cancelled: "ln_at l = Waiting_note \<Longrightarrow> ln_cancelled l \<Longrightarrow> listener_step handles l Silent (leave_call Looking l)"
| wait_failed: "ln_at l = Waiting_note \<Longrightarrow> \<not> ln_cancelled l \<Longrightarrow>
    listener_step handles l Connection_failed (leave_call Pausing l)"
| handle_note: "ln_at l = Handling p \<Longrightarrow> handles p (ln_world l) w \<Longrightarrow>
    listener_step handles l (Handled p) (l\<lparr>ln_at := Selecting, ln_world := w\<rparr>)"
| retry_connection: "ln_at l = Pausing \<Longrightarrow> listener_step handles l Silent (l\<lparr>ln_at := Looking\<rparr>)"
| stop_pause: "ln_at l = Pausing \<Longrightarrow> ln_stopped l \<Longrightarrow> listener_step handles l Silent (l\<lparr>ln_at := Returned\<rparr>)"
| beat: "heartbeat_step l l' \<Longrightarrow> listener_step handles l Silent l'"
| hear: "listening l \<Longrightarrow> listener_step handles l (Heard p) (l\<lparr>ln_inbox := ln_inbox l @ [p]\<rparr>)"
| lose: "listener_step handles l (Lost p) l"
| stop: "\<not> ln_stopped l \<Longrightarrow> listener_step handles l Stop_called (l\<lparr>ln_stopped := True\<rparr>)"
| others: "listener_step handles l (World_changed w) (l\<lparr>ln_world := w\<rparr>)"

inductive listener_run ::
  "('p \<Rightarrow> 'w \<Rightarrow> 'w \<Rightarrow> bool) \<Rightarrow> ('p, 'w) listener \<Rightarrow> ('p, 'w) sight list \<Rightarrow> ('p, 'w) listener \<Rightarrow> bool" for handles where
  no_step: "listener_run handles l [] l"
| more: "listener_run handles l tr l' \<Longrightarrow> listener_step handles l' s l'' \<Longrightarrow> listener_run handles l (tr @ [s]) l''"

section \<open>The two listeners\<close>

text \<open>
  The event listener of an instance works on its channel and the database, the configuration listener on its cache.
  The clock and what the workers take from the channel meanwhile are free.
\<close>

definition event_handles :: "string \<Rightarrow> json option \<Rightarrow> event_queue \<times> database \<Rightarrow> event_queue \<times> database \<Rightarrow> bool" where
  "event_handles instanceID payload w w' \<longleftrightarrow> (\<exists>now now' k.
     w' = snd (event_handleNotification now now' instanceID (\<lambda>q. q\<lparr>ch_buf := drop k (ch_buf q)\<rparr>) payload w))"

definition config_handles :: "json option \<Rightarrow> config_cache \<Rightarrow> config_cache \<Rightarrow> bool" where
  "config_handles payload c c' \<longleftrightarrow> c' = config_handleNotification payload c"

definition event_listener_step ::
  "string \<Rightarrow> (json option, event_queue \<times> database) listener \<Rightarrow> (json option, event_queue \<times> database) sight \<Rightarrow>
    (json option, event_queue \<times> database) listener \<Rightarrow> bool" where
  "event_listener_step instanceID = listener_step (event_handles instanceID)"

definition config_listener_step ::
  "(json option, config_cache) listener \<Rightarrow> (json option, config_cache) sight \<Rightarrow> (json option, config_cache) listener \<Rightarrow> bool" where
  "config_listener_step = listener_step config_handles"

text \<open>\<open>Stop\<close>: closing \<open>stopChan\<close> a second time panics.\<close>

definition listener_Stop :: "('p, 'w) listener \<Rightarrow> ('p, 'w) listener option" where
  "listener_Stop l = (if ln_stopped l then None else Some (l\<lparr>ln_stopped := True\<rparr>))"

text \<open>\<open>NewWebhookConfigListener\<close> with \<open>Start\<close>, and \<open>Stop\<close>, of the configuration listener; both pause 5 seconds to reconnect.\<close>

definition config_Start :: "config_cache \<Rightarrow> (json option, config_cache) listener" where
  "config_Start cache = started_listener cache"

definition config_Stop :: "(json option, config_cache) listener \<Rightarrow> (json option, config_cache) listener option" where
  "config_Stop l = listener_Stop l"

section \<open>What it hears is what it handles\<close>

definition heard :: "('p, 'w) sight list \<Rightarrow> 'p list" where
  "heard tr = concat (map (\<lambda>s. case s of Heard p \<Rightarrow> [p] | _ \<Rightarrow> []) tr)"

definition handled :: "('p, 'w) sight list \<Rightarrow> 'p list" where
  "handled tr = concat (map (\<lambda>s. case s of Handled p \<Rightarrow> [p] | _ \<Rightarrow> []) tr)"

lemma heard_simps [simp]:
  "heard [] = []" "heard (tr @ [Heard p]) = heard tr @ [p]" "heard (tr @ [Lost p]) = heard tr"
  "heard (tr @ [Handled p]) = heard tr" "heard (tr @ [Stop_called]) = heard tr"
  "heard (tr @ [Connection_failed]) = heard tr" "heard (tr @ [World_changed w]) = heard tr" "heard (tr @ [Silent]) = heard tr"
  by (simp_all add: heard_def)

lemma handled_simps [simp]:
  "handled [] = []" "handled (tr @ [Heard p]) = handled tr" "handled (tr @ [Lost p]) = handled tr"
  "handled (tr @ [Handled p]) = handled tr @ [p]" "handled (tr @ [Stop_called]) = handled tr"
  "handled (tr @ [Connection_failed]) = handled tr" "handled (tr @ [World_changed w]) = handled tr"
  "handled (tr @ [Silent]) = handled tr"
  by (simp_all add: handled_def)

text \<open>The notifications on their way to the handler.\<close>

definition on_the_way :: "('p, 'w) listener \<Rightarrow> 'p list" where
  "on_the_way l = (case ln_at l of Handling p \<Rightarrow> p # ln_inbox l | _ \<Rightarrow> ln_inbox l)"

definition inbox_ok :: "('p, 'w) listener \<Rightarrow> bool" where
  "inbox_ok l \<longleftrightarrow> (\<not> listening l \<longrightarrow> ln_inbox l = []) \<and>
    (\<not> in_loop l \<longrightarrow> ln_heart l = Heart_off \<and> \<not> ln_heartbeatErr l)"

lemma inbox_ok_step:
  assumes "listener_step handles l s l'" and "inbox_ok l"
  shows "inbox_ok l'"
  using assms by (cases rule: listener_step.cases)
    (auto simp: inbox_ok_def listening_def in_loop_def leave_call_def heartbeat_step.simps split: position.splits)

lemma subseq_grow: "subseq (xs @ ys) zs \<Longrightarrow> subseq (xs @ ys @ [p]) (zs @ [p])"
  using list_emb_append_mono [of "(=)" "xs @ ys" zs "[p]" "[p]"] by simp

lemma way_step:
  assumes "listener_step handles l s l'" and "inbox_ok l"
    and "subseq (handled tr @ on_the_way l) (heard tr)"
  shows "subseq (handled (tr @ [s]) @ on_the_way l') (heard (tr @ [s]))"
proof -
  have sub: "subseq (handled tr) (heard tr)" 
    by (rule subseq_order.trans [OF list_emb_prefix [OF subseq_order.refl] assms(3)])
  show ?thesis
    using assms sub subseq_grow [of _ "p # ps" for p ps] by (cases rule: listener_step.cases)
      (auto simp: subseq_grow on_the_way_def inbox_ok_def listening_def in_loop_def leave_call_def heartbeat_step.simps split: position.splits)
qed


lemma way_run:
  assumes "listener_run handles l tr l'" and "l = started_listener w"
  shows "inbox_ok l' \<and> subseq (handled tr @ on_the_way l') (heard tr)"
  using assms
proof (induction rule: listener_run.induct)
  case (no_step l)
  then show ?case by (simp add: started_listener_def inbox_ok_def listening_def in_loop_def on_the_way_def)
next
  case (more l tr l' s l'')
  then show ?case by (auto intro: inbox_ok_step way_step)
qed

text \<open>C20: A listener handles what it hears, in order, once, and nothing else. In every run of a listener, whatever its handler,
  with reconnections, heartbeats and a stop anywhere, the notifications handled are among those heard on its
  connection, in the same order and not more often; one that was sent while the listener had no
  subscription is handled only if it is sent again.
\<close>

theorem listener_handles_in_order:
  assumes "listener_run handles (started_listener w) tr l"
  shows "subseq (handled tr) (heard tr) \<and> (\<forall>p. Heard p \<notin> set tr \<longrightarrow> Handled p \<notin> set tr)"
proof -
  have "subseq (handled tr @ on_the_way l) (heard tr)" using way_run [OF assms refl] by blast
  then have s: "subseq (handled tr) (heard tr)"
    by (rule subseq_order.trans [OF list_emb_prefix [OF subseq_order.refl]])
  have h: "p \<in> set (handled tr) \<longleftrightarrow> Handled p \<in> set tr" "p \<in> set (heard tr) \<longleftrightarrow> Heard p \<in> set tr" for p
    by (force simp: handled_def heard_def split: sight.splits)+
  from s have "set (handled tr) \<subseteq> set (heard tr)" by (auto dest: list_emb_set)
  with s h show ?thesis by blast
qed

section \<open>The heartbeat\<close>

lemma waiting_step:
  assumes "listener_step handles l s l'" and "ln_at l = Waiting_note" and "ln_inbox l = []"
    and "\<not> ln_stopped l" and "\<not> ln_cancelled l" and "s \<notin> {Stop_called, Connection_failed}" and "\<And>p. s \<noteq> Heard p"
  shows "ln_at l' = Waiting_note \<and> ln_inbox l' = [] \<and> \<not> ln_stopped l' \<and> \<not> ln_cancelled l' \<and>
    (ln_heartbeatErr l \<longrightarrow> ln_heartbeatErr l')"
  using assms by (cases rule: listener_step.cases) (auto simp: heartbeat_step.simps)

text \<open>C21: The heartbeat cannot wake the listener. Its error is read only between two notifications: a listener blocked in
  \<open>WaitForNotification\<close> on a connection that neither delivers nor fails stays there, through the failure of
  its heartbeat and every notification it loses meanwhile, until a notification comes, the wait itself fails, or
  \<open>Stop\<close> is called. The heartbeat is there for exactly such a connection.
\<close>

theorem heartbeat_cannot_wake:
  assumes "listener_run handles l tr l'" and "ln_at l = Waiting_note" and "ln_inbox l = []"
    and "\<not> ln_stopped l" and "\<not> ln_cancelled l"
    and "set tr \<inter> {Stop_called, Connection_failed} = {}" and "heard tr = []"
  shows "ln_at l' = Waiting_note \<and> (ln_heartbeatErr l \<longrightarrow> ln_heartbeatErr l') \<and> handled tr = []"
proof -
  have "ln_at l' = Waiting_note \<and> ln_inbox l' = [] \<and> \<not> ln_stopped l' \<and> \<not> ln_cancelled l' \<and>
    (ln_heartbeatErr l \<longrightarrow> ln_heartbeatErr l') \<and> handled tr = []"
    using assms
  proof (induction rule: listener_run.induct)
    case (more l tr l' s l'')
    have heard: "heard tr = []" "\<And>p. s \<noteq> Heard p" using more.prems(6) by (auto simp: heard_def)
    then have IH: "ln_at l' = Waiting_note \<and> ln_inbox l' = [] \<and> \<not> ln_stopped l' \<and> \<not> ln_cancelled l' \<and>
      (ln_heartbeatErr l \<longrightarrow> ln_heartbeatErr l') \<and> handled tr = []"
      using more.prems by (intro more.IH) auto
    have "handled (tr @ [s]) = []"
      using more.hyps(2) IH by (cases rule: listener_step.cases) auto
    then show ?case
      using waiting_step [OF more.hyps(2)] IH heard(2) more.prems(5) by auto
  qed auto
  then show ?thesis by blast
qed

section \<open>Stopping\<close>

text \<open>A bound on the steps a stopped listener still takes, if no further notification comes.\<close>

fun place_rank :: "'p position \<Rightarrow> nat" where
  "place_rank Returned = 0"
| "place_rank Looking = 1"
| "place_rank Pausing = 2"
| "place_rank Waiting_note = 3"
| "place_rank Selecting = 4"
| "place_rank (Handling p) = 5"
| "place_rank Subscribing = 7"
| "place_rank Connecting = 8"

fun heart_rank :: "heartbeat \<Rightarrow> nat" where
  "heart_rank Heart_off = 0"
| "heart_rank Heart_beating = 1"
| "heart_rank Heart_connecting = 2"

definition steps_left :: "('p, 'w) listener \<Rightarrow> nat" where
  "steps_left l = 3 * length (ln_inbox l) + place_rank (ln_at l) + heart_rank (ln_heart l)
     + (if ln_cancelled l \<or> ln_at l \<in> {Looking, Pausing, Returned} then 0 else 1)"

lemma heart_rank_less: "h \<noteq> Heart_off \<Longrightarrow> 0 < heart_rank h"
  by (cases h) auto

definition own_step :: "('p, 'w) sight \<Rightarrow> bool" where
  "own_step s \<longleftrightarrow> (case s of Handled p \<Rightarrow> True | Connection_failed \<Rightarrow> True | Silent \<Rightarrow> True | _ \<Rightarrow> False)"

lemma beating_step: "heartbeat_step l l' \<Longrightarrow> ln_stopped l' = ln_stopped l \<and> steps_left l' < steps_left l"
  by (cases rule: heartbeat_step.cases) (auto simp: steps_left_def dest: heart_rank_less)

lemma stopping_step:
  assumes "listener_step handles l s l'" and "ln_stopped l" and "own_step s"
  shows "ln_stopped l' \<and> steps_left l' < steps_left l"
  using assms
proof (cases rule: listener_step.cases)
  case beat
  then show ?thesis using assms(2) beating_step by blast
qed (simp_all add: own_step_def steps_left_def leave_call_def)

lemma stopped_stuck:
  assumes "ln_stopped l" and "\<And>p w. \<exists>w'. handles p w w'" and "\<And>s l'. own_step s \<Longrightarrow> \<not> listener_step handles l s l'"
  shows "ln_at l = Returned"
proof -
  have silent: "\<not> listener_step handles l Silent l'" for l' by (rule assms(3)) (simp add: own_step_def)
  have failed: "\<not> listener_step handles l Connection_failed l'" for l' by (rule assms(3)) (simp add: own_step_def)
  show ?thesis
  proof (cases "ln_at l")
    case (Handling p)
    obtain w where "handles p (ln_world l) w" using assms(2) by blast
    moreover have "own_step (Handled p)" by (simp add: own_step_def)
    ultimately show ?thesis using handle_note [OF Handling] assms(3) by blast
  next
    case Selecting
    then show ?thesis
      using silent heartbeat_failed [OF Selecting] cancelled [OF Selecting] wait [OF Selecting] by blast
  next
    case Waiting_note
    then show ?thesis using silent failed wait_cancelled [OF Waiting_note] wait_failed [OF Waiting_note] by blast
  next
    case Looking
    then show ?thesis using silent return [OF Looking assms(1)] by blast
  next
    case Connecting
    then show ?thesis using silent connect [OF Connecting] by blast
  next
    case Subscribing
    then show ?thesis using silent subscribe [OF Subscribing] by blast
  next
    case Pausing
    then show ?thesis using silent retry_connection [OF Pausing] by blast
  qed simp
qed

text \<open>C22: A stopped listener returns. After \<open>Stop\<close> has closed \<open>stopChan\<close>, and if no further notification arrives, the goroutine
  and its heartbeat take at most \<open>steps_left\<close> more steps, and they come to rest only when the goroutine has returned, so
  that the \<open>Wait\<close> of \<open>Stop\<close> does: at every place, connecting, waiting, pausing or in the handler, it
  has a step to take. The handler is only assumed to return.
\<close>

theorem stopped_listener_returns:
  assumes "ln_stopped l" and "listener_run handles l tr l'" and "list_all own_step tr"
    and "\<And>p w. \<exists>w'. handles p w w'"
  shows "length tr \<le> steps_left l \<and>
    ((\<nexists>s l''. own_step s \<and> listener_step handles l' s l'') \<longrightarrow> ln_at l' = Returned)"
proof -
  have "ln_stopped l' \<and> length tr + steps_left l' \<le> steps_left l"
    using assms(2,1,3)
  proof (induction rule: listener_run.induct)
    case (more l tr l' s l'')
    then have "ln_stopped l' \<and> length tr + steps_left l' \<le> steps_left l" "own_step s" by auto
    with stopping_step [OF more.hyps(2)] show ?case by fastforce
  qed simp
  with stopped_stuck [of l' handles, OF _ assms(4)] show ?thesis by auto
qed

text \<open>The handlers of both listeners return.\<close>

lemma handlers_return: "\<exists>w'. event_handles instanceID p w w'" "\<exists>c'. config_handles p c c'"
  unfolding event_handles_def config_handles_def by blast+

section \<open>Concrete runs\<close>

definition sample_listener :: "json option position \<Rightarrow> json option list \<Rightarrow> (json option, config_cache) listener" where
  "sample_listener pos inbox = \<lparr>ln_at = pos, ln_stopped = False, ln_cancelled = False, ln_heart = Heart_connecting,
     ln_heartbeatErr = False, ln_inbox = inbox, ln_world = NewWebhookConfigCache 1\<rparr>"

lemma sample_hears:
  "listener_run config_handles (started_listener (NewWebhookConfigCache 1))
    ([Silent, Silent, Silent] @ [Silent, Heard None, Silent, Handled None]) (sample_listener Selecting [])"
proof -
  let ?w = "NewWebhookConfigCache 1" and ?run = "listener_run config_handles (started_listener (NewWebhookConfigCache 1))"
  let ?l = "\<lambda>pos. (started_listener ?w)\<lparr>ln_at := pos\<rparr> :: (json option, config_cache) listener"
  have 1: "?run [Silent] (?l Connecting)"
    using more [OF no_step call, of "started_listener ?w" config_handles] by (simp add: started_listener_def)
  have 2: "?run [Silent, Silent] (?l Subscribing)"
    using more [OF 1 connect] by (simp add: started_listener_def)
  have 3: "?run [Silent, Silent, Silent] (sample_listener Selecting [])"
    using more [OF 2 subscribe] by (simp add: started_listener_def sample_listener_def)
  have 4: "?run [Silent, Silent, Silent, Silent] (sample_listener Waiting_note [])"
    using more [OF 3 wait] by (simp add: sample_listener_def)
  have 5: "?run [Silent, Silent, Silent, Silent, Heard None] (sample_listener Waiting_note [None])"
    using more [OF 4 hear, of None] by (simp add: sample_listener_def listening_def in_loop_def)
  have 6: "?run [Silent, Silent, Silent, Silent, Heard None, Silent] (sample_listener (Handling None) [])"
    using more [OF 5 receive, of None "[]"] by (simp add: sample_listener_def)
  show ?thesis
    using more [OF 6 handle_note, of None ?w]
    by (simp add: sample_listener_def config_handles_def config_handleNotification_def)
qed

definition sample_trace :: "(json option, config_cache) sight list" where
  "sample_trace = [Silent, Silent, Silent, Silent, Heard None, Silent, Handled None]"

lemma listener_handles_in_order_witness:
  "subseq (handled sample_trace) (heard sample_trace) \<and> handled sample_trace = [None]"
  using listener_handles_in_order [OF sample_hears] by (simp add: sample_trace_def handled_def)

lemma heartbeat_cannot_wake_witness:
  "\<exists>l'. listener_run config_handles ((sample_listener Waiting_note [])\<lparr>ln_heartbeatErr := True\<rparr>) [Lost None] l' \<and>
    ln_at l' = Waiting_note \<and> ln_heartbeatErr l'"
proof -
  let ?l = "(sample_listener Waiting_note [])\<lparr>ln_heartbeatErr := True\<rparr>"
  have r: "listener_run config_handles ?l [Lost None] ?l" using more [OF no_step lose, of config_handles ?l None] by simp
  from heartbeat_cannot_wake [OF r] r show ?thesis by (auto simp: sample_listener_def heard_def)
qed

lemma stopped_listener_returns_witness:
  "\<exists>l'. listener_run config_handles ((sample_listener Pausing [])\<lparr>ln_stopped := True, ln_heart := Heart_off\<rparr>) [Silent] l' \<and>
    ln_at l' = Returned \<and> length [Silent :: (json option, config_cache) sight] \<le>
      steps_left ((sample_listener Pausing [])\<lparr>ln_stopped := True, ln_heart := Heart_off\<rparr>)"
proof -
  let ?l = "(sample_listener Pausing [])\<lparr>ln_stopped := True, ln_heart := Heart_off\<rparr>"
  have r: "listener_run config_handles ?l [Silent] (?l\<lparr>ln_at := Returned\<rparr>)"
    using more [OF no_step stop_pause, of ?l config_handles] by (simp add: sample_listener_def)
  have "length [Silent :: (json option, config_cache) sight] \<le> steps_left ?l"
    using stopped_listener_returns [OF _ r _ handlers_return(2)] by (simp add: own_step_def)
  with r show ?thesis by fastforce
qed

end
