(* ===== verification/Startup.thy ===== *)
theory Startup
  imports Server
begin

text \<open>
  What the service sets up at its start and runs beside its workers: the triggers (\<open>setupDatabaseTriggers\<close> of \<open>server.go\<close> with
  the SQL files of \<open>internal/service/sql\<close>), the routines driven by a ticker (\<open>event_queue_manager.go\<close>, \<open>webhook_config_cache.go\<close>), and
  the end of the process (\<open>cmd/app/main.go\<close>).
\<close>

section \<open>Triggers\<close>

text \<open>
  The statements of the SQL files, and what a database has of such objects. \<open>Create_trigger True\<close> has the words
  \<open>IF NOT EXISTS\<close>, which the grammar of PostgreSQL knows for indexes and tables but not for triggers.
\<close>

datatype ddl = Create_or_replace_function string | Drop_trigger_if_exists string | Create_trigger bool string
  | Create_index_if_not_exists string | Create_table_if_not_exists string | Upsert_into string

record catalog =
  cat_functions :: "string list"
  cat_triggers :: "string list"
  cat_indexes :: "string list"
  cat_tables :: "string list"

definition ddl_parses :: "ddl \<Rightarrow> bool" where
  "ddl_parses s \<longleftrightarrow> (case s of Create_trigger if_not_exists t \<Rightarrow> \<not> if_not_exists | _ \<Rightarrow> True)"

fun ddl_run :: "ddl \<Rightarrow> catalog \<Rightarrow> catalog option" where
  "ddl_run (Create_or_replace_function f) c = Some (c\<lparr>cat_functions := List.insert f (cat_functions c)\<rparr>)"
| "ddl_run (Drop_trigger_if_exists t) c = Some (c\<lparr>cat_triggers := removeAll t (cat_triggers c)\<rparr>)"
| "ddl_run (Create_trigger b t) c =
     (if t \<in> set (cat_triggers c) then None else Some (c\<lparr>cat_triggers := t # cat_triggers c\<rparr>))"
| "ddl_run (Create_index_if_not_exists i) c = Some (c\<lparr>cat_indexes := List.insert i (cat_indexes c)\<rparr>)"
| "ddl_run (Create_table_if_not_exists t) c = Some (c\<lparr>cat_tables := List.insert t (cat_tables c)\<rparr>)"
| "ddl_run (Upsert_into t) c = (if t \<in> set (cat_tables c) then Some c else None)"

text \<open>
  A text of several statements is parsed as a whole and run as one transaction: an error in any leaves nothing behind.
  \<open>reachable\<close> says whether the call reaches the server.
\<close>

definition exec_text :: "bool \<Rightarrow> ddl list \<Rightarrow> catalog \<Rightarrow> unit result \<times> catalog" where
  "exec_text reachable text c =
    (if \<not> reachable then (Inl (Driver ''connection error''), c)
     else if \<not> list_all ddl_parses text then (Inl (Driver ''syntax error''), c)
     else (case foldl (\<lambda>c s. Option.bind c (ddl_run s)) (Some c) text of
       None \<Rightarrow> (Inl (Driver ''statement failed''), c)
     | Some c' \<Rightarrow> (Inr (), c')))"

definition webhookConfigTriggerSQL :: "ddl list" where
  "webhookConfigTriggerSQL = [Create_or_replace_function ''notify_webhook_config_change'',
     Create_trigger True ''webhook_config_change_trigger'']"

definition eventTriggerSQL :: "ddl list" where
  "eventTriggerSQL = [Create_or_replace_function ''notify_webhook_event_change'',
     Drop_trigger_if_exists ''webhook_event_change_trigger'', Create_trigger False ''webhook_event_change_trigger'',
     Create_index_if_not_exists ''idx_webhook_events_pending_next_attempt'',
     Create_or_replace_function ''check_retry_events'', Create_table_if_not_exists ''webhook_system_state'',
     Upsert_into ''webhook_system_state'']"

definition GetTriggerSQL :: "ddl list" where
  "GetTriggerSQL = webhookConfigTriggerSQL"

definition GetEventTriggerSQL :: "ddl list" where
  "GetEventTriggerSQL = eventTriggerSQL"

text \<open>The checks are called with a \<open>*sql.DB\<close>.\<close>

definition trigger_exists :: "string \<Rightarrow> bool \<Rightarrow> catalog \<Rightarrow> bool result" where
  "trigger_exists name reachable c =
    (if reachable then Inr (name \<in> set (cat_triggers c)) else Inl (Driver ''connection error''))"

definition CheckTriggerExists :: "bool \<Rightarrow> catalog \<Rightarrow> bool result" where
  "CheckTriggerExists = trigger_exists ''webhook_config_change_trigger''"

definition CheckEventTriggerExists :: "bool \<Rightarrow> catalog \<Rightarrow> bool result" where
  "CheckEventTriggerExists = trigger_exists ''webhook_event_change_trigger''"

text \<open>\<open>up k\<close> says whether the k-th call reaches the server; errors are logged and dropped.\<close>

definition setupDatabaseTriggers :: "(nat \<Rightarrow> bool) \<Rightarrow> catalog \<Rightarrow> catalog" where
  "setupDatabaseTriggers up c0 =
    (let c1 = (case CheckTriggerExists (up 0) c0 of
         Inr False \<Rightarrow> snd (exec_text (up 1) GetTriggerSQL c0) | _ \<Rightarrow> c0);
       c2 = (case CheckEventTriggerExists (up 2) c1 of
         Inr False \<Rightarrow> snd (exec_text (up 3) GetEventTriggerSQL c1) | _ \<Rightarrow> c1)
     in snd (exec_text (up 4) [Create_index_if_not_exists ''idx_webhook_events_pending_next_attempt''] c2))"

lemma config_text_refused: "snd (exec_text b GetTriggerSQL c) = c"
  by (simp add: exec_text_def GetTriggerSQL_def webhookConfigTriggerSQL_def ddl_parses_def)

lemma event_text_run: "exec_text True GetEventTriggerSQL c = (Inr (), c\<lparr>
    cat_functions := List.insert ''check_retry_events'' (List.insert ''notify_webhook_event_change'' (cat_functions c)),
    cat_triggers := ''webhook_event_change_trigger'' # removeAll ''webhook_event_change_trigger'' (cat_triggers c),
    cat_indexes := List.insert ''idx_webhook_events_pending_next_attempt'' (cat_indexes c),
    cat_tables := List.insert ''webhook_system_state'' (cat_tables c)\<rparr>)"
  by (simp add: exec_text_def GetEventTriggerSQL_def eventTriggerSQL_def ddl_parses_def)

lemma index_text_triggers:
  "cat_triggers (snd (exec_text b [Create_index_if_not_exists i] c)) = cat_triggers c"
  by (simp add: exec_text_def ddl_parses_def)

lemma event_text_triggers:
  "set (cat_triggers (snd (exec_text b GetEventTriggerSQL c))) \<subseteq> insert ''webhook_event_change_trigger'' (set (cat_triggers c))"
  by (cases b) (auto simp: event_text_run, simp add: exec_text_def)



section \<open>Routines driven by a ticker\<close>

text \<open>
  A routine may first wait, then runs its operation at the ticks of its ticker, which holds at most one, until
  the stop channel is closed. A \<open>select\<close> with a tick and a closed stop channel takes either.
\<close>

datatype routine_place = First_wait | Ticking | Ended

record 'w routine =
  rt_at :: routine_place
  rt_tick :: bool
  rt_stopped :: bool
  rt_world :: 'w

definition started_routine :: "bool \<Rightarrow> 'w \<Rightarrow> 'w routine" where
  "started_routine delayed w = \<lparr>rt_at = (if delayed then First_wait else Ticking), rt_tick = False, rt_stopped = False, rt_world = w\<rparr>"

inductive ticker_step :: "('w \<Rightarrow> 'w \<Rightarrow> bool) \<Rightarrow> 'w routine \<Rightarrow> 'w routine \<Rightarrow> bool" for op where
  wait_over: "rt_at r = First_wait \<Longrightarrow> ticker_step op r (r\<lparr>rt_at := Ticking\<rparr>)"
| stop_waiting: "rt_at r = First_wait \<Longrightarrow> rt_stopped r \<Longrightarrow> ticker_step op r (r\<lparr>rt_at := Ended\<rparr>)"
| tick: "rt_at r = Ticking \<Longrightarrow> ticker_step op r (r\<lparr>rt_tick := True\<rparr>)"
| run_op: "rt_at r = Ticking \<Longrightarrow> rt_tick r \<Longrightarrow> op (rt_world r) w \<Longrightarrow> ticker_step op r (r\<lparr>rt_tick := False, rt_world := w\<rparr>)"
| stop_ticking: "rt_at r = Ticking \<Longrightarrow> rt_stopped r \<Longrightarrow> ticker_step op r (r\<lparr>rt_at := Ended\<rparr>)"
| close_stop: "\<not> rt_stopped r \<Longrightarrow> ticker_step op r (r\<lparr>rt_stopped := True\<rparr>)"

text \<open>The four routines of the service; clocks, orders and what workers take are free.\<close>

definition backupPollingRoutine :: "config \<Rightarrow> string \<Rightarrow> (event_queue \<times> database) routine \<Rightarrow> (event_queue \<times> database) routine \<Rightarrow> bool" where
  "backupPollingRoutine cfg instanceID = ticker_step (\<lambda>w w'. \<exists>now stop taken.
     w' = pollEvents now stop taken (nat (cfg_MaxEventsPerPoll cfg)) instanceID w)"

definition retrySchedulerRoutine :: "database routine \<Rightarrow> database routine \<Rightarrow> bool" where
  "retrySchedulerRoutine = ticker_step (\<lambda>d d'. \<exists>now ord. d' = processReadyRetries now ord d)"

definition cleanupRoutine :: "database routine \<Rightarrow> database routine \<Rightarrow> bool" where
  "cleanupRoutine = ticker_step (\<lambda>d d'. \<exists>now clock. d' = CleanupStalledEvents now clock d)"

definition StartPeriodicRefresh :: "'d source \<Rightarrow> (config_cache \<times> 'd) routine \<Rightarrow> (config_cache \<times> 'd) routine \<Rightarrow> bool" where
  "StartPeriodicRefresh fetch = ticker_step (\<lambda>w w'. \<exists>key_order clk.
     w' = snd (cache_RefreshAllConfigs key_order fetch clk w))"

text \<open>\<open>StopPeriodicRefresh\<close>: closing the stop channel a second time panics.\<close>

definition StopPeriodicRefresh :: "'w routine \<Rightarrow> 'w routine option" where
  "StopPeriodicRefresh r = (if rt_stopped r then None else Some (r\<lparr>rt_stopped := True\<rparr>))"

lemma routine_only_op: "(ticker_step op)\<^sup>*\<^sup>* r r' \<Longrightarrow> op\<^sup>*\<^sup>* (rt_world r) (rt_world r')"
  by (induction rule: rtranclp_induct) (auto simp: ticker_step.simps intro: rtranclp.rtrancl_into_rtrancl)

lemma ended_routine: "ticker_step op r r' \<Longrightarrow> rt_at r = Ended \<Longrightarrow> rt_at r' = Ended \<and> rt_world r' = rt_world r"
  by (auto simp: ticker_step.simps)

lemma stopped_routine_ends: "rt_stopped r \<Longrightarrow> rt_at r = Ended \<or> ticker_step op r (r\<lparr>rt_at := Ended\<rparr>)"
  by (cases "rt_at r") (auto intro: ticker_step.intros)

end
