(* ===== verification/Database_Pool.thy ===== *)
theory Database_Pool
  imports Config
begin

text \<open>
  \<open>internal/database/database.go\<close>: the single connection pool of a process, the limits it is given, and the
  health report of \<open>/health\<close>. Of \<open>database/sql\<close> the setters of the limits are modelled, as they are documented.
\<close>

section \<open>\<open>sql.DB\<close>\<close>

text \<open>
  The limits of a pool. \<open>sq_maxOpen\<close> 0 is no limit; \<open>sq_maxIdleCount\<close> 0 is the default of 2 and a negative
  count no idle connection.
\<close>

record sql_db =
  sq_dsn :: string
  sq_maxOpen :: int
  sq_maxIdleCount :: int
  sq_maxLifetime :: duration
  sq_maxIdleTime :: duration
  sq_closed :: bool

definition sql_open :: "string \<Rightarrow> sql_db" where
  "sql_open dsn = \<lparr>sq_dsn = dsn, sq_maxOpen = 0, sq_maxIdleCount = 0, sq_maxLifetime = 0, sq_maxIdleTime = 0,
     sq_closed = False\<rparr>"

definition max_idle_conns :: "sql_db \<Rightarrow> int" where
  "max_idle_conns db = (if sq_maxIdleCount db = 0 then 2 else if sq_maxIdleCount db < 0 then 0 else sq_maxIdleCount db)"

definition SetMaxIdleConns :: "int \<Rightarrow> sql_db \<Rightarrow> sql_db" where
  "SetMaxIdleConns n db =
    (let db' = db\<lparr>sq_maxIdleCount := (if 0 < n then n else - 1)\<rparr>
     in if 0 < sq_maxOpen db' \<and> sq_maxOpen db' < max_idle_conns db' then db'\<lparr>sq_maxIdleCount := sq_maxOpen db'\<rparr> else db')"

definition SetMaxOpenConns :: "int \<Rightarrow> sql_db \<Rightarrow> sql_db" where
  "SetMaxOpenConns n db =
    (let db' = db\<lparr>sq_maxOpen := (if n < 0 then 0 else n)\<rparr>
     in if 0 < sq_maxOpen db' \<and> sq_maxOpen db' < max_idle_conns db' then SetMaxIdleConns n db' else db')"

definition SetConnMaxLifetime :: "duration \<Rightarrow> sql_db \<Rightarrow> sql_db" where
  "SetConnMaxLifetime d db = db\<lparr>sq_maxLifetime := (if d < 0 then 0 else d)\<rparr>"

definition SetConnMaxIdleTime :: "duration \<Rightarrow> sql_db \<Rightarrow> sql_db" where
  "SetConnMaxIdleTime d db = db\<lparr>sq_maxIdleTime := (if d < 0 then 0 else d)\<rparr>"

section \<open>\<open>New\<close>\<close>

definition pool_maxOpen :: "config \<Rightarrow> int" where
  "pool_maxOpen cfg = (if cfg_DBMaxOpenConns cfg \<le> 0 then wrap64 (cfg_MaxWorkers cfg + go_div (cfg_MaxWorkers cfg) 2)
     else cfg_DBMaxOpenConns cfg)"

definition pool_maxIdle :: "config \<Rightarrow> int" where
  "pool_maxIdle cfg = (if cfg_DBMaxIdleConns cfg \<le> 0
     then (let maxIdleConns = go_div (pool_maxOpen cfg) 4
           in if maxIdleConns < cfg_MinWorkers cfg then cfg_MinWorkers cfg else maxIdleConns)
     else cfg_DBMaxIdleConns cfg)"

definition pool_maxLifetime :: "config \<Rightarrow> duration" where
  "pool_maxLifetime cfg = (if cfg_DBConnMaxLifetime cfg \<le> 0 then 30 * nano_minute else cfg_DBConnMaxLifetime cfg)"

definition pool_maxIdleTime :: "config \<Rightarrow> duration" where
  "pool_maxIdleTime cfg = (if cfg_DBConnMaxIdleTime cfg \<le> 0 then 5 * nano_minute else cfg_DBConnMaxIdleTime cfg)"

text \<open>
  The package variable \<open>dbInstance\<close> is an argument and a result. \<open>open_error\<close> is the error of \<open>sql.Open\<close> for a connection
  string; \<open>None\<close> is the end of the process by \<open>log.Fatal\<close>.
\<close>

definition New_database :: "(string \<Rightarrow> goerr option) \<Rightarrow> config \<Rightarrow> sql_db option \<Rightarrow> (sql_db \<times> sql_db option) option" where
  "New_database open_error cfg dbInstance = (case dbInstance of
     Some db \<Rightarrow> Some (db, dbInstance)
   | None \<Rightarrow> (case open_error (GetDSN cfg) of
       Some err \<Rightarrow> None
     | None \<Rightarrow>
         let db = SetConnMaxIdleTime (pool_maxIdleTime cfg) (SetConnMaxLifetime (pool_maxLifetime cfg)
           (SetMaxIdleConns (pool_maxIdle cfg) (SetMaxOpenConns (pool_maxOpen cfg) (sql_open (GetDSN cfg)))))
         in Some (db, Some db)))"

lemma idle_within_open: "0 < sq_maxOpen db \<Longrightarrow> max_idle_conns (SetMaxIdleConns n db) \<le> sq_maxOpen db"
  by (auto simp: SetMaxIdleConns_def max_idle_conns_def Let_def)

lemma open_after_idle [simp]: "sq_maxOpen (SetMaxIdleConns n db) = sq_maxOpen db"
  by (simp add: SetMaxIdleConns_def Let_def)

lemma open_after_open [simp]: "sq_maxOpen (SetMaxOpenConns n db) = (if n < 0 then 0 else n)"
  by (simp add: SetMaxOpenConns_def Let_def)

lemma lifetimes_frame [simp]:
  "sq_maxOpen (SetConnMaxLifetime d db) = sq_maxOpen db" "sq_maxOpen (SetConnMaxIdleTime d db) = sq_maxOpen db"
  "max_idle_conns (SetConnMaxLifetime d db) = max_idle_conns db"
  "max_idle_conns (SetConnMaxIdleTime d db) = max_idle_conns db"
  by (simp_all add: SetConnMaxLifetime_def SetConnMaxIdleTime_def max_idle_conns_def)

lemma idle_set: "max_idle_conns (SetMaxIdleConns n db) =
    (if n \<le> 0 then 0 else if 0 < sq_maxOpen db \<and> sq_maxOpen db < n then sq_maxOpen db else n)"
  by (auto simp: SetMaxIdleConns_def max_idle_conns_def Let_def)

lemma worker_share:
  assumes "0 < n" and "n \<le> max_int64 div 2"
  shows "wrap64 (n + go_div n 2) = 3 * n div 2"
proof -
  have "n + go_div n 2 = 3 * n div 2" using assms(1) by simp
  moreover have "3 * n div 2 \<le> max_int64" "min_int64 \<le> 3 * n div 2" using assms by (auto simp: max_int64_def min_int64_def)
  ultimately show ?thesis by simp
qed

text \<open>The limits of the connection pool. The first \<open>New\<close> of a process gives a pool with the lifetimes of the
  configuration or half an hour and five minutes, and never more idle connections than open ones when these are limited; where
  the configuration leaves the limit open, it is three connections for two delivery workers, and without delivery
  workers there is no limit. Any later \<open>New\<close> returns the same pool and ignores its configuration.
\<close>

theorem pool_limits:
  assumes "open_error (GetDSN cfg) = None" and "cfg_MaxWorkers cfg \<le> max_int64 div 2" and "0 \<le> cfg_MaxWorkers cfg"
  shows "\<exists>db. New_database open_error cfg None = Some (db, Some db) \<and>
    0 \<le> sq_maxOpen db \<and> 0 \<le> max_idle_conns db \<and> (0 < sq_maxOpen db \<longrightarrow> max_idle_conns db \<le> sq_maxOpen db) \<and>
    sq_maxOpen db = (if 0 < cfg_DBMaxOpenConns cfg then cfg_DBMaxOpenConns cfg else 3 * cfg_MaxWorkers cfg div 2) \<and>
    0 < sq_maxLifetime db \<and> 0 < sq_maxIdleTime db \<and>
    (\<forall>open_error' cfg'. New_database open_error' cfg' (Some db) = Some (db, Some db))"
proof -
  let ?db = "SetConnMaxIdleTime (pool_maxIdleTime cfg) (SetConnMaxLifetime (pool_maxLifetime cfg)
    (SetMaxIdleConns (pool_maxIdle cfg) (SetMaxOpenConns (pool_maxOpen cfg) (sql_open (GetDSN cfg)))))"
  have share: "wrap64 (cfg_MaxWorkers cfg + go_div (cfg_MaxWorkers cfg) 2) = 3 * cfg_MaxWorkers cfg div 2"
  proof (cases "cfg_MaxWorkers cfg = 0")
    case True
    then show ?thesis by (simp add: go_div_def wrap64_def)
  next
    case False
    then show ?thesis using assms(2,3) by (intro worker_share) auto
  qed
  then have n: "pool_maxOpen cfg = (if 0 < cfg_DBMaxOpenConns cfg then cfg_DBMaxOpenConns cfg else 3 * cfg_MaxWorkers cfg div 2)"
    by (simp add: pool_maxOpen_def)
  with assms(3) have "0 \<le> pool_maxOpen cfg" by simp
  moreover have "New_database open_error cfg None = Some (?db, Some ?db)" using assms(1) by (simp add: New_database_def Let_def)
  moreover have "0 < sq_maxLifetime ?db" "0 < sq_maxIdleTime ?db"
    by (simp_all add: SetConnMaxLifetime_def SetConnMaxIdleTime_def pool_maxLifetime_def pool_maxIdleTime_def
        nano_minute_def nano_second_def)
  ultimately show ?thesis
    using n by (intro exI [of _ ?db]) (auto simp: idle_set New_database_def)
qed

section \<open>\<open>Close\<close> and \<open>GetDB\<close>\<close>

text \<open>
  \<open>Close\<close> hands back the error of \<open>sql.DB.Close\<close>, an argument; the pool is closed whatever it is. \<open>GetDB\<close> is the pool, closed or not.
\<close>

definition service_Close :: "goerr option \<Rightarrow> sql_db \<Rightarrow> goerr option \<times> sql_db" where
  "service_Close err db = (err, db\<lparr>sq_closed := True\<rparr>)"

definition service_GetDB :: "sql_db \<Rightarrow> sql_db" where
  "service_GetDB db = db"

lemma limits_leave_open [simp]:
  "sq_closed (SetMaxIdleConns n db) = sq_closed db" "sq_closed (SetMaxOpenConns n db) = sq_closed db"
  "sq_closed (SetConnMaxLifetime d db) = sq_closed db" "sq_closed (SetConnMaxIdleTime d db) = sq_closed db"
  by (simp_all add: SetMaxIdleConns_def SetMaxOpenConns_def SetConnMaxLifetime_def SetConnMaxIdleTime_def Let_def)

text \<open>\<open>dbInstance\<close> is never reset: after \<open>Close\<close> every later \<open>New\<close> of the process returns the closed pool, and reports nothing.\<close>

lemma closed_pool_is_returned:
  assumes "New_database open_error cfg None = Some (db, Some db)" and "service_Close err db = (x, db')"
  shows "\<not> sq_closed (service_GetDB db) \<and> sq_closed (service_GetDB db') \<and>
    New_database open_error' cfg' (Some db') = Some (db', Some db')"
proof -
  have "\<not> sq_closed db"
    using assms(1) by (auto simp: New_database_def Let_def sql_open_def split: option.splits)
  then show ?thesis using assms(2) by (auto simp: service_Close_def service_GetDB_def New_database_def)
qed

section \<open>\<open>Duration.String\<close>\<close>

text \<open>The \<open>prec\<close> digits of a fraction, without trailing zeros, after a point if any are left.\<close>

fun fraction_digits :: "nat \<Rightarrow> int \<Rightarrow> string" where
  "fraction_digits 0 v = []"
| "fraction_digits (Suc prec) v = fraction_digits prec (v div 10) @ [char_of (48 + nat (v mod 10))]"

definition fraction_text :: "nat \<Rightarrow> int \<Rightarrow> string" where
  "fraction_text prec v = (let ds = rev (dropWhile (\<lambda>c. c = CHR ''0'') (rev (fraction_digits prec (v mod 10 ^ prec))))
     in if ds = [] then [] else CHR ''.'' # ds)"

definition duration_string :: "duration \<Rightarrow> string" where
  "duration_string d = (let u = \<bar>d\<bar>; text =
       (if u = 0 then ''0s''
        else if u < 1000 then show_int u @ ''ns''
        else if u < 1000000 then show_int (u div 1000) @ fraction_text 3 u @ [char_of (194::nat), char_of (181::nat)] @ ''s''
        else if u < 1000000000 then show_int (u div 1000000) @ fraction_text 6 u @ ''ms''
        else (let s = u div 1000000000; m = s div 60; h = m div 60 in
          (if 0 < h then show_int h @ ''h'' else []) @ (if 0 < m then show_int (m mod 60) @ ''m'' else []) @
          show_int (s mod 60) @ fraction_text 9 u @ ''s''))
     in if d < 0 then CHR ''-'' # text else text)"

section \<open>\<open>Health\<close>\<close>

text \<open>\<open>sql.DBStats\<close>, as far as it is read.\<close>

record db_stats =
  ds_OpenConnections :: int
  ds_InUse :: int
  ds_Idle :: int
  ds_WaitCount :: int
  ds_WaitDuration :: duration
  ds_MaxIdleClosed :: int
  ds_MaxLifetimeClosed :: int

definition health_message :: "db_stats \<Rightarrow> string" where
  "health_message st =
    (let m = ''It'' @ [char_of (39::nat)] @ ''s healthy'';
         m = (if 40 < ds_OpenConnections st then ''The database is experiencing heavy load.'' else m);
         m = (if 1000 < ds_WaitCount st
              then ''The database has a high number of wait events, indicating potential bottlenecks.'' else m);
         m = (if go_div (ds_OpenConnections st) 2 < ds_MaxIdleClosed st
              then ''Many idle connections are being closed, consider revising the connection pool settings.'' else m)
     in if go_div (ds_OpenConnections st) 2 < ds_MaxLifetimeClosed st
        then ''Many connections are being closed due to max lifetime, consider increasing max lifetime or revising the connection usage pattern.''
        else m)"

text \<open>
  \<open>ping\<close> is the error of \<open>PingContext\<close>. After a failed ping \<open>log.Fatalf\<close> ends the process (\<open>None\<close>), so the map with
  status \<open>down\<close> made just before is never returned.
\<close>

definition Health :: "goerr option \<Rightarrow> db_stats \<Rightarrow> (string, string) gomap option" where
  "Health ping st = (case ping of
     Some err \<Rightarrow> None
   | None \<Rightarrow> Some
      [(''status'', ''up''), (''message'', health_message st),
       (''open_connections'', show_int (ds_OpenConnections st)), (''in_use'', show_int (ds_InUse st)),
       (''idle'', show_int (ds_Idle st)), (''wait_count'', show_int (ds_WaitCount st)),
       (''wait_duration'', duration_string (ds_WaitDuration st)),
       (''max_idle_closed'', show_int (ds_MaxIdleClosed st)),
       (''max_lifetime_closed'', show_int (ds_MaxLifetimeClosed st))])"

text \<open>\<open>healthHandler\<close>: the status code and the body, or the end of the process.\<close>

definition healthHandler :: "goerr option \<Rightarrow> db_stats \<Rightarrow> (int \<times> (string, string) gomap) option" where
  "healthHandler ping st = map_option (\<lambda>stats. (200, stats)) (Health ping st)"

text \<open>A health check never says that the database is down. Its only answer is 200 with status \<open>up\<close>; when the ping fails
  there is no answer, and the process is gone. The message is that of the last test that holds, in the order
  of the source, and a pool of at most 40 connections is never reported as under heavy load.
\<close>

theorem health_never_down:
  "(healthHandler ping st = None \<longleftrightarrow> ping \<noteq> None) \<and>
   (\<forall>code stats. healthHandler ping st = Some (code, stats) \<longrightarrow> code = 200 \<and> map_of stats ''status'' = Some ''up'' \<and>
      map_of stats ''message'' = Some (health_message st)) \<and>
   (ds_OpenConnections st \<le> 40 \<longrightarrow> health_message st \<noteq> ''The database is experiencing heavy load.'') \<and>
   (go_div (ds_OpenConnections st) 2 < ds_MaxLifetimeClosed st \<longrightarrow> hd (health_message st) = CHR ''M'')"
  by (auto simp: healthHandler_def Health_def health_message_def Let_def split: option.splits)


text \<open>Both at a concrete configuration and a concrete load.\<close>

lemma pool_limits_witness:
  "\<exists>db. New_database (\<lambda>dsn. None) default_config None = Some (db, Some db) \<and> sq_maxOpen db = 30 \<and> max_idle_conns db \<le> 30"
proof -
  have "cfg_MaxWorkers default_config \<le> max_int64 div 2" "0 \<le> cfg_MaxWorkers default_config"
    by (simp_all add: default_config_def max_int64_def)
  from pool_limits [where open_error = "\<lambda>dsn. None", OF _ this] show ?thesis by (auto simp: default_config_def)
qed

lemma health_never_down_witness:
  "\<exists>stats. healthHandler None \<lparr>ds_OpenConnections = 4, ds_InUse = 1, ds_Idle = 3, ds_WaitCount = 0, ds_WaitDuration = 0,
     ds_MaxIdleClosed = 0, ds_MaxLifetimeClosed = 3\<rparr> = Some (200, stats) \<and> map_of stats ''status'' = Some ''up''"
  using health_never_down [of None "\<lparr>ds_OpenConnections = 4, ds_InUse = 1, ds_Idle = 3, ds_WaitCount = 0, ds_WaitDuration = 0,
     ds_MaxIdleClosed = 0, ds_MaxLifetimeClosed = 3\<rparr>"]
  by (auto simp: healthHandler_def Health_def)

end
