(* ===== verification/Benchmark.thy ===== *)
theory Benchmark
  imports Channel Json Float64
begin

text \<open>
  \<open>cmd/benchmark/main.go\<close>, the load generator: what an event it sends looks like, a run of its workers
  over the two channels, the figures it reports, and its stress test. The network, the random draws and the
  clock are parameters.
\<close>

section \<open>Ranks in a sorted list\<close>

lemma sorted_rank:
  fixes xs :: "'a :: linorder list"
  assumes "sorted xs" and "i < length xs"
  shows "length (filter (\<lambda>x. x < xs ! i) xs) \<le> i \<and> i < length (filter (\<lambda>x. x \<le> xs ! i) xs)"
proof -
  have low: "x \<le> xs ! i" if x: "x \<in> set (take (Suc i) xs)" for x
  proof -
    obtain j where "j \<le> i" "x = xs ! j" using x assms(2) by (auto simp: in_set_conv_nth less_Suc_eq_le)
    then show ?thesis using assms by (simp add: sorted_nth_mono)
  qed
  have high: "xs ! i \<le> x" if x: "x \<in> set (drop i xs)" for x
  proof -
    obtain j where "i + j < length xs" "x = xs ! (i + j)"
      using x by (metis add.commute in_set_conv_nth length_drop less_diff_conv nth_drop order_less_imp_le assms(2))
    then show ?thesis using assms by (simp add: sorted_nth_mono)
  qed
  have "filter (\<lambda>x. x < xs ! i) xs = filter (\<lambda>x. x < xs ! i) (take i xs @ drop i xs)" by simp
  also have "\<dots> = filter (\<lambda>x. x < xs ! i) (take i xs)"
    using high by (auto simp del: append_take_drop_id simp: filter_empty_conv not_less)
  finally have 1: "length (filter (\<lambda>x. x < xs ! i) xs) \<le> i"
    using length_filter_le [of "\<lambda>x. x < xs ! i" "take i xs"] by simp
  have "filter (\<lambda>x. x \<le> xs ! i) xs = filter (\<lambda>x. x \<le> xs ! i) (take (Suc i) xs @ drop (Suc i) xs)" by simp
  also have "\<dots> = take (Suc i) xs @ filter (\<lambda>x. x \<le> xs ! i) (drop (Suc i) xs)"
    using low by (auto simp del: append_take_drop_id simp: filter_id_conv)
  finally have 2: "i < length (filter (\<lambda>x. x \<le> xs ! i) xs)" using assms(2) by simp
  show ?thesis using 1 2 by simp
qed

section \<open>The events it sends\<close>

record bench_subscriber =
  bs_ID :: string
  bs_Status :: string
  bs_Email :: string
  bs_Source :: string
  bs_FirstName :: string
  bs_LastName :: string
  bs_Segments :: "string list option"
  bs_CustomFields :: "(string, json) gomap option"
  bs_OptinIP :: string
  bs_OptinTimestamp :: instant
  bs_CreatedAt :: instant

record event_payload =
  ep_ID :: string
  ep_WebhookID :: string
  ep_EventName :: string
  ep_EventTime :: instant
  ep_Subscriber :: bench_subscriber

text \<open>\<open>json.Marshal(event)\<close> with the tags of the two structs: an error if an instant has no text.\<close>

definition marshal_bench_subscriber :: "bench_subscriber \<Rightarrow> json result" where
  "marshal_bench_subscriber s = (case marshal_time (bs_OptinTimestamp s) of
     Inl e \<Rightarrow> Inl e
   | Inr t \<Rightarrow> (case marshal_time (bs_CreatedAt s) of
       Inl e \<Rightarrow> Inl e
     | Inr u \<Rightarrow> Inr (JObj [(''id'', JStr (bs_ID s)), (''status'', JStr (bs_Status s)),
         (''email'', JStr (bs_Email s)), (''source'', JStr (bs_Source s)),
         (''first_name'', JStr (bs_FirstName s)), (''last_name'', JStr (bs_LastName s)),
         (''segments'', marshal_strings (bs_Segments s)), (''custom_fields'', marshal_map (bs_CustomFields s)),
         (''optin_ip'', JStr (bs_OptinIP s)), (''optin_timestamp'', t), (''created_at'', u)])))"

definition marshal_payload :: "event_payload \<Rightarrow> json result" where
  "marshal_payload e = (case marshal_time (ep_EventTime e) of
     Inl x \<Rightarrow> Inl x
   | Inr t \<Rightarrow> (case marshal_bench_subscriber (ep_Subscriber e) of
       Inl x \<Rightarrow> Inl x
     | Inr s \<Rightarrow> Inr (JObj [(''id'', JStr (ep_ID e)), (''webhook_id'', JStr (ep_WebhookID e)),
         (''event_name'', JStr (ep_EventName e)), (''event_time'', t), (''subscriber'', s)])))"

text \<open>
  \<open>intn k n\<close> is the k-th draw of \<open>rand.Intn(n)\<close>, which panics (\<open>None\<close>) when \<open>n\<close> is not positive.
\<close>

definition generateRandomEvent :: "(nat \<Rightarrow> int \<Rightarrow> int) \<Rightarrow> instant \<Rightarrow> string list \<Rightarrow> string \<Rightarrow> event_payload option" where
  "generateRandomEvent intn now webhookIDs eventID =
    (if webhookIDs = [] then None
     else Some \<lparr>ep_ID = eventID, ep_WebhookID = webhookIDs ! nat (intn 0 (int (length webhookIDs))),
       ep_EventName = ''subscriber.created'', ep_EventTime = now,
       ep_Subscriber = \<lparr>bs_ID = ''sub'' @ show_int (intn 1 10000), bs_Status = ''active'',
         bs_Email = ''user'' @ show_int (intn 2 1000) @ ''@example.com'', bs_Source = ''manual'',
         bs_FirstName = ''John'', bs_LastName = ''Doe'', bs_Segments = Some [], bs_CustomFields = Some [],
         bs_OptinIP = ''127.0.0.1'', bs_OptinTimestamp = now, bs_CreatedAt = now\<rparr>\<rparr>)"

text \<open>\<open>post url contentType body\<close> is \<open>http.Post\<close>: an error, or the status code of the response.\<close>

definition sendEvent :: "(string \<Rightarrow> string \<Rightarrow> json \<Rightarrow> int result) \<Rightarrow> event_payload \<Rightarrow> string \<Rightarrow> bool \<times> goerr option" where
  "sendEvent post event baseURL = (case marshal_payload event of
     Inl e \<Rightarrow> (False, Some (Wrap ''error marshaling event'' e))
   | Inr body \<Rightarrow> (case post (baseURL @ ''/webhooks/events'') ''application/json'' body of
       Inl e \<Rightarrow> (False, Some (Wrap ''error sending event'' e))
     | Inr status \<Rightarrow> (200 \<le> status \<and> status < 300, None)))"

text \<open>
  The body of the workers' loop: what a worker sends to the results channel for one job. \<open>je_start\<close> and
  \<open>je_end\<close> are the clock readings around the request.
\<close>

record job_env =
  je_intn :: "nat \<Rightarrow> int \<Rightarrow> int"
  je_now :: instant
  je_post :: "string \<Rightarrow> string \<Rightarrow> json \<Rightarrow> int result"
  je_start :: instant
  je_end :: instant

definition job_answer :: "job_env \<Rightarrow> string list \<Rightarrow> string \<Rightarrow> string \<Rightarrow> duration option" where
  "job_answer env webhookIDs baseURL eventID =
    map_option (\<lambda>event. if fst (sendEvent (je_post env) event baseURL) then time_sub (je_end env) (je_start env) else - 1)
      (generateRandomEvent (je_intn env) (je_now env) webhookIDs eventID)"

definition worker_answer :: "(int \<Rightarrow> job_env) \<Rightarrow> string list \<Rightarrow> string \<Rightarrow> int \<Rightarrow> duration option" where
  "worker_answer envs webhookIDs baseURL jobID =
    job_answer (envs jobID) webhookIDs baseURL (''event-'' @ show_int jobID)"

section \<open>A run of the workers\<close>

text \<open>
  \<open>runBenchmark\<close>: the main goroutine fills \<open>jobs\<close>, closes it and waits; each worker takes jobs until the
  channel is closed and empty. \<open>bn_busy\<close> holds the jobs taken and not yet answered, \<open>bn_idle\<close> counts the workers
  at the head of their loop, \<open>bn_done\<close> those that have returned.
\<close>

record bench =
  bn_next :: int
  bn_closed :: bool
  bn_jobs :: "int chan"
  bn_results :: "duration chan"
  bn_busy :: "int list"
  bn_idle :: nat
  bn_done :: nat

text \<open>\<open>make\<close> panics on a negative capacity.\<close>

definition bench_start :: "int \<Rightarrow> int \<Rightarrow> bench option" where
  "bench_start concurrency totalRequests =
    (if totalRequests < 0 then None
     else Some \<lparr>bn_next = 0, bn_closed = False, bn_jobs = make_chan (nat totalRequests),
       bn_results = make_chan (nat totalRequests), bn_busy = [], bn_idle = nat concurrency, bn_done = 0\<rparr>)"

inductive bench_step :: "(int \<Rightarrow> duration) \<Rightarrow> int \<Rightarrow> bench \<Rightarrow> bench \<Rightarrow> bool" for answer totalRequests where
  produce: "bn_next b < totalRequests \<Longrightarrow> chan_room (bn_jobs b) \<Longrightarrow>
    bench_step answer totalRequests b (b\<lparr>bn_jobs := chan_send (bn_next b) (bn_jobs b), bn_next := bn_next b + 1\<rparr>)"
| close_jobs: "totalRequests \<le> bn_next b \<Longrightarrow> \<not> bn_closed b \<Longrightarrow>
    bench_step answer totalRequests b (b\<lparr>bn_closed := True\<rparr>)"
| take_job: "0 < bn_idle b \<Longrightarrow> chan_recv (bn_jobs b) = Some (j, jobs') \<Longrightarrow>
    bench_step answer totalRequests b (b\<lparr>bn_jobs := jobs', bn_idle := bn_idle b - 1, bn_busy := j # bn_busy b\<rparr>)"
| send_result: "j \<in> set (bn_busy b) \<Longrightarrow> chan_room (bn_results b) \<Longrightarrow>
    bench_step answer totalRequests b (b\<lparr>bn_results := chan_send (answer j) (bn_results b),
      bn_busy := remove1 j (bn_busy b), bn_idle := bn_idle b + 1\<rparr>)"
| leave: "0 < bn_idle b \<Longrightarrow> bn_closed b \<Longrightarrow> chan_recv (bn_jobs b) = None \<Longrightarrow>
    bench_step answer totalRequests b (b\<lparr>bn_idle := bn_idle b - 1, bn_done := bn_done b + 1\<rparr>)"

text \<open>\<open>wg.Wait\<close> returns once every worker has.\<close>

definition bench_finished :: "bench \<Rightarrow> bool" where
  "bench_finished b \<longleftrightarrow> bn_closed b \<and> bn_busy b = [] \<and> bn_idle b = 0"

definition bench_answers :: "(int \<Rightarrow> duration) \<Rightarrow> bench \<Rightarrow> duration multiset" where
  "bench_answers answer b =
    mset (ch_buf (bn_results b)) + image_mset answer (mset (bn_busy b) + mset (ch_buf (bn_jobs b)))"

text \<open>What holds at every point of a run with \<open>workers\<close> workers.\<close>

definition bench_ok :: "(int \<Rightarrow> duration) \<Rightarrow> int \<Rightarrow> nat \<Rightarrow> bench \<Rightarrow> bool" where
  "bench_ok answer totalRequests workers b \<longleftrightarrow>
    0 \<le> bn_next b \<and> bn_next b \<le> totalRequests \<and> (bn_closed b \<longrightarrow> bn_next b = totalRequests) \<and>
    int (ch_cap (bn_jobs b)) = totalRequests \<and> int (ch_cap (bn_results b)) = totalRequests \<and>
    length (bn_busy b) + bn_idle b + bn_done b = workers \<and>
    (0 < bn_done b \<longrightarrow> bn_closed b \<and> ch_buf (bn_jobs b) = []) \<and>
    bench_answers answer b = image_mset answer (mset [0..bn_next b - 1])"

text \<open>The steps left: three for every job, one for the close, one for each worker to return.\<close>

definition bench_left :: "int \<Rightarrow> bench \<Rightarrow> nat" where
  "bench_left totalRequests b = 3 * nat (totalRequests - bn_next b) + 2 * chan_len (bn_jobs b) + length (bn_busy b)
     + (length (bn_busy b) + bn_idle b) + (if bn_closed b then 0 else 1)"

lemma bench_ok_start:
  "bench_start concurrency totalRequests = Some b \<Longrightarrow> bench_ok answer totalRequests (nat concurrency) b"
  by (auto simp: bench_start_def bench_ok_def bench_answers_def make_chan_def split: if_splits)

lemma bench_left_start:
  "bench_start concurrency totalRequests = Some b \<Longrightarrow>
   bench_left totalRequests b = 3 * nat totalRequests + nat concurrency + 1"
  by (auto simp: bench_start_def bench_left_def make_chan_def chan_len_def split: if_splits)

lemma upto_snoc: "0 \<le> n \<Longrightarrow> mset [0..n] = add_mset n (mset [0..n - (1::int)])"
  by (simp add: upto_rec2)

lemma bench_ok_step:
  assumes "bench_step answer totalRequests b b'" and "bench_ok answer totalRequests workers b"
  shows "bench_ok answer totalRequests workers b'"
  using assms
proof (cases rule: bench_step.cases)
  case produce
  then show ?thesis using assms(2) by (auto simp: bench_ok_def bench_answers_def upto_snoc)
next
  case close_jobs
  then show ?thesis using assms(2) by (simp add: bench_ok_def bench_answers_def)
next
  case (take_job j jobs')
  from take_job(3) have "ch_buf (bn_jobs b) = j # ch_buf jobs'" "ch_cap jobs' = ch_cap (bn_jobs b)" by auto
  then show ?thesis using assms(2) take_job(1,2) by (auto simp: bench_ok_def bench_answers_def)
next
  case (send_result j)
  have m: "mset (bn_busy b) = add_mset j (mset (remove1 j (bn_busy b)))" using send_result(2) by simp
  have "bench_answers answer b' = bench_answers answer b"
    unfolding bench_answers_def m using send_result(1) by simp
  moreover have "length (bn_busy b) = Suc (length (remove1 j (bn_busy b)))"
    using m by (metis size_add_mset size_mset)
  ultimately show ?thesis using assms(2) send_result(1) by (auto simp: bench_ok_def)
next
  case leave
  then show ?thesis using assms(2) by (auto simp: bench_ok_def bench_answers_def)
qed

lemma bench_left_step:
  assumes "bench_step answer totalRequests b b'"
  shows "bench_left totalRequests b = Suc (bench_left totalRequests b')"
  using assms
proof (cases rule: bench_step.cases)
  case (send_result j)
  then have "length (bn_busy b) = Suc (length (remove1 j (bn_busy b)))"
    by (metis One_nat_def Suc_pred length_pos_if_in_set length_remove1)
  with send_result(1) show ?thesis by (simp add: bench_left_def)
next
  case (take_job j jobs')
  from take_job(3) have "ch_buf (bn_jobs b) = j # ch_buf jobs'" by auto
  then show ?thesis using take_job(1,2) by (simp add: bench_left_def chan_len_def)
qed (auto simp: bench_left_def chan_len_def)

text \<open>No goroutine waits for ever: where nothing can run, all workers have returned.\<close>

lemma bench_room:
  assumes "bench_ok answer totalRequests workers b"
  shows "length (ch_buf (bn_results b)) + length (bn_busy b) + length (ch_buf (bn_jobs b)) = nat (bn_next b)"
proof -
  have "size (bench_answers answer b) = nat (bn_next b)" using assms by (simp add: bench_ok_def)
  then show ?thesis by (simp add: bench_answers_def)
qed

lemma bench_stuck:
  assumes ok: "bench_ok answer totalRequests workers b" and stuck: "\<And>b'. \<not> bench_step answer totalRequests b b'"
  shows "bench_finished b"
proof -
  note room = bench_room [OF ok]
  have cap: "int (ch_cap (bn_jobs b)) = totalRequests" "int (ch_cap (bn_results b)) = totalRequests" "bn_next b \<le> totalRequests"
    "0 \<le> bn_next b"
    using ok by (auto simp: bench_ok_def)
  have all: "\<not> bn_next b < totalRequests"
  proof
    assume "bn_next b < totalRequests"
    moreover then have "chan_room (bn_jobs b)" using room cap by (auto simp: chan_room_def chan_len_def)
    ultimately show False by (rule notE [OF stuck produce])
  qed
  then have closed: "bn_closed b" by (meson stuck bench_step.close_jobs leI)
  have busy: "bn_busy b = []"
  proof (rule ccontr)
    assume "bn_busy b \<noteq> []"
    then obtain j js where "bn_busy b = j # js" by (cases "bn_busy b") auto
    then have "j \<in> set (bn_busy b)" "chan_room (bn_results b)" using room cap by (auto simp: chan_room_def chan_len_def)
    then show False by (rule notE [OF stuck send_result])
  qed
  have idle: "bn_idle b = 0"
  proof (rule ccontr)
    assume "bn_idle b \<noteq> 0"
    then have i: "0 < bn_idle b" by simp
    show False
    proof (cases "chan_recv (bn_jobs b)")
      case None
      show False by (rule notE [OF stuck leave [OF i closed None]])
    next
      case (Some a)
      then have "chan_recv (bn_jobs b) = Some (fst a, snd a)" by simp
      then show False by (rule notE [OF stuck take_job [OF i]])
    qed
  qed
  from closed busy idle show ?thesis by (simp add: bench_finished_def)
qed

lemma bench_ok_run:
  assumes "(bench_step answer totalRequests ^^ k) b b'" and "bench_ok answer totalRequests workers b"
  shows "bench_ok answer totalRequests workers b' \<and> k + bench_left totalRequests b' = bench_left totalRequests b"
  using assms
proof (induction k arbitrary: b')
  case (Suc k)
  then obtain c where c: "(bench_step answer totalRequests ^^ k) b c" "bench_step answer totalRequests c b'" by auto
  from Suc.IH [OF c(1) Suc.prems(2)] bench_ok_step [OF c(2)] bench_left_step [OF c(2)] show ?case by auto
qed simp

lemma bench_finished_answers:
  assumes "bench_ok answer totalRequests workers b" and "bench_finished b" and "0 < workers"
  shows "mset (ch_buf (bn_results b)) = image_mset answer (mset [0..totalRequests - 1])"
  using assms by (auto simp: bench_ok_def bench_finished_def bench_answers_def)

text \<open>C37: A run of the benchmark's workers ends and answers every request once. Whatever the interleaving, a run of
  \<open>runBenchmark\<close> has at most three steps for each request and one for each worker, plus one; where
  no step is possible all workers have returned, so nothing blocks on a full or an empty channel; and then, if there is a
  worker at all, the results channel holds exactly one answer for each request.
\<close>

theorem benchmark_completes:
  assumes "bench_start concurrency totalRequests = Some b0" and "(bench_step answer totalRequests ^^ k) b0 b"
  shows "k \<le> 3 * nat totalRequests + nat concurrency + 1 \<and>
    ((\<nexists>b'. bench_step answer totalRequests b b') \<longrightarrow> bench_finished b) \<and>
    (bench_finished b \<and> 0 < concurrency \<longrightarrow>
      mset (ch_buf (bn_results b)) = image_mset answer (mset [0..totalRequests - 1]))"
proof -
  have run: "bench_ok answer totalRequests (nat concurrency) b"
    "k + bench_left totalRequests b = 3 * nat totalRequests + nat concurrency + 1"
    using bench_ok_run [OF assms(2) bench_ok_start [OF assms(1)]] bench_left_start [OF assms(1)] by auto
  show ?thesis
    using bench_stuck [OF run(1)] bench_finished_answers [OF run(1)] run(2) by auto
qed

section \<open>The figures reported\<close>

record benchmark_results =
  br_TotalRequests :: int
  br_SuccessfulRequests :: int
  br_FailedRequests :: int
  br_TotalDuration :: duration
  br_MinLatency :: duration
  br_MaxLatency :: duration
  br_AvgLatency :: duration
  br_P50Latency :: duration
  br_P90Latency :: duration
  br_P95Latency :: duration
  br_P99Latency :: duration
  br_RequestsPerSecond :: float64
  br_SuccessRate :: float64
  br_End2EndMinLatency :: duration
  br_End2EndMaxLatency :: duration
  br_End2EndAvgLatency :: duration
  br_End2EndP50Latency :: duration
  br_End2EndP90Latency :: duration
  br_End2EndP95Latency :: duration
  br_End2EndP99Latency :: duration
  br_DeliverySuccessRate :: float64

definition getPercentile :: "duration list \<Rightarrow> int \<Rightarrow> duration" where
  "getPercentile sortedLatencies percentile =
    (if sortedLatencies = [] then 0
     else let n = int (length sortedLatencies);
       index = go_div (wrap64 (n * percentile)) 100;
       index = (if n \<le> index then n - 1 else index)
       in sortedLatencies ! nat index)"

text \<open>The loop over the results channel in \<open>calculateResults\<close>, and its five variables.\<close>

record latency_tally =
  lt_successful :: int
  lt_failed :: int
  lt_total :: duration
  lt_min :: duration
  lt_max :: duration

definition tally_latency :: "duration \<Rightarrow> latency_tally \<Rightarrow> latency_tally" where
  "tally_latency latency t =
    (if latency < 0 then t\<lparr>lt_failed := wrap64 (lt_failed t + 1)\<rparr>
     else t\<lparr>lt_successful := wrap64 (lt_successful t + 1), lt_total := wrap64 (lt_total t + latency),
       lt_min := (if latency < lt_min t then latency else lt_min t),
       lt_max := (if lt_max t < latency then latency else lt_max t)\<rparr>)"

definition nano_hour :: duration where
  "nano_hour = 60 * nano_minute"

text \<open>\<open>range\<close> over a closed channel receives what is left in it and leaves it empty.\<close>

definition drain :: "'a chan \<Rightarrow> 'a list \<times> 'a chan" where
  "drain c = (ch_buf c, c\<lparr>ch_buf := []\<rparr>)"

definition calculateResults :: "int \<Rightarrow> duration chan \<Rightarrow> duration list \<Rightarrow> duration \<Rightarrow> benchmark_results" where
  "calculateResults totalRequests resultsChannel sortedLatencies totalDuration =
    (let t = fold tally_latency (fst (drain resultsChannel))
         \<lparr>lt_successful = 0, lt_failed = 0, lt_total = 0, lt_min = nano_hour, lt_max = 0\<rparr>;
       percentile = (\<lambda>p. if sortedLatencies = [] then 0 else getPercentile sortedLatencies p)
     in \<lparr>br_TotalRequests = totalRequests, br_SuccessfulRequests = lt_successful t, br_FailedRequests = lt_failed t,
       br_TotalDuration = totalDuration, br_MinLatency = lt_min t, br_MaxLatency = lt_max t,
       br_AvgLatency = (if 0 < lt_successful t then go_div (lt_total t) (lt_successful t) else 0),
       br_P50Latency = percentile 50, br_P90Latency = percentile 90, br_P95Latency = percentile 95,
       br_P99Latency = percentile 99,
       br_RequestsPerSecond = f64_div (f64_of_int (lt_successful t)) (duration_seconds totalDuration),
       br_SuccessRate = f64_mul (f64_div (f64_of_int (lt_successful t)) (f64_of_int totalRequests)) (Fin 100),
       br_End2EndMinLatency = 0, br_End2EndMaxLatency = 0, br_End2EndAvgLatency = 0, br_End2EndP50Latency = 0,
       br_End2EndP90Latency = 0, br_End2EndP95Latency = 0, br_End2EndP99Latency = 0, br_DeliverySuccessRate = Fin 0\<rparr>)"

text \<open>What \<open>runBenchmark\<close> does once its workers have returned, \<open>totalDuration\<close> after its start.\<close>

definition bench_report :: "int \<Rightarrow> bench \<Rightarrow> duration \<Rightarrow> benchmark_results" where
  "bench_report totalRequests b totalDuration =
    (let (received, results) = drain (bn_results b);
       latencies = sort (filter (\<lambda>latency. 0 \<le> latency) received)
     in calculateResults totalRequests results latencies totalDuration)"

lemma percentile_index:
  assumes "xs \<noteq> []" and "int (length xs) \<le> max_int64 div 100" and "0 \<le> p" and "p < 100"
  shows "nat (int (length xs) * p div 100) < length xs" and "getPercentile xs p = xs ! nat (int (length xs) * p div 100)"
proof -
  let ?n = "int (length xs)"
  have b: "?n * p \<le> ?n * 99" "0 \<le> ?n * p" using assms(3,4) by (auto intro!: mult_left_mono)
  have m: "?n * 99 \<le> max_int64" using assms(2) by (simp add: max_int64_def)
  have w: "wrap64 (?n * p) = ?n * p" using b m by (intro wrap64_id) (auto simp: min_int64_def)
  have lt: "?n * p div 100 < ?n" using b(1) assms(1) by (cases xs) auto
  then show "nat (?n * p div 100) < length xs" using b(2) by (subst nat_less_iff) auto
  show "getPercentile xs p = xs ! nat (?n * p div 100)"
    using assms(1) w b(2) lt by (simp add: getPercentile_def Let_def)
qed


lemma hundredths: "0 \<le> (x::int) \<Longrightarrow> 100 * int (nat (x div 100)) \<le> x \<and> x < 100 * (int (nat (x div 100)) + 1)"
proof -
  assume "0 \<le> x"
  then have "int (nat (x div 100)) = x div 100" by simp
  then show ?thesis using div_mult_mod_eq [of x 100] pos_mod_bound [of 100 x] pos_mod_sign [of 100 x] by auto
qed

lemma above_hundredths:
  assumes "i < c" and "x < 100 * (int i + 1)"
  shows "x < 100 * int c"
proof -
  have "int i + 1 \<le> int c" using assms(1) by simp
  then have "100 * (int i + 1) \<le> 100 * int c" by simp
  with assms(2) show ?thesis by (rule less_le_trans)
qed

lemma percentile_member:
  assumes "xs \<noteq> []" and "int (length xs) \<le> max_int64 div 100" and "0 \<le> p" and "p < 100"
  shows "getPercentile xs p \<in> set xs"
  using percentile_index [OF assms] by simp

lemma percentile_mono:
  assumes "xs \<noteq> []" and "int (length xs) \<le> max_int64 div 100" and "0 \<le> p" and "p \<le> q" and "q < 100" and "sorted xs"
  shows "getPercentile xs p \<le> getPercentile xs q"
proof -
  have pq: "0 \<le> q" "p < 100" using assms(3-5) by auto
  have "int (length xs) * p \<le> int (length xs) * q" using assms(4) by (simp add: mult_left_mono)
  then have "nat (int (length xs) * p div 100) \<le> nat (int (length xs) * q div 100)" by (simp add: nat_mono zdiv_mono1)
  then show ?thesis
    unfolding percentile_index [OF assms(1-3) pq(2)] percentile_index [OF assms(1,2) pq(1) assms(5)]
    using percentile_index(1) [OF assms(1,2) pq(1) assms(5)] assms(6) by (intro sorted_nth_mono)
qed

text \<open>The percentiles reported are percentiles. For \<open>0 \<le> p < 100\<close>, \<open>getPercentile\<close> of the sorted latencies is one of them,
  fewer than or exactly \<open>p\<close> percent are smaller, and more than \<open>p\<close> percent are at most as large; the index it computes is
  always within the list, and a larger \<open>p\<close> never gives a smaller latency.
\<close>

theorem percentile_ranks:
  assumes "xs \<noteq> []" and "int (length xs) \<le> max_int64 div 100" and "0 \<le> p" and "p \<le> q" and "q < 100"
  shows "getPercentile (sort xs) p \<in> set xs \<and>
    100 * int (length (filter (\<lambda>x. x < getPercentile (sort xs) p) xs)) \<le> int (length xs) * p \<and>
    int (length xs) * p < 100 * int (length (filter (\<lambda>x. x \<le> getPercentile (sort xs) p) xs)) \<and>
    getPercentile (sort xs) p \<le> getPercentile (sort xs) q"
proof -
  have s: "sort xs \<noteq> []" "int (length (sort xs)) \<le> max_int64 div 100"
    using assms(1) by (metis set_empty set_sort) (use assms(2) in simp)
  have p: "p < 100" using assms by auto
  let ?i = "nat (int (length (sort xs)) * p div 100)"
  note i = percentile_index [OF s assms(3) p]
  have count: "length (filter P (sort xs)) = length (filter P xs)" for P
    by (simp add: filter_sort)
  note r = sorted_rank [OF sorted_sort i(1), unfolded count]
  have b: "100 * int ?i \<le> int (length xs) * p" "int (length xs) * p < 100 * (int ?i + 1)"
    using hundredths [of "int (length xs) * p"] assms(3) by simp_all
  have "100 * int (length (filter (\<lambda>x. x < sort xs ! ?i) xs)) \<le> int (length xs) * p"
    using r b(1) by linarith
  moreover have "int (length xs) * p < 100 * int (length (filter (\<lambda>x. x \<le> sort xs ! ?i) xs))"
    using r b(2) by (blast intro: above_hundredths)
  moreover note percentile_member [OF s assms(3) p] percentile_mono [OF s assms(3-5) sorted_sort]
  ultimately show ?thesis by (simp add: i(2))
qed

lemma report_of_drained:
  "bench_report totalRequests b totalDuration = calculateResults totalRequests ((bn_results b)\<lparr>ch_buf := []\<rparr>)
     (sort (filter (\<lambda>latency. 0 \<le> latency) (ch_buf (bn_results b)))) totalDuration"
  by (simp add: bench_report_def drain_def)

text \<open>C36: A benchmark in which every request succeeds reports that none did. \<open>runBenchmark\<close> empties the results channel
  before it hands it to \<open>calculateResults\<close>, which counts by reading the channel: at the end of any run with
  all answers successful there are as many latencies as requests, and the report says 0 successful and 0 failed requests, a
  success rate of 0, a minimum of one hour, and a maximum and an average of 0; only the percentiles are those
  of the latencies measured.
\<close>

theorem benchmark_reports_nothing:
  assumes "bench_start concurrency totalRequests = Some b0" and "(bench_step answer totalRequests)\<^sup>*\<^sup>* b0 b"
    and "bench_finished b" and "0 < concurrency" and "0 < totalRequests" and "totalRequests \<le> 2 ^ 53"
    and "\<And>j. 0 \<le> j \<Longrightarrow> j < totalRequests \<Longrightarrow> 0 \<le> answer j"
  shows "int (length (ch_buf (bn_results b))) = totalRequests \<and> list_all (\<lambda>latency. 0 \<le> latency) (ch_buf (bn_results b)) \<and>
    br_SuccessfulRequests (bench_report totalRequests b totalDuration) = 0 \<and>
    br_FailedRequests (bench_report totalRequests b totalDuration) = 0 \<and>
    br_SuccessRate (bench_report totalRequests b totalDuration) = Fin 0 \<and>
    br_MinLatency (bench_report totalRequests b totalDuration) = nano_hour \<and>
    br_MaxLatency (bench_report totalRequests b totalDuration) = 0 \<and>
    br_AvgLatency (bench_report totalRequests b totalDuration) = 0 \<and>
    br_P50Latency (bench_report totalRequests b totalDuration) = getPercentile (sort (ch_buf (bn_results b))) 50"
proof -
  obtain k where "(bench_step answer totalRequests ^^ k) b0 b" using assms(2) by (auto simp: rtranclp_power)
  then have "bench_ok answer totalRequests (nat concurrency) b"
    using bench_ok_run bench_ok_start [OF assms(1)] by blast
  then have m: "mset (ch_buf (bn_results b)) = image_mset answer (mset [0..totalRequests - 1])"
    using assms(3,4) by (auto intro: bench_finished_answers)
  have len: "int (length (ch_buf (bn_results b))) = totalRequests"
    using arg_cong [OF m, of size] assms(5) by simp
  have "set (ch_buf (bn_results b)) = answer ` {0..totalRequests - 1}"
    using arg_cong [OF m, of set_mset] by simp
  then have all: "list_all (\<lambda>latency. 0 \<le> latency) (ch_buf (bn_results b))" using assms(7) by (auto simp: list_all_iff)
  then have id: "filter (\<lambda>latency. 0 \<le> latency) (ch_buf (bn_results b)) = ch_buf (bn_results b)"
    by (auto simp: list_all_iff filter_id_conv)
  have zero: "f64_of_int 0 = Fin 0" using f64_of_int_exact [of 0] by simp
  have total: "f64_of_int totalRequests = Fin (of_int totalRequests)" using assms(5,6) by (intro f64_of_int_exact) auto
  show ?thesis
    using len all assms(5)
    by (auto simp: report_of_drained id calculateResults_def drain_def zero total f64_round_def round_rat_def getPercentile_def)
qed

section \<open>The identifiers given on the command line\<close>

text \<open>\<open>strings.TrimSpace\<close>, on ASCII text.\<close>

definition is_space :: "char \<Rightarrow> bool" where
  "is_space c \<longleftrightarrow> (of_char c :: nat) \<in> {9, 10, 11, 12, 13, 32}"

definition trim_space :: "string \<Rightarrow> string" where
  "trim_space s = rev (dropWhile is_space (rev (dropWhile is_space s)))"

definition parseWebhookIDs :: "string \<Rightarrow> string list" where
  "parseWebhookIDs webhookIDs =
    concat (map (\<lambda>id. if 0 < length id then [trim_space id] else []) (str_split (CHR '','') webhookIDs))"

lemma trim_space_id:
  assumes "s \<noteq> []" and "\<not> is_space (hd s)" and "\<not> is_space (last s)"
  shows "trim_space s = s"
proof -
  have "dropWhile is_space s = s" "dropWhile is_space (rev s) = rev s"
    using assms by (simp_all add: dropWhile_eq_self_iff hd_rev)
  then show ?thesis by (simp add: trim_space_def)
qed


text \<open>
  A list of clean identifiers comes back as it was given; \<open>main\<close> refuses the empty list, which only a text of
  commas gives: an identifier of blanks passes the test and is then trimmed to the empty text.
\<close>

lemma webhook_ids_round_trip:
  assumes "ids \<noteq> []"
    and "\<forall>id \<in> set ids. id \<noteq> [] \<and> CHR '','' \<notin> set id \<and> \<not> is_space (hd id) \<and> \<not> is_space (last id)"
  shows "parseWebhookIDs (str_join (CHR '','') ids) = ids"
proof -
  have s: "str_split (CHR '','') (str_join (CHR '','') ids) = ids" using assms by (intro str_split_join) auto
  have "concat (map (\<lambda>id. if 0 < length id then [trim_space id] else []) ids) = ids"
    using assms(2) by (induction ids) (auto simp: trim_space_id)
  then show ?thesis by (simp add: parseWebhookIDs_def s)
qed

lemma str_split_words_Nil: "(\<forall>w \<in> set (str_split sep s). w = []) \<longleftrightarrow> set s \<subseteq> {sep}"
proof (induction s)
  case (Cons c s)
  then show ?case by (cases "str_split sep s") (auto split: if_splits)
qed simp

lemma webhook_ids_none: "parseWebhookIDs s = [] \<longleftrightarrow> set s \<subseteq> {CHR '',''}"
  unfolding str_split_words_Nil [symmetric] by (auto simp: parseWebhookIDs_def)

lemma blank_webhook_id: "parseWebhookIDs '' '' = ['''']"
  by (simp add: parseWebhookIDs_def trim_space_def is_space_def)

section \<open>Delivery metrics\<close>

text \<open>
  A number of the metrics' JSON, read as a \<open>float64\<close>; \<open>None\<close> where the member is missing or not a number.
  \<open>oor\<close> is the conversion of a float outside the range of \<open>int64\<close>.
\<close>

definition metric_float :: "(string, json) gomap \<Rightarrow> string \<Rightarrow> float64 option" where
  "metric_float metrics k = (case map_of metrics k of Some (JNum q) \<Rightarrow> Some (f64_round q) | _ \<Rightarrow> None)"

definition milliseconds :: "(float64 \<Rightarrow> int) \<Rightarrow> float64 \<Rightarrow> duration" where
  "milliseconds oor f = wrap64 (f64_to_int64 oor f * 1000000)"

definition metric_latency :: "(float64 \<Rightarrow> int) \<Rightarrow> (string, json) gomap \<Rightarrow> string \<Rightarrow> duration \<Rightarrow> duration" where
  "metric_latency oor metrics k old = (case metric_float metrics k of Some f \<Rightarrow> milliseconds oor f | None \<Rightarrow> old)"

definition updateResultsWithDeliveryMetrics ::
  "(float64 \<Rightarrow> int) \<Rightarrow> benchmark_results \<Rightarrow> (string, json) gomap \<Rightarrow> benchmark_results" where
  "updateResultsWithDeliveryMetrics oor results metrics = results\<lparr>
     br_DeliverySuccessRate := (case metric_float metrics ''total_requests'' of
         Some totalReq \<Rightarrow> if Fin 0 < totalReq then (case metric_float metrics ''successful_requests'' of
             Some successReq \<Rightarrow> f64_mul (f64_div successReq totalReq) (Fin 100) | None \<Rightarrow> Fin 0) else Fin 0
       | None \<Rightarrow> Fin 0),
     br_End2EndMinLatency := metric_latency oor metrics ''min_latency_ms'' (br_End2EndMinLatency results),
     br_End2EndMaxLatency := metric_latency oor metrics ''max_latency_ms'' (br_End2EndMaxLatency results),
     br_End2EndAvgLatency := metric_latency oor metrics ''avg_latency_ms'' (br_End2EndAvgLatency results),
     br_End2EndP50Latency := metric_latency oor metrics ''p50_latency_ms'' (br_End2EndP50Latency results),
     br_End2EndP90Latency := (case metric_float metrics ''p90_latency_ms'' of
         Some f \<Rightarrow> milliseconds oor f
       | None \<Rightarrow> metric_latency oor metrics ''p95_latency_ms'' (br_End2EndP90Latency results)),
     br_End2EndP95Latency := metric_latency oor metrics ''p95_latency_ms'' (br_End2EndP95Latency results),
     br_End2EndP99Latency := metric_latency oor metrics ''p99_latency_ms'' (br_End2EndP99Latency results)\<rparr>"

text \<open>
  The three calls of the receiver. A response is its status code and its body, which is an error if it cannot be
  read, and else the value its text denotes, or the error of a text that denotes none.
\<close>

type_synonym http_response = "int \<times> json result result"

definition checkMockServerHealth :: "(string \<Rightarrow> http_response result) \<Rightarrow> string \<Rightarrow> goerr option" where
  "checkMockServerHealth get mockServerURL = (case get (mockServerURL @ ''/health'') of
     Inl e \<Rightarrow> Some e
   | Inr (status, body) \<Rightarrow>
       if status \<noteq> 200 then Some (Errorf (''mock server returned status '' @ show_int status)) else None)"

definition resetMockServerMetrics :: "(string \<Rightarrow> string \<Rightarrow> http_response result) \<Rightarrow> string \<Rightarrow> goerr option" where
  "resetMockServerMetrics post mockServerURL = (case post (mockServerURL @ ''/reset'') ''application/json'' of
     Inl e \<Rightarrow> Some e
   | Inr (status, body) \<Rightarrow>
       if status \<noteq> 200 then Some (Errorf (''mock server returned status '' @ show_int status @ '' for reset request''))
       else None)"

definition getMockServerMetrics :: "(string \<Rightarrow> http_response result) \<Rightarrow> string \<Rightarrow> (string, json) gomap option result" where
  "getMockServerMetrics get mockServerURL = (case get (mockServerURL @ ''/metrics'') of
     Inl e \<Rightarrow> Inl e
   | Inr (status, body) \<Rightarrow>
       if status \<noteq> 200 then Inl (Errorf (''mock server returned status '' @ show_int status @ '' for metrics request''))
       else case body of
         Inl e \<Rightarrow> Inl (Wrap ''error reading response body'' e)
       | Inr text \<Rightarrow> (case case_sum Inl (decode_map None) text of
           Inl e \<Rightarrow> Inl (Wrap ''error parsing metrics JSON'' e)
         | Inr metrics \<Rightarrow> Inr metrics))"

section \<open>The stress test\<close>

record stress_result =
  sr_Concurrency :: int
  sr_RequestsPerSecond :: float64
  sr_SuccessRate :: float64
  sr_AvgLatency :: duration
  sr_P95Latency :: duration

text \<open>The body of a stress worker's loop, and the test before it: \<open>None\<close> where the worker returns.\<close>

definition stress_answer :: "(int \<Rightarrow> job_env) \<Rightarrow> (int \<Rightarrow> instant) \<Rightarrow> instant \<Rightarrow> string list \<Rightarrow> string \<Rightarrow> int \<Rightarrow> int \<Rightarrow> duration option option" where
  "stress_answer envs clk endTime webhookIDs baseURL w jobID =
    (if endTime < clk jobID then None
     else Some (job_answer (envs jobID) webhookIDs baseURL (''stress-'' @ show_int w @ ''-'' @ show_int jobID)))"

definition stress_requests :: "(float64 \<Rightarrow> int) \<Rightarrow> int \<Rightarrow> duration \<Rightarrow> int" where
  "stress_requests oor concurrency stepDuration =
    (let estimatedRPS = f64_mul (f64_of_int concurrency) (Fin 10)
     in f64_to_int64 oor (f64_mul (f64_mul estimatedRPS (duration_seconds stepDuration)) (Fin 2)))"

text \<open>
  One level of the stress test; \<open>run concurrency totalRequests\<close> is what its workers did: the
  requests completed, the answers in the results channel, and the time taken. \<open>None\<close> is the panic of \<open>make\<close>.
\<close>

definition stress_level ::
  "(float64 \<Rightarrow> int) \<Rightarrow> duration \<Rightarrow> (int \<Rightarrow> int \<Rightarrow> int \<times> duration list \<times> duration) \<Rightarrow> int \<Rightarrow> stress_result option" where
  "stress_level oor stepDuration run concurrency =
    (let totalRequests = stress_requests oor concurrency stepDuration in
     if totalRequests < 0 then None
     else let (completedRequests, answers, actualDuration) = run concurrency totalRequests;
       latencies = sort (filter (\<lambda>latency. 0 \<le> latency) answers);
       successfulRequests = int (length latencies);
       totalLatency = fold (\<lambda>latency total. wrap64 (total + latency)) latencies 0
     in Some \<lparr>sr_Concurrency = concurrency,
       sr_RequestsPerSecond = f64_div (f64_of_int successfulRequests) (duration_seconds actualDuration),
       sr_SuccessRate = (if 0 < completedRequests
         then f64_mul (f64_div (f64_of_int successfulRequests) (f64_of_int completedRequests)) (Fin 100) else Fin 0),
       sr_AvgLatency = (if 0 < successfulRequests then go_div totalLatency successfulRequests else 0),
       sr_P95Latency = (if latencies \<noteq> [] then getPercentile latencies 95 else 0)\<rparr>)"

text \<open>
  The loop over the levels. The outer \<open>None\<close> is a loop that never ends, \<open>Some None\<close> a level that panics.
\<close>

partial_function (option) runStressTest ::
  "(int \<Rightarrow> stress_result option) \<Rightarrow> int \<Rightarrow> int \<Rightarrow> int \<Rightarrow> stress_result list option option" where
  "runStressTest level maxConcurrency step concurrency =
    (if maxConcurrency < concurrency then Some (Some [])
     else case level concurrency of
       None \<Rightarrow> Some None
     | Some r \<Rightarrow> Option.bind (runStressTest level maxConcurrency step (wrap64 (concurrency + step)))
         (\<lambda>rest. Some (map_option (\<lambda>rs. r # rs) rest)))"

text \<open>The levels a stress test visits.\<close>

definition stress_levels :: "int \<Rightarrow> int \<Rightarrow> int \<Rightarrow> int list" where
  "stress_levels maxConcurrency step start =
    map (\<lambda>k. start + int k * step) [0..<nat ((maxConcurrency - start) div step + 1)]"

lemma stress_levels_rec:
  assumes "0 < step"
  shows "stress_levels maxConcurrency step start =
    (if maxConcurrency < start then [] else start # stress_levels maxConcurrency step (start + step))"
proof (cases "maxConcurrency < start")
  case True
  then have "(maxConcurrency - start) div step < 0" using assms by (simp add: div_neg_pos_less0)
  with True show ?thesis by (simp add: stress_levels_def)
next
  case False
  then have p: "0 \<le> (maxConcurrency - start) div step" using assms by (simp add: pos_imp_zdiv_nonneg_iff)
  have "(maxConcurrency - (start + step)) div step = (maxConcurrency - start) div step - 1"
    using assms div_add_self2 [of step "maxConcurrency - (start + step)"] by simp
  then have n: "nat ((maxConcurrency - start) div step + 1) = Suc (nat ((maxConcurrency - (start + step)) div step + 1))"
    using p by simp
  show ?thesis
    using False unfolding stress_levels_def n upt_rec [of 0] map_Suc_upt [symmetric]
    by (simp add: algebra_simps)
qed


lemma stress_ascending:
  assumes "0 < step" and "maxConcurrency + step \<le> max_int64" and "min_int64 \<le> start"
    and "\<And>c. start \<le> c \<Longrightarrow> c \<le> maxConcurrency \<Longrightarrow> level c = Some (r c)"
  shows "runStressTest level maxConcurrency step start = Some (Some (map r (stress_levels maxConcurrency step start)))"
  using assms(3,4)
proof (induction "nat (maxConcurrency + 1 - start)" arbitrary: start rule: less_induct)
  case less
  show ?case
  proof (cases "maxConcurrency < start")
    case True
    then show ?thesis using assms(1) by (simp add: runStressTest.simps [of _ _ _ start] stress_levels_rec [of step _ start])
  next
    case False
    have w: "wrap64 (start + step) = start + step" using False less.prems(1) assms(1,2) by (intro wrap64_id) auto
    have "runStressTest level maxConcurrency step (start + step) =
      Some (Some (map r (stress_levels maxConcurrency step (start + step))))"
      using False less.prems assms(1) by (intro less.hyps) auto
    then show ?thesis
      using False less.prems(2) [of start] w assms(1)
      by (simp add: runStressTest.simps [of _ _ _ start] stress_levels_rec [of step _ start])
  qed
qed

definition stress_stays :: "(int \<Rightarrow> stress_result option) \<Rightarrow> int \<Rightarrow> int \<Rightarrow> int \<Rightarrow> bool" where
  "stress_stays level maxConcurrency step c \<longleftrightarrow>
    step = 0 \<and> min_int64 \<le> c \<and> c \<le> maxConcurrency \<and> maxConcurrency \<le> max_int64 \<and> level c \<noteq> None"

lemma stress_stays_diverges:
  assumes "runStressTest level maxConcurrency step c = Some y"
  shows "\<not> stress_stays level maxConcurrency step c"
proof (rule runStressTest.raw_induct [OF _ assms, where P = "\<lambda>l m s c y. \<not> stress_stays l m s c"])
  fix run level maxConcurrency step c y
  assume IH: "\<And>l m s c y. run l m s c = Some y \<Longrightarrow> \<not> stress_stays l m s c"
    and b: "(if maxConcurrency < c then Some (Some []) else case level c of None \<Rightarrow> Some None
      | Some r \<Rightarrow> Option.bind (run level maxConcurrency step (wrap64 (c + step)))
          (\<lambda>rest. Some (map_option ((#) r) rest))) = Some y"
  show "\<not> stress_stays level maxConcurrency step c"
  proof
    assume st: "stress_stays level maxConcurrency step c"
    then have "wrap64 (c + step) = c" by (simp add: stress_stays_def)
    then show False
      using b st IH [of level maxConcurrency step c]
      by (cases "run level maxConcurrency step c") (auto simp: stress_stays_def)
  qed
qed

text \<open>The stress test visits the levels from \<open>-stress-start\<close> to \<open>-stress-max\<close> in steps of \<open>-stress-step\<close> and then ends, and
  with a step of 0 it never does. \<open>None\<close> is the loop that never returns; for a positive step, with no overflow
  in sight and no level that panics, there is one result for each level, in order.
\<close>

theorem stress_test_ends:
  assumes "0 \<le> step" and "maxConcurrency + step \<le> max_int64" and "min_int64 \<le> start"
    and "\<And>c. start \<le> c \<Longrightarrow> c \<le> maxConcurrency \<Longrightarrow> level c = Some (r c)"
  shows "runStressTest level maxConcurrency step start =
    (if maxConcurrency < start then Some (Some []) else if step = 0 then None
     else Some (Some (map r (stress_levels maxConcurrency step start))))"
proof (cases "step = 0 \<and> start \<le> maxConcurrency")
  case True
  then have "runStressTest level maxConcurrency step start = None"
    using stress_stays_diverges [of level maxConcurrency step start] assms(2,3) assms(4) [of start]
    by (cases "runStressTest level maxConcurrency step start") (auto simp: stress_stays_def)
  with True show ?thesis by simp
next
  case False
  show ?thesis
  proof (cases "step = 0")
    case True
    with False show ?thesis by (simp add: runStressTest.simps [of _ _ _ start])
  next
    case False
    then have "0 < step" using assms(1) by simp
    from stress_ascending [where r = r, OF this assms(2-4)] False show ?thesis
      using stress_levels_rec [OF \<open>0 < step\<close>, of maxConcurrency start] by simp
  qed
qed


section \<open>Concrete runs\<close>

lemma benchmark_run_of_one:
  "\<exists>b0 b. bench_start 1 1 = Some b0 \<and> (bench_step (\<lambda>j. 5) 1 ^^ 5) b0 b \<and> bench_finished b \<and> ch_buf (bn_results b) = [5]"
proof -
  let ?b = "\<lambda>n closed jobs results busy idle d. \<lparr>bn_next = n, bn_closed = closed, bn_jobs = \<lparr>ch_cap = 1, ch_buf = jobs\<rparr>,
    bn_results = \<lparr>ch_cap = 1, ch_buf = results\<rparr>, bn_busy = busy, bn_idle = idle, bn_done = d\<rparr>"
  note c = chan_room_def chan_len_def chan_send_def chan_recv_def
  have s: "bench_start 1 1 = Some (?b 0 False [] [] [] 1 0)" by (simp add: bench_start_def make_chan_def)
  have 1: "bench_step (\<lambda>j. 5) 1 (?b 0 False [] [] [] 1 0) (?b 1 False [0] [] [] 1 0)"
    using produce [of "?b 0 False [] [] [] 1 0" 1 "\<lambda>j. 5"] by (simp add: c)
  have 2: "bench_step (\<lambda>j. 5) 1 (?b 1 False [0] [] [] 1 0) (?b 1 False [] [] [0] 0 0)"
    using take_job [of "?b 1 False [0] [] [] 1 0" 0 "\<lparr>ch_cap = 1, ch_buf = []\<rparr>" "\<lambda>j. 5" 1] by (simp add: c)
  have 3: "bench_step (\<lambda>j. 5) 1 (?b 1 False [] [] [0] 0 0) (?b 1 True [] [] [0] 0 0)"
    using close_jobs [of 1 "?b 1 False [] [] [0] 0 0" "\<lambda>j. 5"] by simp
  have 4: "bench_step (\<lambda>j. 5) 1 (?b 1 True [] [] [0] 0 0) (?b 1 True [] [5] [] 1 0)"
    using send_result [of 0 "?b 1 True [] [] [0] 0 0" "\<lambda>j. 5" 1] by (simp add: c)
  have 5: "bench_step (\<lambda>j. 5) 1 (?b 1 True [] [5] [] 1 0) (?b 1 True [] [5] [] 0 1)"
    using leave [of "?b 1 True [] [5] [] 1 0" "\<lambda>j. 5" 1] by (simp add: c)
  have "(bench_step (\<lambda>j. 5) 1 ^^ 5) (?b 0 False [] [] [] 1 0) (?b 1 True [] [5] [] 0 1)"
    using 1 2 3 4 5 by (auto simp: eval_nat_numeral relcompp.simps)
  then show ?thesis using s by (auto simp: bench_finished_def)
qed

lemma benchmark_completes_witness:
  "\<exists>b0 b. bench_start 1 1 = Some b0 \<and> (bench_step (\<lambda>j. 5) 1 ^^ 5) b0 b \<and> mset (ch_buf (bn_results b)) = {#5#}"
proof -
  obtain b0 b where "bench_start 1 1 = Some b0" "(bench_step (\<lambda>j. 5) 1 ^^ 5) b0 b" "bench_finished b"
    using benchmark_run_of_one by blast
  then show ?thesis using benchmark_completes [where concurrency = 1 and totalRequests = 1 and k = 5 and answer = "\<lambda>j. 5"] by fastforce
qed

lemma percentile_ranks_witness: "getPercentile (sort [30, 10, 20]) 50 \<le> getPercentile (sort [30, 10, 20]) 90"
  using percentile_ranks [of "[30, 10, 20]" 50 90] by (simp add: max_int64_def)

lemma benchmark_reports_nothing_witness:
  "\<exists>b. ch_buf (bn_results b) = [5] \<and> br_SuccessfulRequests (bench_report 1 b 10) = 0"
proof -
  obtain b0 b where b: "bench_start 1 1 = Some b0" "(bench_step (\<lambda>j. 5) 1 ^^ 5) b0 b" "bench_finished b"
    "ch_buf (bn_results b) = [5]"
    using benchmark_run_of_one by blast
  have "(bench_step (\<lambda>j. 5) 1)\<^sup>*\<^sup>* b0 b" using b(2) by (rule relpowp_imp_rtranclp)
  then show ?thesis using benchmark_reports_nothing [where totalDuration = 10, OF b(1) _ b(3)] b by auto
qed

lemma stress_test_ends_witness:
  "runStressTest (\<lambda>c. Some \<lparr>sr_Concurrency = c, sr_RequestsPerSecond = Fin 0, sr_SuccessRate = Fin 0,
     sr_AvgLatency = 0, sr_P95Latency = 0\<rparr>) 25 10 10 \<noteq> None \<and> stress_levels 25 10 10 = [10, 20]"
  using stress_test_ends [of 10 25 10 "\<lambda>c. Some \<lparr>sr_Concurrency = c, sr_RequestsPerSecond = Fin 0, sr_SuccessRate = Fin 0,
     sr_AvgLatency = 0, sr_P95Latency = 0\<rparr>" "\<lambda>c. \<lparr>sr_Concurrency = c, sr_RequestsPerSecond = Fin 0, sr_SuccessRate = Fin 0,
     sr_AvgLatency = 0, sr_P95Latency = 0\<rparr>"]
  by (simp add: max_int64_def min_int64_def stress_levels_def upt_rec)

end
