(* ===== verification/Mock_Server.thy ===== *)
theory Mock_Server
  imports Benchmark
begin

text \<open>
  \<open>cmd/mockserver/main.go\<close>, the receiver benchmarks deliver to: the metrics it collects, the handling of a
  delivery in the pieces between its locks, the report, and what the benchmark client reads from
  that report.
\<close>

section \<open>The collector\<close>

record collector =
  mc_totalRequests :: int
  mc_totalLatency :: duration
  mc_minLatency :: duration
  mc_maxLatency :: duration
  mc_successfulRequests :: int
  mc_failedRequests :: int
  mc_requestTimes :: "instant list"
  mc_processingTimes :: "duration list"
  mc_startTime :: instant
  mc_deliveryTimestamps :: "(string, instant) gomap"
  mc_mockFailureRate :: float64
  mc_mockResponseDelayMin :: duration
  mc_mockResponseDelayMax :: duration
  mc_responsesSizeHistogram :: "(int, int) gomap"
  mc_responseCodeCounts :: "(int, int) gomap"

definition NewMetricsCollector :: "instant \<Rightarrow> float64 \<Rightarrow> duration \<Rightarrow> duration \<Rightarrow> collector" where
  "NewMetricsCollector now mockFailureRate delayMin delayMax =
    \<lparr>mc_totalRequests = 0, mc_totalLatency = 0, mc_minLatency = nano_hour, mc_maxLatency = 0,
     mc_successfulRequests = 0, mc_failedRequests = 0, mc_requestTimes = [], mc_processingTimes = [],
     mc_startTime = now, mc_deliveryTimestamps = [], mc_mockFailureRate = mockFailureRate,
     mc_mockResponseDelayMin = delayMin, mc_mockResponseDelayMax = delayMax,
     mc_responsesSizeHistogram = [], mc_responseCodeCounts = []\<rparr>"

text \<open>\<open>m[k]++\<close> on a map of counters.\<close>

definition count_up :: "int \<Rightarrow> (int, int) gomap \<Rightarrow> (int, int) gomap" where
  "count_up k m = AList.update k (wrap64 (case map_of m k of None \<Rightarrow> 1 | Some n \<Rightarrow> n + 1)) m"

definition counted :: "int \<Rightarrow> (int, int) gomap \<Rightarrow> int" where
  "counted k m = (case map_of m k of None \<Rightarrow> 0 | Some n \<Rightarrow> n)"

lemma counted_count_up: "counted j (count_up k m) = (if j = k then wrap64 (counted k m + 1) else counted j m)"
  by (auto simp: counted_def count_up_def split: option.splits)

section \<open>A delivery\<close>

text \<open>
  The request and the draws of one call of \<open>RecordWebhookDelivery\<close>: when it arrives, its decoded body (\<open>Inl\<close> where the
  body is no JSON object), the length of the body marshalled again, the clock at the delivery and for \<open>time.Since\<close>,
  \<open>time.Now().UnixNano()\<close>, the two draws of \<open>rand.Float64\<close>, and the text of a string that is in RFC 3339 form.
\<close>

record delivery_env =
  dv_arrival :: instant
  dv_payload :: "(string, json) gomap result"
  dv_size :: int
  dv_delivered :: instant
  dv_since :: instant
  dv_nanos :: int
  dv_delayDraw :: float64
  dv_failDraw :: float64

definition record_request :: "collector \<Rightarrow> collector" where
  "record_request m = m\<lparr>mc_totalRequests := wrap64 (mc_totalRequests m + 1)\<rparr>"

definition record_arrival :: "delivery_env \<Rightarrow> collector \<Rightarrow> collector" where
  "record_arrival env m = m\<lparr>mc_requestTimes := mc_requestTimes m @ [dv_arrival env]\<rparr>"

definition record_failure :: "collector \<Rightarrow> collector" where
  "record_failure m = m\<lparr>mc_failedRequests := wrap64 (mc_failedRequests m + 1)\<rparr>"

definition record_code :: "int \<Rightarrow> collector \<Rightarrow> collector" where
  "record_code status m = m\<lparr>mc_responseCodeCounts := count_up status (mc_responseCodeCounts m)\<rparr>"

definition record_size :: "int \<Rightarrow> collector \<Rightarrow> collector" where
  "record_size payloadSize m = m\<lparr>mc_responsesSizeHistogram :=
     count_up (go_div payloadSize 1024 * 1024) (mc_responsesSizeHistogram m)\<rparr>"

definition payload_event_id :: "delivery_env \<Rightarrow> (string, json) gomap \<Rightarrow> string" where
  "payload_event_id env payload = (case map_of payload ''id'' of
     Some (JStr s) \<Rightarrow> s | Some (JTime s t) \<Rightarrow> s | _ \<Rightarrow> ''unknown-'' @ show_int (dv_nanos env))"

definition response_delay :: "(float64 \<Rightarrow> int) \<Rightarrow> collector \<Rightarrow> float64 \<Rightarrow> duration" where
  "response_delay oor m draw =
    (if mc_mockResponseDelayMin m < mc_mockResponseDelayMax m
     then wrap64 (mc_mockResponseDelayMin m + f64_to_int64 oor
       (f64_mul (f64_of_int (wrap64 (mc_mockResponseDelayMax m - mc_mockResponseDelayMin m))) draw))
     else mc_mockResponseDelayMin m)"

definition simulated_failure :: "collector \<Rightarrow> float64 \<Rightarrow> bool" where
  "simulated_failure m draw \<longleftrightarrow> f64_mul draw (Fin 100) < mc_mockFailureRate m"

definition record_delivery :: "string \<Rightarrow> instant \<Rightarrow> collector \<Rightarrow> collector" where
  "record_delivery eventID now m = m\<lparr>mc_deliveryTimestamps := AList.update eventID now (mc_deliveryTimestamps m),
     mc_responseCodeCounts := count_up 200 (mc_responseCodeCounts m)\<rparr>"

definition record_latency :: "duration \<Rightarrow> collector \<Rightarrow> collector" where
  "record_latency processingTime m = m\<lparr>mc_processingTimes := mc_processingTimes m @ [processingTime],
     mc_totalLatency := wrap64 (mc_totalLatency m + processingTime),
     mc_minLatency := (if processingTime < mc_minLatency m then processingTime else mc_minLatency m),
     mc_maxLatency := (if mc_maxLatency m < processingTime then processingTime else mc_maxLatency m)\<rparr>"

text \<open>\<open>payload["event_time"]\<close> as an instant: a string in RFC 3339 form.\<close>

definition payload_event_time :: "(string, json) gomap \<Rightarrow> instant option" where
  "payload_event_time payload = (case map_of payload ''event_time'' of Some (JTime s t) \<Rightarrow> Some t | _ \<Rightarrow> None)"

definition record_success :: "collector \<Rightarrow> collector" where
  "record_success m = m\<lparr>mc_successfulRequests := wrap64 (mc_successfulRequests m + 1)\<rparr>"

definition RecordWebhookDelivery :: "(float64 \<Rightarrow> int) \<Rightarrow> delivery_env \<Rightarrow> collector \<Rightarrow> int \<times> collector" where
  "RecordWebhookDelivery oor env m =
    (let m = record_arrival env (record_request m) in
     case dv_payload env of
       Inl e \<Rightarrow> (400, record_code 400 (record_failure m))
     | Inr payload \<Rightarrow>
         let m = record_size (dv_size env) m in
         if simulated_failure m (dv_failDraw env) then (500, record_code 500 (record_failure m))
         else let m = record_delivery (payload_event_id env payload) (dv_delivered env) m;
           m = (case payload_event_time payload of
             None \<Rightarrow> m | Some t \<Rightarrow> record_latency (time_sub (dv_since env) t) m)
         in (200, record_success m))"


section \<open>Deliveries side by side\<close>

text \<open>
  Where a call of \<open>RecordWebhookDelivery\<close> stands, and its next action between two locks. Requests are handled side by
  side, so the actions of different calls interleave.
\<close>

datatype stage = Fresh | Counted | Arrived | Sized | Failing int | Answered | Measured

fun delivery_action :: "delivery_env \<Rightarrow> stage \<Rightarrow> collector \<Rightarrow> stage option \<times> collector" where
  "delivery_action env Fresh m = (Some Counted, record_request m)"
| "delivery_action env Counted m = (Some Arrived, record_arrival env m)"
| "delivery_action env Arrived m = (case dv_payload env of
     Inl e \<Rightarrow> (Some (Failing 400), record_failure m)
   | Inr payload \<Rightarrow> (Some Sized, record_size (dv_size env) m))"
| "delivery_action env Sized m = (if simulated_failure m (dv_failDraw env) then (Some (Failing 500), record_failure m)
     else (Some Answered, record_delivery
       (payload_event_id env (case_sum (\<lambda>e. []) id (dv_payload env))) (dv_delivered env) m))"
| "delivery_action env (Failing status) m = (None, record_code status m)"
| "delivery_action env Answered m = (Some Measured,
     case payload_event_time (case_sum (\<lambda>e. []) id (dv_payload env)) of
       None \<Rightarrow> m | Some t \<Rightarrow> record_latency (time_sub (dv_since env) t) m)"
| "delivery_action env Measured m = (None, record_success m)"

inductive mock_step :: "collector \<times> (delivery_env \<times> stage) list \<Rightarrow> collector \<times> (delivery_env \<times> stage) list \<Rightarrow> bool" where
  request: "mock_step (m, rs) (m, (env, Fresh) # rs)"
| proceed: "delivery_action env st m = (Some st', m') \<Longrightarrow>
    mock_step (m, rs @ (env, st) # rs') (m', rs @ (env, st') # rs')"
| respond: "delivery_action env st m = (None, m') \<Longrightarrow> mock_step (m, rs @ (env, st) # rs') (m', rs @ rs')"

text \<open>Alone, the actions of a call compose to the whole handler.\<close>

fun delivery_actions :: "nat \<Rightarrow> delivery_env \<Rightarrow> stage option \<times> collector \<Rightarrow> stage option \<times> collector" where
  "delivery_actions 0 env s = s"
| "delivery_actions (Suc n) env (None, m) = (None, m)"
| "delivery_actions (Suc n) env (Some st, m) = delivery_actions n env (delivery_action env st m)"

lemma delivery_actions_compose:
  "delivery_actions 6 env (Some Fresh, m) = (None, snd (RecordWebhookDelivery oor env m))"
  by (auto simp: RecordWebhookDelivery_def Let_def eval_nat_numeral split: sum.splits option.splits)

text \<open>What each request in flight has added to the counters and not yet balanced.\<close>

fun open_requests :: "stage \<Rightarrow> int" where
  "open_requests Fresh = 0"
| "open_requests (Failing status) = 0"
| "open_requests _ = 1"

fun open_answers :: "stage \<Rightarrow> int" where
  "open_answers Answered = 1"
| "open_answers Measured = 1"
| "open_answers _ = 0"

fun open_failures :: "stage \<Rightarrow> int" where
  "open_failures (Failing status) = 1"
| "open_failures _ = 0"

definition in_flight :: "(stage \<Rightarrow> int) \<Rightarrow> (delivery_env \<times> stage) list \<Rightarrow> int" where
  "in_flight w rs = sum_list (map (\<lambda>(env, st). w st) rs)"

definition int64_range :: "int \<Rightarrow> bool" where
  "int64_range x \<longleftrightarrow> min_int64 \<le> x \<and> x \<le> max_int64"

definition latencies_ok :: "collector \<Rightarrow> bool" where
  "latencies_ok m \<longleftrightarrow> list_all int64_range (mc_processingTimes m) \<and>
    mc_totalLatency m = wrap64 (sum_list (mc_processingTimes m)) \<and>
    mc_minLatency m = fold min (mc_processingTimes m) nano_hour \<and>
    mc_maxLatency m = fold max (mc_processingTimes m) 0"

definition mock_ok :: "collector \<times> (delivery_env \<times> stage) list \<Rightarrow> bool" where
  "mock_ok s \<longleftrightarrow> (case s of (m, rs) \<Rightarrow>
    mc_totalRequests m = wrap64 (mc_successfulRequests m + mc_failedRequests m + in_flight open_requests rs) \<and>
    counted 200 (mc_responseCodeCounts m) = wrap64 (mc_successfulRequests m + in_flight open_answers rs) \<and>
    mc_failedRequests m = wrap64 (counted 400 (mc_responseCodeCounts m) + counted 500 (mc_responseCodeCounts m) +
      in_flight open_failures rs) \<and>
    (\<forall>(env, st) \<in> set rs. \<forall>status. st = Failing status \<longrightarrow> status = 400 \<or> status = 500) \<and>
    latencies_ok m)"

lemma wrap64_add_left [simp]: "wrap64 (wrap64 a + b) = wrap64 (a + b)"
  by (simp add: wrap64_def algebra_simps mod_add_right_eq mod_diff_left_eq mod_diff_right_eq)

lemma wrap64_add_right [simp]: "wrap64 (a + wrap64 b) = wrap64 (a + b)"
  by (metis add.commute wrap64_add_left)


lemma wrap64_add3 [simp]:
  "wrap64 (wrap64 a + b + c) = wrap64 (a + b + c)" "wrap64 (a + wrap64 b + c) = wrap64 (a + b + c)"
  using wrap64_add_left [of a "b + c"] wrap64_add_left [of b "a + c"] by (simp_all add: ac_simps)

lemma wrap64_wrap64 [simp]: "wrap64 (wrap64 a) = wrap64 a"
  using wrap64_add_left [of a 0] by simp

lemma in_flight_simps [simp]:
  "in_flight w [] = 0" "in_flight w ((env, st) # rs) = w st + in_flight w rs"
  "in_flight w (rs @ rs') = in_flight w rs + in_flight w rs'"
  by (simp_all add: in_flight_def)

lemma latencies_record:
  "latencies_ok m \<Longrightarrow> int64_range d \<Longrightarrow> latencies_ok (record_latency d m)"
  by (simp add: latencies_ok_def record_latency_def min_def max_def)

lemma latencies_frame [simp]:
  "latencies_ok (m\<lparr>mc_totalRequests := n\<rparr>) = latencies_ok m" "latencies_ok (m\<lparr>mc_requestTimes := ts\<rparr>) = latencies_ok m"
  "latencies_ok (m\<lparr>mc_failedRequests := n\<rparr>) = latencies_ok m" "latencies_ok (m\<lparr>mc_successfulRequests := n\<rparr>) = latencies_ok m"
  "latencies_ok (m\<lparr>mc_responseCodeCounts := c\<rparr>) = latencies_ok m"
  "latencies_ok (m\<lparr>mc_responsesSizeHistogram := c\<rparr>) = latencies_ok m"
  "latencies_ok (m\<lparr>mc_deliveryTimestamps := t\<rparr>) = latencies_ok m"
  by (simp_all add: latencies_ok_def)

lemma record_latency_frame [simp]:
  "mc_totalRequests (record_latency d m) = mc_totalRequests m" "mc_failedRequests (record_latency d m) = mc_failedRequests m"
  "mc_successfulRequests (record_latency d m) = mc_successfulRequests m"
  "mc_responseCodeCounts (record_latency d m) = mc_responseCodeCounts m"
  by (simp_all add: record_latency_def)

lemmas counter_defs = record_request_def record_arrival_def record_failure_def record_code_def record_size_def
  record_delivery_def record_success_def counted_count_up

lemma mock_ok_new: "mock_ok (NewMetricsCollector now rate delayMin delayMax, [])"
  by (simp add: mock_ok_def NewMetricsCollector_def latencies_ok_def counted_def wrap64_def)

lemma time_sub_range: "int64_range (time_sub t u)"
  by (simp add: int64_range_def time_sub_bounds)

lemma mock_ok_proceed:
  assumes "mock_ok (m, rs @ (env, st) # rs')" and "delivery_action env st m = (Some st', m')"
  shows "mock_ok (m', rs @ (env, st') # rs')"
  using assms
  by (cases st)
    (auto simp: mock_ok_def latencies_record time_sub_range counter_defs
      split: sum.splits if_splits option.splits, auto simp: algebra_simps)

lemma mock_ok_respond:
  assumes "mock_ok (m, rs @ (env, st) # rs')" and "delivery_action env st m = (None, m')"
  shows "mock_ok (m', rs @ rs')"
  using assms
  by (cases st)
    (auto simp: mock_ok_def counter_defs
      split: sum.splits if_splits option.splits, auto simp: algebra_simps)


lemma mock_ok_step: "mock_step s s' \<Longrightarrow> mock_ok s \<Longrightarrow> mock_ok s'"
proof (induction rule: mock_step.induct)
  case (request m rs env)
  then show ?case by (simp add: mock_ok_def)
qed (auto intro: mock_ok_proceed mock_ok_respond)

lemma mock_ok_run: "mock_step\<^sup>*\<^sup>* s s' \<Longrightarrow> mock_ok s \<Longrightarrow> mock_ok s'"
  by (induction rule: rtranclp_induct) (auto intro: mock_ok_step)

section \<open>The report\<close>

datatype metric = MInt int | MFloat float64 | MCounts "(int, int) gomap" | MHistogram "(string, int) gomap"

definition duration_ms :: "duration \<Rightarrow> int" where
  "duration_ms d = go_div d 1000000"

text \<open>\<open>sortedTimes[len(sortedTimes)*p/100]\<close>; an index out of range is a panic.\<close>

definition time_percentile :: "duration list \<Rightarrow> int \<Rightarrow> duration option" where
  "time_percentile sortedTimes p = (let i = go_div (wrap64 (int (length sortedTimes) * p)) 100 in
     if 0 \<le> i \<and> i < int (length sortedTimes) then Some (sortedTimes ! nat i) else None)"

definition metric_percentiles :: "duration list \<Rightarrow> (duration \<times> duration \<times> duration) option" where
  "metric_percentiles ts =
    (if ts = [] then Some (0, 0, 0)
     else let sortedTimes = sort ts in
       case (time_percentile sortedTimes 50, time_percentile sortedTimes 95, time_percentile sortedTimes 99) of
         (Some p50, Some p95, Some p99) \<Rightarrow> Some (p50, p95, p99) | _ \<Rightarrow> None)"

definition size_histogram :: "(int, int) gomap \<Rightarrow> (string, int) gomap" where
  "size_histogram m = fold (\<lambda>(size, count). AList.update
     (show_int (go_div size 1024) @ ''KB-'' @ show_int (go_div size 1024 + 1) @ ''KB'') count) m []"

text \<open>\<open>now\<close> and \<open>now'\<close> are the clock readings for the throughput and the uptime.\<close>

definition GetMetrics :: "instant \<Rightarrow> instant \<Rightarrow> collector \<Rightarrow> (string, metric) gomap option" where
  "GetMetrics now now' m =
    (let n = int (length (mc_processingTimes m));
       avgLatency = (if 0 < n then go_div (mc_totalLatency m) n else 0);
       elapsed = duration_seconds (time_sub now (mc_startTime m));
       requestsPerSecond = (if Fin 0 < elapsed then f64_div (f64_of_int (mc_totalRequests m)) elapsed else Fin 0)
     in map_option (\<lambda>(p50, p95, p99).
       [(''total_requests'', MInt (mc_totalRequests m)), (''successful_requests'', MInt (mc_successfulRequests m)),
        (''failed_requests'', MInt (mc_failedRequests m)), (''requests_per_second'', MFloat requestsPerSecond),
        (''min_latency_ms'', MFloat (f64_of_int (duration_ms (mc_minLatency m)))),
        (''max_latency_ms'', MFloat (f64_of_int (duration_ms (mc_maxLatency m)))),
        (''avg_latency_ms'', MFloat (f64_of_int (duration_ms avgLatency))),
        (''p50_latency_ms'', MFloat (f64_of_int (duration_ms p50))),
        (''p95_latency_ms'', MFloat (f64_of_int (duration_ms p95))),
        (''p99_latency_ms'', MFloat (f64_of_int (duration_ms p99))),
        (''uptime_seconds'', MFloat (duration_seconds (time_sub now' (mc_startTime m)))),
        (''response_codes'', MCounts (mc_responseCodeCounts m)),
        (''response_size_histogram'', MHistogram (size_histogram (mc_responsesSizeHistogram m)))])
       (metric_percentiles (mc_processingTimes m)))"

text \<open>The encoder refuses a float that is not finite; the order of an object's members does not matter here.\<close>

fun encode_metric :: "metric \<Rightarrow> json result" where
  "encode_metric (MInt i) = Inr (JNum (of_int i))"
| "encode_metric (MFloat (Fin x)) = Inr (JNum x)"
| "encode_metric (MFloat _) = Inl (Errorf ''json: unsupported value'')"
| "encode_metric (MCounts m) = Inr (JObj (map (\<lambda>(k, v). (show_int k, JNum (of_int v))) m))"
| "encode_metric (MHistogram m) = Inr (JObj (map (\<lambda>(k, v). (k, JNum (of_int v))) m))"

fun encode_metrics :: "(string, metric) gomap \<Rightarrow> (string \<times> json) list result" where
  "encode_metrics [] = Inr []"
| "encode_metrics ((k, v) # ms) = (case encode_metric v of
     Inl e \<Rightarrow> Inl e
   | Inr j \<Rightarrow> map_sum id (\<lambda>js. (k, j) # js) (encode_metrics ms))"

definition ResetMetrics :: "instant \<Rightarrow> collector \<Rightarrow> collector" where
  "ResetMetrics now m = m\<lparr>mc_totalRequests := 0, mc_successfulRequests := 0, mc_failedRequests := 0,
     mc_totalLatency := 0, mc_minLatency := nano_hour, mc_maxLatency := 0, mc_requestTimes := [],
     mc_processingTimes := [], mc_startTime := now, mc_deliveryTimestamps := [],
     mc_responsesSizeHistogram := [], mc_responseCodeCounts := []\<rparr>"

lemma reset_is_new:
  "ResetMetrics now m = NewMetricsCollector now (mc_mockFailureRate m) (mc_mockResponseDelayMin m) (mc_mockResponseDelayMax m)"
  by (simp add: ResetMetrics_def NewMetricsCollector_def)

text \<open>A request in flight across a reset is counted as a success of no request.\<close>

lemma reset_mid_flight:
  "mc_totalRequests (snd (delivery_action env Measured (ResetMetrics now m))) = 0"
  "mc_successfulRequests (snd (delivery_action env Measured (ResetMetrics now m))) = 1"
  by (simp_all add: ResetMetrics_def record_success_def wrap64_def)


section \<open>What the report says\<close>

lemma time_percentile_ok:
  assumes "xs \<noteq> []" and "int (length xs) \<le> max_int64 div 100" and "0 \<le> p" and "p < 100"
  shows "time_percentile xs p = Some (getPercentile xs p)"
proof -
  let ?n = "int (length xs)"
  note i = percentile_index [OF assms]
  have b: "0 \<le> ?n * p" "?n * p \<le> ?n * 99" using assms(3,4) by (auto intro!: mult_left_mono)
  then have w: "wrap64 (?n * p) = ?n * p" using assms(2) by (intro wrap64_id) (auto simp: min_int64_def max_int64_def)
  have "0 \<le> ?n * p div 100" using b(1) by simp
  then have "?n * p div 100 < ?n" using i(1) by (simp add: nat_less_iff)
  then show ?thesis using b(1) w i(2) by (simp add: time_percentile_def Let_def)
qed

lemma metric_percentiles_ok:
  assumes "int (length ts) \<le> max_int64 div 100"
  shows "metric_percentiles ts = Some
    (if ts = [] then (0, 0, 0) else (getPercentile (sort ts) 50, getPercentile (sort ts) 95, getPercentile (sort ts) 99))"
proof (cases "ts = []")
  case False
  then have "sort ts \<noteq> []" by (metis set_empty set_sort)
  with False assms show ?thesis by (simp add: metric_percentiles_def time_percentile_ok Let_def)
qed (simp add: metric_percentiles_def)

lemma fold_min_le: "fold min xs h \<le> (h::int) \<and> (\<forall>x \<in> set xs. fold min xs h \<le> x)"
proof (induction xs arbitrary: h)
  case (Cons a xs)
  show ?case using Cons [of "min a h"] by (auto simp: min_def split: if_splits)
qed simp

lemma fold_max_ge: "(h::int) \<le> fold max xs h \<and> (\<forall>x \<in> set xs. x \<le> fold max xs h)"
proof (induction xs arbitrary: h)
  case (Cons a xs)
  show ?case using Cons [of "max a h"] by (auto simp: max_def split: if_splits)
qed simp

lemma percentiles_between:
  assumes "latencies_ok m" and "mc_processingTimes m \<noteq> []" and "int (length (mc_processingTimes m)) \<le> max_int64 div 100"
  shows "mc_minLatency m \<le> getPercentile (sort (mc_processingTimes m)) 50"
    and "getPercentile (sort (mc_processingTimes m)) 50 \<le> getPercentile (sort (mc_processingTimes m)) 95"
    and "getPercentile (sort (mc_processingTimes m)) 95 \<le> getPercentile (sort (mc_processingTimes m)) 99"
    and "getPercentile (sort (mc_processingTimes m)) 99 \<le> mc_maxLatency m"
proof -
  let ?xs = "sort (mc_processingTimes m)"
  have s: "?xs \<noteq> []" "int (length ?xs) \<le> max_int64 div 100"
    using assms(2) by (metis set_empty set_sort) (use assms(3) in simp)
  show "mc_minLatency m \<le> getPercentile ?xs 50"
    using percentile_member [OF s, of 50] assms(1) by (auto simp: latencies_ok_def fold_min_le)
  show "getPercentile ?xs 99 \<le> mc_maxLatency m"
    using percentile_member [OF s, of 99] assms(1) by (auto simp: latencies_ok_def fold_max_ge)
  show "getPercentile ?xs 50 \<le> getPercentile ?xs 95" "getPercentile ?xs 95 \<le> getPercentile ?xs 99"
    by (auto intro!: percentile_mono s)
qed

text \<open>C39: The receiver's counters agree with each other. However its deliveries interleave, once none is in flight every
  request has been counted as a success or as a failure, the successes are the answers with code 200, the
  failures those with code 400 or 500 (all modulo \<open>2 ^ 64\<close>), and the report can be made, without a
  panic: its percentiles lie in order between the minimum and the maximum.
\<close>

theorem mock_counts_agree:
  assumes "mock_step\<^sup>*\<^sup>* (NewMetricsCollector start rate delayMin delayMax, []) (m, [])"
    and "int (length (mc_processingTimes m)) \<le> max_int64 div 100"
  shows "mc_totalRequests m = wrap64 (mc_successfulRequests m + mc_failedRequests m) \<and>
    counted 200 (mc_responseCodeCounts m) = wrap64 (mc_successfulRequests m) \<and>
    mc_failedRequests m = wrap64 (counted 400 (mc_responseCodeCounts m) + counted 500 (mc_responseCodeCounts m)) \<and>
    (\<exists>p50 p95 p99. metric_percentiles (mc_processingTimes m) = Some (p50, p95, p99) \<and>
      (mc_processingTimes m \<noteq> [] \<longrightarrow> mc_minLatency m \<le> p50 \<and> p50 \<le> p95 \<and> p95 \<le> p99 \<and> p99 \<le> mc_maxLatency m))"
proof -
  have ok: "mock_ok (m, [])" by (rule mock_ok_run [OF assms(1) mock_ok_new])
  then have "latencies_ok m" by (simp add: mock_ok_def)
  note between = percentiles_between [OF this _ assms(2)]
  show ?thesis using ok between by (auto simp: mock_ok_def metric_percentiles_ok [OF assms(2)])
qed

text \<open>What \<open>Milliseconds\<close> keeps of a latency: it is truncated to whole milliseconds.\<close>

definition whole_ms :: "duration \<Rightarrow> duration" where
  "whole_ms d = duration_ms d * 1000000"

lemma go_div_range:
  assumes "int64_range d" and "0 < n"
  shows "int64_range (go_div d n)" "\<bar>go_div d n\<bar> = \<bar>d\<bar> div n"
proof -
  show e: "\<bar>go_div d n\<bar> = \<bar>d\<bar> div n" using assms(2) by (auto simp: go_div_def abs_mult sgn_if pos_imp_zdiv_nonneg_iff)
  have "\<bar>d\<bar> div n \<le> \<bar>d\<bar>" using assms(2) zdiv_mono2 [of "\<bar>d\<bar>" 1 n] by simp
  moreover have "if 0 \<le> d then 0 \<le> go_div d n else go_div d n \<le> 0"
    using assms(2) by (auto simp: go_div_def sgn_if pos_imp_zdiv_nonneg_iff)
  ultimately show "int64_range (go_div d n)"
    using assms(1) e by (auto simp: int64_range_def min_int64_def max_int64_def split: if_splits)
qed

lemma duration_ms_bound:
  assumes "int64_range d"
  shows "\<bar>duration_ms d\<bar> \<le> 2 ^ 53" "int64_range (whole_ms d)"
proof -
  have a: "\<bar>d\<bar> \<le> 2 ^ 63" using assms by (auto simp: int64_range_def min_int64_def max_int64_def)
  have e: "\<bar>duration_ms d\<bar> = \<bar>d\<bar> div 1000000" using go_div_range(2) [OF assms, of 1000000] by (simp add: duration_ms_def)
  with a show "\<bar>duration_ms d\<bar> \<le> 2 ^ 53" by simp
  have "\<bar>whole_ms d\<bar> \<le> \<bar>d\<bar>" by (simp add: whole_ms_def abs_mult e)
  moreover have "if 0 \<le> d then 0 \<le> whole_ms d else whole_ms d \<le> 0"
    by (auto simp: whole_ms_def duration_ms_def go_div_def sgn_if)
  ultimately show "int64_range (whole_ms d)"
    using assms by (auto simp: int64_range_def min_int64_def max_int64_def split: if_splits)
qed

lemma milliseconds_back:
  assumes "int64_range d"
  shows "\<exists>x. f64_of_int (duration_ms d) = Fin x \<and> milliseconds oor (f64_round x) = whole_ms d"
proof -
  note b = duration_ms_bound [OF assms]
  have f: "f64_of_int (duration_ms d) = Fin (of_int (duration_ms d))" by (rule f64_of_int_exact [OF b(1)])
  then have "f64_round (of_int (duration_ms d)) = Fin (of_int (duration_ms d))" by (simp add: f64_of_int_def)
  moreover have "min_int64 \<le> duration_ms d" "duration_ms d \<le> max_int64"
    using b(1) by (auto simp: min_int64_def max_int64_def)
  ultimately have "milliseconds oor (f64_round (of_int (duration_ms d))) = whole_ms d"
    using b(2) by (simp add: milliseconds_def f64_to_int64_def trunc_rat_def whole_ms_def int64_range_def flip: of_int_minus)
  with f show ?thesis by blast
qed

lemma encode_metrics_lookup:
  "encode_metrics ms = Inr js \<Longrightarrow>
   map_of js k = Option.bind (map_of ms k) (\<lambda>v. case encode_metric v of Inl e \<Rightarrow> None | Inr j \<Rightarrow> Some j)"
proof (induction ms arbitrary: js)
  case (Cons a ms)
  then show ?case by (cases a; cases "encode_metrics ms") (auto split: sum.splits)
qed simp

lemma metric_latency_back:
  assumes "encode_metrics ms = Inr js" and "map_of ms k = Some (MFloat (f64_of_int (duration_ms d)))" and "int64_range d"
  shows "metric_latency oor js k old = whole_ms d"
proof -
  obtain x where x: "f64_of_int (duration_ms d) = Fin x" "\<And>oor. milliseconds oor (f64_round x) = whole_ms d"
    using milliseconds_back [OF assms(3)] by (metis float64.inject)
  have "map_of js k = Some (JNum x)" using encode_metrics_lookup [OF assms(1), of k] assms(2) x(1) by simp
  then show "metric_latency oor js k old = whole_ms d" by (simp add: metric_latency_def metric_float_def x(2))
qed

lemma metric_missing: "encode_metrics ms = Inr js \<Longrightarrow> map_of ms k = None \<Longrightarrow> metric_float js k = None"
  by (simp add: encode_metrics_lookup metric_float_def)

text \<open>The latencies a collector reports: \<open>p\<close> percent, and the average.\<close>

definition reported_percentile :: "collector \<Rightarrow> int \<Rightarrow> duration" where
  "reported_percentile m p =
    (if mc_processingTimes m = [] then 0 else getPercentile (sort (mc_processingTimes m)) p)"

definition reported_average :: "collector \<Rightarrow> duration" where
  "reported_average m = (let n = int (length (mc_processingTimes m)) in
     if 0 < n then go_div (mc_totalLatency m) n else 0)"

lemma reported_ranges:
  assumes "latencies_ok m" and "int (length (mc_processingTimes m)) \<le> max_int64 div 100"
  shows "int64_range (mc_minLatency m)" "int64_range (mc_maxLatency m)" "int64_range (reported_average m)"
    "0 \<le> p \<Longrightarrow> p < 100 \<Longrightarrow> int64_range (reported_percentile m p)"
proof -
  have h: "int64_range nano_hour" "int64_range 0"
    by (simp_all add: int64_range_def min_int64_def max_int64_def nano_hour_def nano_minute_def nano_second_def)
  have all: "list_all int64_range (mc_processingTimes m)" using assms(1) by (simp add: latencies_ok_def)
  have "list_all int64_range xs \<Longrightarrow> int64_range a \<Longrightarrow> int64_range (fold min xs a) \<and> int64_range (fold max xs a)" for xs a
    by (induction xs arbitrary: a) (auto simp: min_def max_def)
  with all h assms(1) show "int64_range (mc_minLatency m)" "int64_range (mc_maxLatency m)" by (simp_all add: latencies_ok_def)
  have "int64_range (mc_totalLatency m)" using assms(1) wrap64_bounds by (simp add: latencies_ok_def int64_range_def)
  then show "int64_range (reported_average m)" using h by (auto simp: reported_average_def Let_def intro!: go_div_range(1))
  show "int64_range (reported_percentile m p)" if "0 \<le> p" "p < 100"
  proof (cases "mc_processingTimes m = []")
    case False
    then have "sort (mc_processingTimes m) \<noteq> []" by (metis set_empty set_sort)
    then have "getPercentile (sort (mc_processingTimes m)) p \<in> set (mc_processingTimes m)"
      using percentile_member [of "sort (mc_processingTimes m)" p] that assms(2) by simp
    with False all show ?thesis by (auto simp: reported_percentile_def list_all_iff)
  qed (simp add: reported_percentile_def h)
qed

lemma GetMetrics_latencies:
  assumes "GetMetrics now now' m = Some ms" and "int (length (mc_processingTimes m)) \<le> max_int64 div 100"
  shows "map_of ms ''min_latency_ms'' = Some (MFloat (f64_of_int (duration_ms (mc_minLatency m))))"
    "map_of ms ''max_latency_ms'' = Some (MFloat (f64_of_int (duration_ms (mc_maxLatency m))))"
    "map_of ms ''avg_latency_ms'' = Some (MFloat (f64_of_int (duration_ms (reported_average m))))"
    "map_of ms ''p50_latency_ms'' = Some (MFloat (f64_of_int (duration_ms (reported_percentile m 50))))"
    "map_of ms ''p95_latency_ms'' = Some (MFloat (f64_of_int (duration_ms (reported_percentile m 95))))"
    "map_of ms ''p99_latency_ms'' = Some (MFloat (f64_of_int (duration_ms (reported_percentile m 99))))"
    "map_of ms ''p90_latency_ms'' = None"
  using assms
  by (auto simp: GetMetrics_def metric_percentiles_ok Let_def reported_average_def reported_percentile_def)

lemma GetMetrics_counters:
  assumes "GetMetrics now now' m = Some ms" and "encode_metrics ms = Inr js"
  shows "metric_float js ''total_requests'' = Some (f64_of_int (mc_totalRequests m))"
    "metric_float js ''successful_requests'' = Some (f64_of_int (mc_successfulRequests m))"
  using assms(1)
  by (auto simp: metric_float_def encode_metrics_lookup [OF assms(2)] GetMetrics_def f64_of_int_def Let_def)

lemma metrics_stored:
  assumes "mock_step\<^sup>*\<^sup>* (NewMetricsCollector start rate delayMin delayMax, []) (m, rs)"
    and "int (length (mc_processingTimes m)) \<le> max_int64 div 100"
    and "GetMetrics now now' m = Some ms" and "encode_metrics ms = Inr js"
  shows "updateResultsWithDeliveryMetrics oor results js = results\<lparr>
      br_DeliverySuccessRate := (if Fin 0 < f64_of_int (mc_totalRequests m)
        then f64_mul (f64_div (f64_of_int (mc_successfulRequests m)) (f64_of_int (mc_totalRequests m))) (Fin 100) else Fin 0),
      br_End2EndMinLatency := whole_ms (mc_minLatency m), br_End2EndMaxLatency := whole_ms (mc_maxLatency m),
      br_End2EndAvgLatency := whole_ms (reported_average m), br_End2EndP50Latency := whole_ms (reported_percentile m 50),
      br_End2EndP90Latency := whole_ms (reported_percentile m 95), br_End2EndP95Latency := whole_ms (reported_percentile m 95),
      br_End2EndP99Latency := whole_ms (reported_percentile m 99)\<rparr> \<and>
    (mc_processingTimes m = [] \<longrightarrow> whole_ms (mc_minLatency m) = nano_hour)"
proof -
  have "mock_ok (m, rs)" by (rule mock_ok_run [OF assms(1) mock_ok_new])
  then have l: "latencies_ok m" by (simp add: mock_ok_def)
  note look = GetMetrics_latencies [OF assms(3,2)] and range = reported_ranges [OF l assms(2)]
  have none: "metric_float js ''p90_latency_ms'' = None" by (rule metric_missing [OF assms(4) look(7)])
  have hour: "whole_ms nano_hour = nano_hour" by (simp add: whole_ms_def duration_ms_def nano_hour_def nano_minute_def nano_second_def)
  show ?thesis
    using l
    by (simp add: updateResultsWithDeliveryMetrics_def none latencies_ok_def hour GetMetrics_counters [OF assms(3,4)]
        metric_latency_back [OF assms(4) look(1) range(1)] metric_latency_back [OF assms(4) look(2) range(2)]
        metric_latency_back [OF assms(4) look(3) range(3)] metric_latency_back [OF assms(4) look(4)] range(4)
        metric_latency_back [OF assms(4) look(5)] metric_latency_back [OF assms(4) look(6)])
qed

text \<open>C40: The figures of the receiver reach the benchmark's report. What the client stores from the encoded metrics of a
  receiver are its rate of successes and its minimum, maximum, average and percentiles, truncated to whole milliseconds, whatever the
  conversion of out-of-range floats; the p90 it has no figure for is the p95. A receiver that measured nothing
  reports a minimum of one hour, which the client takes for a measurement.
\<close>

theorem metrics_reach_the_report:
  assumes "mock_step\<^sup>*\<^sup>* (NewMetricsCollector start rate delayMin delayMax, []) (m, rs)"
    and "int (length (mc_processingTimes m)) \<le> max_int64 div 100"
    and "GetMetrics now now' m = Some ms" and "encode_metrics ms = Inr js"
  shows "updateResultsWithDeliveryMetrics oor results js = results\<lparr>
      br_DeliverySuccessRate := (if Fin 0 < f64_of_int (mc_totalRequests m)
        then f64_mul (f64_div (f64_of_int (mc_successfulRequests m)) (f64_of_int (mc_totalRequests m))) (Fin 100) else Fin 0),
      br_End2EndMinLatency := whole_ms (mc_minLatency m), br_End2EndMaxLatency := whole_ms (mc_maxLatency m),
      br_End2EndAvgLatency := whole_ms (reported_average m), br_End2EndP50Latency := whole_ms (reported_percentile m 50),
      br_End2EndP90Latency := whole_ms (reported_percentile m 95), br_End2EndP95Latency := whole_ms (reported_percentile m 95),
      br_End2EndP99Latency := whole_ms (reported_percentile m 99)\<rparr> \<and>
    (mc_processingTimes m = [] \<longrightarrow> whole_ms (mc_minLatency m) = nano_hour)"
  using assms by (rule metrics_stored)

section \<open>Concrete runs\<close>

lemma alone_run:
  "delivery_actions n env (Some st, m) = (None, m') \<Longrightarrow> mock_step\<^sup>*\<^sup>* (m, [(env, st)]) (m', [])"
proof (induction n arbitrary: st m)
  case (Suc n)
  obtain o' m1 where a: "delivery_action env st m = (o', m1)" by (metis surj_pair)
  show ?case
  proof (cases o')
    case None
    then have "m1 = m'" using Suc.prems a by (cases n) auto
    then show ?thesis using respond [of env st m m' "[]" "[]"] a None by auto
  next
    case (Some st')
    then have "mock_step\<^sup>*\<^sup>* (m1, [(env, st')]) (m', [])" using Suc.prems a by (intro Suc.IH) simp
    moreover have "mock_step (m, [(env, st)]) (m1, [(env, st')])"
      using proceed [of env st m st' m1 "[]" "[]"] a Some by simp
    ultimately show ?thesis by (metis converse_rtranclp_into_rtranclp)
  qed
qed simp

definition sample_delivery :: delivery_env where
  "sample_delivery = \<lparr>dv_arrival = 10, dv_payload = Inr [(''id'', JStr ''event-1''), (''event_time'', JTime ''0001-01-01T00:00:00.000000005Z'' 5)], dv_size = 40,
     dv_delivered = 11, dv_since = 12, dv_nanos = 0, dv_delayDraw = Fin 0, dv_failDraw = Fin 0\<rparr>"

definition sample_collector :: collector where
  "sample_collector = snd (RecordWebhookDelivery (\<lambda>f. 0) sample_delivery (NewMetricsCollector 0 (Fin 0) 0 0))"

lemma sample_collector_run:
  "mock_step\<^sup>*\<^sup>* (NewMetricsCollector 0 (Fin 0) 0 0, []) (sample_collector, [])"
proof -
  have "delivery_actions 6 sample_delivery (Some Fresh, NewMetricsCollector 0 (Fin 0) 0 0) = (None, sample_collector)"
    unfolding sample_collector_def by (rule delivery_actions_compose)
  from alone_run [OF this] request [of "NewMetricsCollector 0 (Fin 0) 0 0" "[]" sample_delivery] show ?thesis
    by (meson converse_rtranclp_into_rtranclp)
qed

lemma sample_collector_fields:
  "mc_processingTimes sample_collector = [7]" "mc_startTime sample_collector = 0" "mc_totalRequests sample_collector = 1"
  "mc_minLatency sample_collector = 7" "mc_maxLatency sample_collector = 7" "mc_totalLatency sample_collector = 7"
  "mc_successfulRequests sample_collector = 1"
  by (simp_all add: sample_collector_def RecordWebhookDelivery_def sample_delivery_def NewMetricsCollector_def
      record_request_def record_arrival_def record_size_def simulated_failure_def record_delivery_def record_latency_def
      record_success_def payload_event_time_def Let_def f64_round_def round_rat_def time_sub_def min_int64_def max_int64_def
      wrap64_def nano_hour_def nano_minute_def nano_second_def)

lemma mock_counts_agree_witness: "mc_totalRequests sample_collector = 1 \<and> counted 200 (mc_responseCodeCounts sample_collector) = 1"
  using mock_counts_agree [OF sample_collector_run] by (simp add: sample_collector_fields max_int64_def wrap64_def)

lemma zero_seconds: "duration_seconds 0 = Fin 0"
  by (simp add: duration_seconds_def go_div_def go_mod_def f64_of_int_def f64_round_def round_rat_def)

lemma sample_collector_metrics: "\<exists>ms js. GetMetrics 0 0 sample_collector = Some ms \<and> encode_metrics ms = Inr js"
proof -
  have p: "metric_percentiles [7] = Some (7, 7, 7)" by (simp add: metric_percentiles_ok max_int64_def getPercentile_def wrap64_def)
  have z: "f64_of_int (duration_ms 7) = Fin 0" by (simp add: duration_ms_def f64_of_int_def f64_round_def round_rat_def)
  have t: "time_sub 0 0 = 0" by (simp add: time_sub_def min_int64_def max_int64_def)
  obtain ms where ms: "GetMetrics 0 0 sample_collector = Some ms"
    by (simp add: GetMetrics_def sample_collector_fields p Let_def)
  moreover from ms obtain js where js: "encode_metrics ms = Inr js"
    by (auto simp: GetMetrics_def sample_collector_fields p z zero_seconds t Let_def)
  ultimately show ?thesis by blast
qed

lemma metrics_reach_the_report_witness:
  "\<exists>ms js. GetMetrics 0 0 sample_collector = Some ms \<and> encode_metrics ms = Inr js \<and>
    (\<forall>results. br_End2EndP99Latency (updateResultsWithDeliveryMetrics (\<lambda>f. 0) results js) = whole_ms 7)"
proof -
  obtain ms js where ms: "GetMetrics 0 0 sample_collector = Some ms" "encode_metrics ms = Inr js"
    using sample_collector_metrics by blast
  then show ?thesis
    using metrics_reach_the_report [OF sample_collector_run _ ms, of "\<lambda>f. 0"]
    by (simp add: sample_collector_fields max_int64_def reported_percentile_def getPercentile_def wrap64_def)
qed

section \<open>The routes\<close>

text \<open>
  \<open>main\<close>: the default flags and the four handlers of the mux, which answers any other path with 404. \<open>None\<close> is a
  handler that panics.
\<close>

record mock_flags =
  mf_port :: int
  mf_failureRate :: float64
  mf_minDelay :: duration
  mf_maxDelay :: duration

definition default_mock_flags :: mock_flags where
  "default_mock_flags = \<lparr>mf_port = 9090, mf_failureRate = Fin 0, mf_minDelay = 0, mf_maxDelay = 0\<rparr>"

definition mock_collector :: "instant \<Rightarrow> mock_flags \<Rightarrow> collector" where
  "mock_collector now f = NewMetricsCollector now (mf_failureRate f) (mf_minDelay f) (mf_maxDelay f)"

datatype mock_body = Text_body string | Report_body "(string, metric) gomap"

definition mock_serve ::
  "(float64 \<Rightarrow> int) \<Rightarrow> delivery_env \<Rightarrow> instant \<Rightarrow> instant \<Rightarrow> string \<Rightarrow> collector \<Rightarrow> (int \<times> mock_body) option \<times> collector" where
  "mock_serve oor env now now' path m =
    (if path = ''/webhook''
     then (case RecordWebhookDelivery oor env m of (code, m') \<Rightarrow>
       (Some (code, Text_body (if code = 200 then ''{'' @ quoted ''success'' @ '': true}'' else [])), m'))
     else if path = ''/metrics'' then (map_option (\<lambda>ms. (200, Report_body ms)) (GetMetrics now now' m), m)
     else if path = ''/reset''
     then (Some (200, Text_body (''{'' @ quoted ''message'' @ '': '' @ quoted ''Metrics reset successfully'' @ ''}'')), ResetMetrics now m)
     else if path = ''/health'' then (Some (200, Text_body (''{'' @ quoted ''status'' @ '': '' @ quoted ''ok'' @ ''}'')), m)
     else (Some (404, Text_body ''404 page not found''), m))"

text \<open>Asking for the report or the health leaves the figures alone, and after a reset the report is that of a new collector.\<close>

lemma mock_serve_reads:
  "snd (mock_serve oor env now now' ''/metrics'' m) = m" "snd (mock_serve oor env now now' ''/health'' m) = m"
  by (simp_all add: mock_serve_def)

lemma mock_serve_reset:
  "snd (mock_serve oor env now now' ''/reset'' (mock_collector t f)) = mock_collector now f"
  by (simp add: mock_serve_def mock_collector_def ResetMetrics_def NewMetricsCollector_def)

section \<open>The end of the process\<close>

text \<open>
  \<open>main\<close> after the handlers: the server listens in a goroutine of its own, whose error ends the process, while \<open>main\<close> waits for
  SIGINT or SIGTERM, logs the last report (nothing if it cannot be encoded) and shuts the server down within five
  seconds. \<open>listen\<close> is an error of \<open>ListenAndServe\<close> before the signal, \<open>shutdown timeout\<close> that of \<open>Shutdown\<close>.
\<close>

datatype mock_end = Listen_failed goerr | Report_panics | Forced goerr "json option" | Graceful "json option"

definition mock_finish :: "goerr option \<Rightarrow> instant \<Rightarrow> instant \<Rightarrow> collector \<Rightarrow> (duration \<Rightarrow> goerr option) \<Rightarrow> mock_end" where
  "mock_finish listen now now' m shutdown = (case listen of
     Some err \<Rightarrow> Listen_failed err
   | None \<Rightarrow> (case GetMetrics now now' m of
       None \<Rightarrow> Report_panics
     | Some metrics \<Rightarrow>
         (let prettyMetrics = (case encode_metrics metrics of Inl err \<Rightarrow> None | Inr js \<Rightarrow> Some (JObj js))
          in case shutdown (5 * nano_second) of
            Some err \<Rightarrow> Forced err prettyMetrics
          | None \<Rightarrow> Graceful prettyMetrics)))"

text \<open>The last report never panics while the number of measurements is within reason.\<close>

lemma mock_finish_reports:
  assumes "int (length (mc_processingTimes m)) \<le> max_int64 div 100"
  shows "mock_finish None now now' m shutdown \<noteq> Report_panics"
  using assms by (simp add: mock_finish_def GetMetrics_def metric_percentiles_ok Let_def split: option.split)

end
