(* ===== verification/Stress_Run.thy ===== *)
theory Stress_Run
  imports Benchmark
begin

text \<open>
  One level of the stress test of \<open>cmd/benchmark/main.go\<close>: a run of \<open>stressWorker\<close> goroutines over the two channels of
  \<open>runStressTest\<close>. Unlike the workers of \<open>runBenchmark\<close>, one that takes a job when the time is over returns and drops it.
\<close>

section \<open>The run\<close>

text \<open>
  \<open>ss_busy\<close> holds the jobs taken and not yet answered, \<open>ss_idle\<close> counts the workers at the head of their loop, \<open>ss_done\<close>
  those that have returned, \<open>ss_completed\<close> is the counter they share. The moment at which the time is over is left open, and so is
  the one at which the main goroutine has slept enough and closes the jobs.
\<close>

record stress_state =
  ss_next :: int
  ss_closed :: bool
  ss_jobs :: "int chan"
  ss_results :: "duration chan"
  ss_busy :: "int list"
  ss_idle :: nat
  ss_done :: nat
  ss_completed :: int

definition stress_start :: "int \<Rightarrow> int \<Rightarrow> stress_state option" where
  "stress_start concurrency totalRequests =
    (if totalRequests < 0 then None
     else Some \<lparr>ss_next = 0, ss_closed = False, ss_jobs = make_chan (nat totalRequests),
       ss_results = make_chan (nat totalRequests), ss_busy = [], ss_idle = nat concurrency, ss_done = 0, ss_completed = 0\<rparr>)"

inductive stress_step :: "(int \<Rightarrow> duration) \<Rightarrow> int \<Rightarrow> stress_state \<Rightarrow> stress_state \<Rightarrow> bool" for answer totalRequests where
  feed: "ss_next s < totalRequests \<Longrightarrow> chan_room (ss_jobs s) \<Longrightarrow>
    stress_step answer totalRequests s (s\<lparr>ss_jobs := chan_send (ss_next s) (ss_jobs s), ss_next := ss_next s + 1\<rparr>)"
| close_fed: "totalRequests \<le> ss_next s \<Longrightarrow> \<not> ss_closed s \<Longrightarrow>
    stress_step answer totalRequests s (s\<lparr>ss_closed := True\<rparr>)"
| pick: "0 < ss_idle s \<Longrightarrow> chan_recv (ss_jobs s) = Some (j, jobs') \<Longrightarrow>
    stress_step answer totalRequests s (s\<lparr>ss_jobs := jobs', ss_idle := ss_idle s - 1, ss_busy := j # ss_busy s\<rparr>)"
| expire: "j \<in> set (ss_busy s) \<Longrightarrow>
    stress_step answer totalRequests s (s\<lparr>ss_busy := remove1 j (ss_busy s), ss_done := ss_done s + 1\<rparr>)"
| reply: "j \<in> set (ss_busy s) \<Longrightarrow> chan_room (ss_results s) \<Longrightarrow>
    stress_step answer totalRequests s (s\<lparr>ss_results := chan_send (answer j) (ss_results s),
      ss_busy := remove1 j (ss_busy s), ss_idle := ss_idle s + 1, ss_completed := wrap64 (ss_completed s + 1)\<rparr>)"
| return: "0 < ss_idle s \<Longrightarrow> ss_closed s \<Longrightarrow> chan_recv (ss_jobs s) = None \<Longrightarrow>
    stress_step answer totalRequests s (s\<lparr>ss_idle := ss_idle s - 1, ss_done := ss_done s + 1\<rparr>)"

definition stress_finished :: "stress_state \<Rightarrow> bool" where
  "stress_finished s \<longleftrightarrow> ss_closed s \<and> ss_busy s = [] \<and> ss_idle s = 0"

section \<open>It ends, and counts what it did\<close>

definition stress_ok :: "(int \<Rightarrow> duration) \<Rightarrow> int \<Rightarrow> stress_state \<Rightarrow> bool" where
  "stress_ok answer totalRequests s \<longleftrightarrow>
    0 \<le> ss_next s \<and> ss_next s \<le> totalRequests \<and>
    int (ch_cap (ss_jobs s)) = totalRequests \<and> int (ch_cap (ss_results s)) = totalRequests \<and>
    int (length (ch_buf (ss_results s)) + length (ss_busy s) + length (ch_buf (ss_jobs s))) \<le> ss_next s \<and>
    ss_completed s = wrap64 (int (length (ch_buf (ss_results s)))) \<and>
    set (ch_buf (ss_jobs s)) \<union> set (ss_busy s) \<subseteq> {0..<totalRequests} \<and>
    set (ch_buf (ss_results s)) \<subseteq> answer ` {0..<totalRequests}"

definition stress_left :: "int \<Rightarrow> stress_state \<Rightarrow> nat" where
  "stress_left totalRequests s = 3 * nat (totalRequests - ss_next s) + 2 * chan_len (ss_jobs s) + length (ss_busy s)
     + (length (ss_busy s) + ss_idle s) + (if ss_closed s then 0 else 1)"

lemma stress_start_ok:
  assumes "stress_start concurrency totalRequests = Some s"
  shows "stress_ok answer totalRequests s" "stress_left totalRequests s = 3 * nat totalRequests + nat concurrency + 1"
  using assms by (auto simp: stress_start_def stress_ok_def stress_left_def make_chan_def chan_len_def wrap64_def split: if_splits)

lemma length_remove1_Suc: "j \<in> set xs \<Longrightarrow> length xs = Suc (length (remove1 j xs))"
  by (metis One_nat_def Suc_pred length_pos_if_in_set length_remove1)

lemma wrap64_Suc: "wrap64 (1 + wrap64 a) = wrap64 (1 + a)"
  by (simp add: wrap64_def mod_simps algebra_simps)

lemma stress_step_ok:
  assumes "stress_step answer totalRequests s s'" and "stress_ok answer totalRequests s"
  shows "stress_ok answer totalRequests s' \<and> stress_left totalRequests s' < stress_left totalRequests s"
  using assms
proof (cases rule: stress_step.cases)
  case (pick j jobs')
  from pick(3) have "ch_buf (ss_jobs s) = j # ch_buf jobs'" "ch_cap jobs' = ch_cap (ss_jobs s)" by auto
  then show ?thesis using assms(2) pick(1,2) by (auto simp: stress_ok_def stress_left_def chan_len_def)
next
  case (expire j)
  then show ?thesis using assms(2) length_remove1_Suc [OF expire(2)] set_remove1_subset [of j "ss_busy s"]
    by (auto simp: stress_ok_def stress_left_def)
next
  case (reply j)
  have "answer j \<in> answer ` {0..<totalRequests}" using assms(2) reply(2) by (auto simp: stress_ok_def)
  then show ?thesis using reply assms(2) length_remove1_Suc [OF reply(2)] set_remove1_subset [of j "ss_busy s"]
    by (auto simp: stress_ok_def stress_left_def wrap64_Suc algebra_simps)
qed (auto simp: stress_ok_def stress_left_def chan_len_def)

lemma stress_run_ok:
  assumes "(stress_step answer totalRequests ^^ k) s s'" and "stress_ok answer totalRequests s"
  shows "stress_ok answer totalRequests s' \<and> k + stress_left totalRequests s' \<le> stress_left totalRequests s"
  using assms
proof (induction k arbitrary: s')
  case (Suc k)
  then obtain c where c: "(stress_step answer totalRequests ^^ k) s c" "stress_step answer totalRequests c s'" by auto
  from Suc.IH [OF c(1) Suc.prems(2)] stress_step_ok [OF c(2)] show ?case by auto
qed simp

lemma stress_stuck:
  assumes ok: "stress_ok answer totalRequests s" and stuck: "\<And>s'. \<not> stress_step answer totalRequests s s'"
  shows "stress_finished s"
proof -
  have all: "\<not> ss_next s < totalRequests"
  proof
    assume "ss_next s < totalRequests"
    moreover then have "chan_room (ss_jobs s)" using ok by (auto simp: stress_ok_def chan_room_def chan_len_def)
    ultimately show False by (rule notE [OF stuck feed])
  qed
  then have closed: "ss_closed s" by (meson stuck stress_step.close_fed leI)
  have busy: "ss_busy s = []" by (metis stuck stress_step.expire list.set_intros(1) neq_Nil_conv)
  have "ss_idle s = 0"
  proof (rule ccontr)
    assume "ss_idle s \<noteq> 0"
    then have i: "0 < ss_idle s" by simp
    show False
    proof (cases "chan_recv (ss_jobs s)")
      case None
      show False by (rule notE [OF stuck return [OF i closed None]])
    next
      case (Some a)
      then have "chan_recv (ss_jobs s) = Some (fst a, snd a)" by simp
      then show False by (rule notE [OF stuck pick [OF i]])
    qed
  qed
  with closed busy show ?thesis by (simp add: stress_finished_def)
qed

text \<open>
  A level of the stress test ends and counts its requests. Whatever the interleaving, and whenever the time is over, its goroutines take
  at most three steps for each request and one for each worker, plus one; where no step is possible all have returned; and then
  the counter is the number of answers in the channel, at most the requests, each an answer to one of them. So the
  requests completed are the successful and the failed ones.
\<close>

theorem stress_level_ends:
  assumes "stress_start concurrency totalRequests = Some s0" and "(stress_step answer totalRequests ^^ k) s0 s"
    and "totalRequests \<le> max_int64"
  shows "k \<le> 3 * nat totalRequests + nat concurrency + 1 \<and>
    ((\<nexists>s'. stress_step answer totalRequests s s') \<longrightarrow> stress_finished s) \<and>
    ss_completed s = int (length (filter (\<lambda>latency. 0 \<le> latency) (ch_buf (ss_results s)))) +
      int (length (filter (\<lambda>latency. latency < 0) (ch_buf (ss_results s)))) \<and>
    ss_completed s \<le> totalRequests \<and> set (ch_buf (ss_results s)) \<subseteq> answer ` {0..<totalRequests}"
proof -
  have run: "stress_ok answer totalRequests s" "k + stress_left totalRequests s \<le> 3 * nat totalRequests + nat concurrency + 1"
    using stress_run_ok [OF assms(2) stress_start_ok(1) [OF assms(1)]] stress_start_ok(2) [OF assms(1)] by auto
  have len: "int (length (ch_buf (ss_results s))) \<le> totalRequests" using run(1) by (auto simp: stress_ok_def)
  then have "wrap64 (int (length (ch_buf (ss_results s)))) = int (length (ch_buf (ss_results s)))"
    using assms(3) by (intro wrap64_id) (auto simp: min_int64_def)
  then have c: "ss_completed s = int (length (ch_buf (ss_results s)))" using run(1) by (simp add: stress_ok_def)
  have "length (filter (\<lambda>x. 0 \<le> x) xs) + length (filter (\<lambda>x. x < 0) xs) = length xs" for xs :: "int list"
    using sum_length_filter_compl [of "\<lambda>x. 0 \<le> x" xs] by (simp add: not_le)
  then show ?thesis
    using stress_stuck [OF run(1)] run(2) c len run(1)
    by (auto simp: stress_ok_def simp flip: of_nat_add)
qed

text \<open>A run in which one request is answered and, the time being over, the other is dropped.\<close>

lemma stress_level_ends_witness:
  "\<exists>s0 s k. stress_start 1 2 = Some s0 \<and> (stress_step (\<lambda>j. 5) 2 ^^ k) s0 s \<and> stress_finished s \<and> ss_completed s = 1"
proof -
  let ?s = "\<lambda>n closed jobs results busy idle d c. \<lparr>ss_next = n, ss_closed = closed, ss_jobs = \<lparr>ch_cap = 2, ch_buf = jobs\<rparr>,
    ss_results = \<lparr>ch_cap = 2, ch_buf = results\<rparr>, ss_busy = busy, ss_idle = idle, ss_done = d, ss_completed = c\<rparr>"
  note c = chan_room_def chan_len_def chan_send_def chan_recv_def wrap64_def
  have s: "stress_start 1 2 = Some (?s 0 False [] [] [] 1 0 0)" by (simp add: stress_start_def make_chan_def)
  have 1: "stress_step (\<lambda>j. 5) 2 (?s 0 False [] [] [] 1 0 0) (?s 1 False [0] [] [] 1 0 0)"
    using feed [of "?s 0 False [] [] [] 1 0 0" 2 "\<lambda>j. 5"] by (simp add: c)
  have 2: "stress_step (\<lambda>j. 5) 2 (?s 1 False [0] [] [] 1 0 0) (?s 2 False [0, 1] [] [] 1 0 0)"
    using feed [of "?s 1 False [0] [] [] 1 0 0" 2 "\<lambda>j. 5"] by (simp add: c)
  have 3: "stress_step (\<lambda>j. 5) 2 (?s 2 False [0, 1] [] [] 1 0 0) (?s 2 False [1] [] [0] 0 0 0)"
    using pick [of "?s 2 False [0, 1] [] [] 1 0 0" 0 "\<lparr>ch_cap = 2, ch_buf = [1]\<rparr>" "\<lambda>j. 5" 2] by (simp add: c)
  have 4: "stress_step (\<lambda>j. 5) 2 (?s 2 False [1] [] [0] 0 0 0) (?s 2 False [1] [5] [] 1 0 1)"
    using reply [of 0 "?s 2 False [1] [] [0] 0 0 0" "\<lambda>j. 5" 2] by (simp add: c)
  have 5: "stress_step (\<lambda>j. 5) 2 (?s 2 False [1] [5] [] 1 0 1) (?s 2 False [] [5] [1] 0 0 1)"
    using pick [of "?s 2 False [1] [5] [] 1 0 1" 1 "\<lparr>ch_cap = 2, ch_buf = []\<rparr>" "\<lambda>j. 5" 2] by (simp add: c)
  have 6: "stress_step (\<lambda>j. 5) 2 (?s 2 False [] [5] [1] 0 0 1) (?s 2 False [] [5] [] 0 1 1)"
    using expire [of 1 "?s 2 False [] [5] [1] 0 0 1" "\<lambda>j. 5" 2] by (simp add: c)
  have 7: "stress_step (\<lambda>j. 5) 2 (?s 2 False [] [5] [] 0 1 1) (?s 2 True [] [5] [] 0 1 1)"
    using close_fed [of 2 "?s 2 False [] [5] [] 0 1 1" "\<lambda>j. 5"] by simp
  have "(stress_step (\<lambda>j. 5) 2)\<^sup>*\<^sup>* (?s 0 False [] [] [] 1 0 0) (?s 2 True [] [5] [] 0 1 1)"
    using 1 2 3 4 5 6 7 by (meson converse_rtranclp_into_rtranclp r_into_rtranclp)
  then obtain k where run: "(stress_step (\<lambda>j. 5) 2 ^^ k) (?s 0 False [] [] [] 1 0 0) (?s 2 True [] [5] [] 0 1 1)"
    using rtranclp_imp_relpowp by metis
  have "ss_completed (?s 2 True [] [5] [] 0 1 1) = 1"
    using stress_level_ends [OF s run] by (simp add: max_int64_def)
  moreover have "stress_finished (?s 2 True [] [5] [] 0 1 1)" by (simp add: stress_finished_def)
  ultimately show ?thesis using s run by blast
qed

end
