(* ===== verification/Benchmark_Main.thy ===== *)
theory Benchmark_Main
  imports Mock_Server Stress_Run
begin

text \<open>
  \<open>main\<close> of \<open>cmd/benchmark/main.go\<close>: the flags, the three modes, what is printed and what is written to the file, and
  the end-to-end mode against the receiver. The runs of the workers, the network and the file system are
  parameters; the texts printed are given as their labels and figures.
\<close>

section \<open>Flags\<close>

datatype benchmark_mode = ModeSend | ModeEnd2End | ModeStress

record benchmark_flags =
  bf_concurrency :: int
  bf_totalRequests :: int
  bf_webhookIDs :: string
  bf_baseURL :: string
  bf_mockServerURL :: string
  bf_mode :: string
  bf_outputFile :: string
  bf_webhookTargetURL :: string
  bf_waitForDelivery :: duration
  bf_stressStartConcurrency :: int
  bf_stressMaxConcurrency :: int
  bf_stressStep :: int
  bf_stressStepDuration :: duration

definition default_benchmark_flags :: benchmark_flags where
  "default_benchmark_flags = \<lparr>bf_concurrency = 10, bf_totalRequests = 1000, bf_webhookIDs = ''1,2,3,4,5'',
     bf_baseURL = ''http://localhost:8080'', bf_mockServerURL = ''http://localhost:9090'', bf_mode = ''send'',
     bf_outputFile = [], bf_webhookTargetURL = ''http://localhost:9090/webhook'', bf_waitForDelivery = 30 * nano_second,
     bf_stressStartConcurrency = 10, bf_stressMaxConcurrency = 100, bf_stressStep = 10,
     bf_stressStepDuration = 10 * nano_second\<rparr>"

definition parse_mode :: "string \<Rightarrow> benchmark_mode option" where
  "parse_mode mode = (let m = map lower_char mode in
     if m = ''send'' then Some ModeSend else if m = ''end2end'' then Some ModeEnd2End
     else if m = ''stress'' then Some ModeStress else None)"

section \<open>What is printed and saved\<close>

datatype figure = Number int | Share int float64 | Real float64 | Time duration

definition printResults :: "benchmark_results \<Rightarrow> (string \<times> figure) list" where
  "printResults results =
    [(''Total Requests'', Number (br_TotalRequests results)),
     (''Successful Requests'', Share (br_SuccessfulRequests results) (br_SuccessRate results)),
     (''Failed Requests'', Number (br_FailedRequests results)),
     (''Total Duration'', Time (br_TotalDuration results)),
     (''Requests Per Second'', Real (br_RequestsPerSecond results)),
     (''Min Latency'', Time (br_MinLatency results)), (''Avg Latency'', Time (br_AvgLatency results)),
     (''Max Latency'', Time (br_MaxLatency results)), (''P50 Latency'', Time (br_P50Latency results)),
     (''P90 Latency'', Time (br_P90Latency results)), (''P95 Latency'', Time (br_P95Latency results)),
     (''P99 Latency'', Time (br_P99Latency results))] @
    (if 0 < br_End2EndMinLatency results
     then [(''Delivery Success Rate'', Real (br_DeliverySuccessRate results)),
       (''Min E2E Latency'', Time (br_End2EndMinLatency results)), (''Avg E2E Latency'', Time (br_End2EndAvgLatency results)),
       (''Max E2E Latency'', Time (br_End2EndMaxLatency results)), (''P50 E2E Latency'', Time (br_End2EndP50Latency results)),
       (''P90 E2E Latency'', Time (br_End2EndP90Latency results)), (''P95 E2E Latency'', Time (br_End2EndP95Latency results)),
       (''P99 E2E Latency'', Time (br_End2EndP99Latency results))]
     else [])"

definition printStressResults :: "stress_result list \<Rightarrow> figure list list" where
  "printStressResults results = map (\<lambda>result. [Number (sr_Concurrency result), Real (sr_RequestsPerSecond result),
     Real (sr_SuccessRate result), Time (sr_AvgLatency result), Time (sr_P95Latency result)]) results"

text \<open>
  The members of the two structs, which have no tags, as \<open>encoding/json\<close> writes them: a duration is its nanoseconds.
\<close>

definition results_members :: "benchmark_results \<Rightarrow> (string, metric) gomap" where
  "results_members r =
    [(''TotalRequests'', MInt (br_TotalRequests r)), (''SuccessfulRequests'', MInt (br_SuccessfulRequests r)),
     (''FailedRequests'', MInt (br_FailedRequests r)), (''TotalDuration'', MInt (br_TotalDuration r)),
     (''MinLatency'', MInt (br_MinLatency r)), (''MaxLatency'', MInt (br_MaxLatency r)),
     (''AvgLatency'', MInt (br_AvgLatency r)), (''P50Latency'', MInt (br_P50Latency r)),
     (''P90Latency'', MInt (br_P90Latency r)), (''P95Latency'', MInt (br_P95Latency r)),
     (''P99Latency'', MInt (br_P99Latency r)), (''RequestsPerSecond'', MFloat (br_RequestsPerSecond r)),
     (''SuccessRate'', MFloat (br_SuccessRate r)),
     (''End2EndMinLatency'', MInt (br_End2EndMinLatency r)), (''End2EndMaxLatency'', MInt (br_End2EndMaxLatency r)),
     (''End2EndAvgLatency'', MInt (br_End2EndAvgLatency r)), (''End2EndP50Latency'', MInt (br_End2EndP50Latency r)),
     (''End2EndP90Latency'', MInt (br_End2EndP90Latency r)), (''End2EndP95Latency'', MInt (br_End2EndP95Latency r)),
     (''End2EndP99Latency'', MInt (br_End2EndP99Latency r)), (''DeliverySuccessRate'', MFloat (br_DeliverySuccessRate r))]"

definition stress_members :: "stress_result \<Rightarrow> (string, metric) gomap" where
  "stress_members r = [(''Concurrency'', MInt (sr_Concurrency r)), (''RequestsPerSecond'', MFloat (sr_RequestsPerSecond r)),
     (''SuccessRate'', MFloat (sr_SuccessRate r)), (''AvgLatency'', MInt (sr_AvgLatency r)), (''P95Latency'', MInt (sr_P95Latency r))]"

text \<open>
  The encoder writes nothing when a value is unsupported, and the file has been truncated by then. A slice without levels is
  nil, which is written as \<open>null\<close>.
\<close>

datatype saved = Not_created | Left_empty | Written json

definition saveResultsToFile :: "(string \<Rightarrow> goerr option) \<Rightarrow> benchmark_results \<Rightarrow> string \<Rightarrow> saved" where
  "saveResultsToFile create results filename = (case create filename of
     Some err \<Rightarrow> Not_created
   | None \<Rightarrow> (case encode_metrics (results_members results) of
       Inl err \<Rightarrow> Left_empty
     | Inr members \<Rightarrow> Written (JObj members)))"

fun encode_stress :: "stress_result list \<Rightarrow> json list result" where
  "encode_stress [] = Inr []"
| "encode_stress (r # rs) = (case encode_metrics (stress_members r) of
     Inl e \<Rightarrow> Inl e
   | Inr members \<Rightarrow> map_sum id (\<lambda>js. JObj members # js) (encode_stress rs))"

definition saveStressResultsToFile :: "(string \<Rightarrow> goerr option) \<Rightarrow> stress_result list \<Rightarrow> string \<Rightarrow> saved" where
  "saveStressResultsToFile create results filename = (case create filename of
     Some err \<Rightarrow> Not_created
   | None \<Rightarrow> (case encode_stress results of
       Inl err \<Rightarrow> Left_empty
     | Inr js \<Rightarrow> Written (if results = [] then JNull else JArr js)))"

section \<open>The whole program\<close>

text \<open>
  \<open>me_run\<close> and \<open>me_stress\<close> are what the workers of \<open>runBenchmark\<close> and of a level of the stress test do (the runs of
  \<open>Benchmark\<close> and \<open>Stress_Run\<close>), \<open>me_get 0\<close> the
  first GET request, \<open>me_get 1\<close> the one after the wait. \<open>log.Fatalf\<close> ends the process.
\<close>

record main_env =
  me_get :: "nat \<Rightarrow> string \<Rightarrow> http_response result"
  me_post :: "string \<Rightarrow> string \<Rightarrow> http_response result"
  me_run :: "int \<Rightarrow> int \<Rightarrow> string list \<Rightarrow> string \<Rightarrow> benchmark_results option"
  me_stress :: "string list \<Rightarrow> string \<Rightarrow> int \<Rightarrow> int \<Rightarrow> int \<times> duration list \<times> duration"
  me_create :: "string \<Rightarrow> goerr option"
  me_oor :: "float64 \<Rightarrow> int"

datatype fatal = Invalid_mode string | No_webhook_IDs | Mock_not_accessible goerr | Mock_not_reset goerr

datatype main_end = Fatal fatal | Panics | Never_ends | Reports benchmark_results "saved option"
  | Reports_stress "stress_result list" "saved option"

definition end2end_check :: "benchmark_flags \<Rightarrow> main_env \<Rightarrow> fatal option" where
  "end2end_check flags env = (case checkMockServerHealth (me_get env 0) (bf_mockServerURL flags) of
     Some err \<Rightarrow> Some (Mock_not_accessible err)
   | None \<Rightarrow> map_option Mock_not_reset (resetMockServerMetrics (me_post env) (bf_mockServerURL flags)))"

definition delivery_report :: "benchmark_flags \<Rightarrow> main_env \<Rightarrow> benchmark_results \<Rightarrow> benchmark_results" where
  "delivery_report flags env results = (case getMockServerMetrics (me_get env 1) (bf_mockServerURL flags) of
     Inl err \<Rightarrow> results
   | Inr metrics \<Rightarrow> updateResultsWithDeliveryMetrics (me_oor env) results (case metrics of None \<Rightarrow> [] | Some m \<Rightarrow> m))"

definition benchmark_main :: "benchmark_flags \<Rightarrow> main_env \<Rightarrow> main_end" where
  "benchmark_main flags env = (case parse_mode (bf_mode flags) of
     None \<Rightarrow> Fatal (Invalid_mode (bf_mode flags))
   | Some mode \<Rightarrow>
       (let webhookIDList = parseWebhookIDs (bf_webhookIDs flags);
            save = (\<lambda>f. if bf_outputFile flags \<noteq> [] then Some (f (bf_outputFile flags)) else None)
        in if webhookIDList = [] then Fatal No_webhook_IDs
        else case (if mode = ModeEnd2End then end2end_check flags env else None) of
          Some err \<Rightarrow> Fatal err
        | None \<Rightarrow>
            if mode = ModeStress
            then (case runStressTest (stress_level (me_oor env) (bf_stressStepDuration flags)
                      (me_stress env webhookIDList (bf_baseURL flags)))
                    (bf_stressMaxConcurrency flags) (bf_stressStep flags) (bf_stressStartConcurrency flags) of
                None \<Rightarrow> Never_ends
              | Some None \<Rightarrow> Panics
              | Some (Some stressResults) \<Rightarrow> Reports_stress stressResults (save (saveStressResultsToFile (me_create env) stressResults)))
            else (case me_run env (bf_concurrency flags) (bf_totalRequests flags) webhookIDList (bf_baseURL flags) of
                None \<Rightarrow> Panics
              | Some results \<Rightarrow>
                  (let results = (if mode = ModeEnd2End then delivery_report flags env results else results)
                   in Reports results (save (saveResultsToFile (me_create env) results))))))"

text \<open>Workers only run with identifiers to draw from, so drawing one never panics.\<close>

lemma main_has_webhook_ids:
  assumes "benchmark_main flags env = Reports results file \<or> benchmark_main flags env = Reports_stress stressResults file"
  shows "parseWebhookIDs (bf_webhookIDs flags) \<noteq> []"
  using assms by (auto simp: benchmark_main_def Let_def split: option.splits if_splits)

lemma worker_draws: "webhookIDs \<noteq> [] \<Longrightarrow> worker_answer envs webhookIDs baseURL j \<noteq> None"
  by (simp add: worker_answer_def job_answer_def generateRandomEvent_def)

text \<open>The stress test with a step of zero never ends, and the process with it.\<close>

lemma stress_step_zero:
  assumes "parse_mode (bf_mode flags) = Some ModeStress" and "bf_stressStep flags = 0" and "parseWebhookIDs (bf_webhookIDs flags) \<noteq> []"
    and "min_int64 \<le> bf_stressStartConcurrency flags" and "bf_stressStartConcurrency flags \<le> bf_stressMaxConcurrency flags"
    and "bf_stressMaxConcurrency flags \<le> max_int64"
    and "0 \<le> stress_requests (me_oor env) (bf_stressStartConcurrency flags) (bf_stressStepDuration flags)"
  shows "benchmark_main flags env = Never_ends"
proof -
  let ?level = "stress_level (me_oor env) (bf_stressStepDuration flags) (me_stress env (parseWebhookIDs (bf_webhookIDs flags)) (bf_baseURL flags))"
  have "stress_stays ?level (bf_stressMaxConcurrency flags) 0 (bf_stressStartConcurrency flags)"
    using assms by (auto simp: stress_stays_def stress_level_def Let_def split: prod.split)
  then have "runStressTest ?level (bf_stressMaxConcurrency flags) 0 (bf_stressStartConcurrency flags) = None"
    using stress_stays_diverges by (metis option.exhaust)
  then show ?thesis using assms by (simp add: benchmark_main_def Let_def)
qed

text \<open>A run of no requests has no success rate, so its file stays empty.\<close>

lemma no_requests_no_file:
  assumes "br_SuccessRate results = NaN" and "create filename = None"
  shows "saveResultsToFile create results filename = Left_empty"
  using assms by (cases "br_RequestsPerSecond results") (simp_all add: saveResultsToFile_def results_members_def)

section \<open>From the receiver to the report\<close>

lemma encoded_keys: "encode_metrics ms = Inr js \<Longrightarrow> map fst js = map fst ms"
proof (induction ms arbitrary: js)
  case (Cons a ms)
  then show ?case by (cases a; cases "encode_metrics ms") (auto split: sum.splits)
qed simp

lemma GetMetrics_keys: "GetMetrics now now' m = Some ms \<Longrightarrow> distinct (map fst ms)"
  by (auto simp: GetMetrics_def Let_def)

lemma whole_ms_positive: "0 < whole_ms d \<longleftrightarrow> 1000000 \<le> d"
  by (auto simp: whole_ms_def duration_ms_def go_div_def sgn_if zero_less_mult_iff pos_imp_zdiv_pos_iff
      pos_imp_zdiv_nonneg_iff not_le)

lemma main_end2end:
  assumes "benchmark_main flags env = Reports results file" and "parse_mode (bf_mode flags) = Some ModeEnd2End"
    and "me_get env 1 (bf_mockServerURL flags @ ''/metrics'') = Inr (200, Inr (Inr (JObj js)))" and "distinct (map fst js)"
  obtains r where "me_run env (bf_concurrency flags) (bf_totalRequests flags) (parseWebhookIDs (bf_webhookIDs flags)) (bf_baseURL flags) = Some r"
    "results = updateResultsWithDeliveryMetrics (me_oor env) r js"
    "file = (if bf_outputFile flags \<noteq> [] then Some (saveResultsToFile (me_create env) results (bf_outputFile flags)) else None)"
proof -
  have "getMockServerMetrics (me_get env 1) (bf_mockServerURL flags) = Inr (Some js)"
    using assms(3) foldl_update_append [of "[]" js] assms(4) by (simp add: getMockServerMetrics_def)
  then show ?thesis
    using that assms(1,2) by (auto simp: benchmark_main_def delivery_report_def Let_def split: option.splits if_splits)
qed

text \<open>C38: the end-to-end report is left out when a delivery took less than a millisecond. The program prints its
  end-to-end figures only if the minimum is positive, but the receiver reports whole milliseconds: after an end-to-end run
  against a receiver with any deliveries, the section is printed exactly if its fastest delivery took a millisecond or more,
  although the rate of successful deliveries and the percentiles are in the results, and in the file, either way.\<close>

theorem fast_delivery_hides_report:
  assumes "mock_step\<^sup>*\<^sup>* (NewMetricsCollector start rate delayMin delayMax, []) (m, rs)"
    and "int (length (mc_processingTimes m)) \<le> max_int64 div 100"
    and "GetMetrics now now' m = Some ms" and "encode_metrics ms = Inr js"
    and "benchmark_main flags env = Reports results file" and "parse_mode (bf_mode flags) = Some ModeEnd2End"
    and "me_get env 1 (bf_mockServerURL flags @ ''/metrics'') = Inr (200, Inr (Inr (JObj js)))"
  shows "((''Delivery Success Rate'', Real (br_DeliverySuccessRate results)) \<in> set (printResults results) \<longleftrightarrow>
      1000000 \<le> mc_minLatency m) \<and>
    br_End2EndMaxLatency results = whole_ms (mc_maxLatency m) \<and> br_End2EndP95Latency results = whole_ms (reported_percentile m 95) \<and>
    (Fin 0 < f64_of_int (mc_totalRequests m) \<longrightarrow> br_DeliverySuccessRate results =
      f64_mul (f64_div (f64_of_int (mc_successfulRequests m)) (f64_of_int (mc_totalRequests m))) (Fin 100)) \<and>
    (bf_outputFile flags \<noteq> [] \<longrightarrow> file = Some (saveResultsToFile (me_create env) results (bf_outputFile flags)))"
proof -
  have "distinct (map fst js)" using encoded_keys [OF assms(4)] GetMetrics_keys [OF assms(3)] by simp
  then obtain r where r: "results = updateResultsWithDeliveryMetrics (me_oor env) r js"
    "file = (if bf_outputFile flags \<noteq> [] then Some (saveResultsToFile (me_create env) results (bf_outputFile flags)) else None)"
    using main_end2end [OF assms(5-7)] by metis
  have e: "br_End2EndMinLatency results = whole_ms (mc_minLatency m)" "br_End2EndMaxLatency results = whole_ms (mc_maxLatency m)"
    "br_End2EndP95Latency results = whole_ms (reported_percentile m 95)"
    "br_DeliverySuccessRate results = (if Fin 0 < f64_of_int (mc_totalRequests m)
        then f64_mul (f64_div (f64_of_int (mc_successfulRequests m)) (f64_of_int (mc_totalRequests m))) (Fin 100) else Fin 0)"
    unfolding r(1) conjunct1 [OF metrics_stored [OF assms(1-4), of "me_oor env" r]] by simp_all
  have "(''Delivery Success Rate'', Real (br_DeliverySuccessRate results)) \<in> set (printResults results) \<longleftrightarrow>
      0 < br_End2EndMinLatency results"
    by (simp add: printResults_def)
  then show ?thesis using e r(2) by (simp add: whole_ms_positive)
qed

text \<open>A receiver of one delivery that took seven nanoseconds.\<close>

definition sample_main_env :: "(string \<times> json) list \<Rightarrow> main_env" where
  "sample_main_env js = \<lparr>me_get = (\<lambda>k url. Inr (200, Inr (Inr (JObj (if k = 1 then js else []))))),
     me_post = (\<lambda>url contentType. Inr (200, Inr (Inr JNull))),
     me_run = (\<lambda>c n ids url. Some (calculateResults n (make_chan 0) [] 1)),
     me_stress = (\<lambda>ids url c n. (0, [], 1)), me_create = (\<lambda>f. None), me_oor = (\<lambda>f. 0)\<rparr>"

lemma fast_delivery_hides_report_witness:
  "\<exists>js results. benchmark_main (default_benchmark_flags\<lparr>bf_mode := ''End2End''\<rparr>) (sample_main_env js) = Reports results None \<and>
    (''Delivery Success Rate'', Real (br_DeliverySuccessRate results)) \<notin> set (printResults results) \<and>
    mc_successfulRequests sample_collector = 1"
proof -
  let ?flags = "default_benchmark_flags\<lparr>bf_mode := ''End2End''\<rparr>"
  obtain ms js where ms: "GetMetrics 0 0 sample_collector = Some ms" "encode_metrics ms = Inr js"
    using sample_collector_metrics by blast
  have "parse_mode ''End2End'' = Some ModeEnd2End" by code_simp
  then have mode: "parse_mode (bf_mode ?flags) = Some ModeEnd2End" by simp
  have ids: "parseWebhookIDs (bf_webhookIDs ?flags) \<noteq> []" by (simp add: webhook_ids_none default_benchmark_flags_def)
  have get: "me_get (sample_main_env js) 1 (bf_mockServerURL ?flags @ ''/metrics'') = Inr (200, Inr (Inr (JObj js)))"
    by (simp add: sample_main_env_def)
  have "\<exists>results. benchmark_main ?flags (sample_main_env js) = Reports results None"
    using mode ids by (simp add: benchmark_main_def Let_def end2end_check_def checkMockServerHealth_def resetMockServerMetrics_def
        sample_main_env_def default_benchmark_flags_def)
  then obtain results where m: "benchmark_main ?flags (sample_main_env js) = Reports results None" by blast
  have n: "int (length (mc_processingTimes sample_collector)) \<le> max_int64 div 100"
    by (simp add: sample_collector_fields max_int64_def)
  from fast_delivery_hides_report [OF sample_collector_run n ms m mode get] show ?thesis
    using m by (intro exI [of _ js] exI [of _ results]) (simp add: sample_collector_fields)
qed

end
