(* ===== verification/Program_Entry.thy ===== *)
theory Program_Entry
  imports System Listener Startup Database_Pool
begin

text \<open>
  The process: the HTTP server of \<open>internal/server/server.go\<close> with the routes of \<open>routes.go\<close>, the whole of \<open>Server.Shutdown\<close>, and
  \<open>cmd/app/main.go\<close>, which starts the server, waits for a signal and ends without calling it.
\<close>

section \<open>Routes\<close>

text \<open>What \<open>RegisterRoutes\<close> tells Echo, which matches requests with it.\<close>

record cors_config =
  cors_AllowOrigins :: "string list"
  cors_AllowMethods :: "string list"
  cors_AllowHeaders :: "string list"
  cors_AllowCredentials :: bool
  cors_MaxAge :: int

datatype middleware = Logger | Recover | CORSWithConfig cors_config

datatype endpoint = Health_endpoint | Event_endpoint

record echo =
  echo_use :: "middleware list"
  echo_routes :: "(string \<times> string \<times> endpoint) list"

definition RegisterRoutes :: echo where
  "RegisterRoutes = \<lparr>echo_use = [Logger, Recover, CORSWithConfig
       \<lparr>cors_AllowOrigins = [''https://*'', ''http://*''],
        cors_AllowMethods = [''GET'', ''POST'', ''PUT'', ''DELETE'', ''OPTIONS'', ''PATCH''],
        cors_AllowHeaders = [''Accept'', ''Authorization'', ''Content-Type'', ''X-CSRF-Token''],
        cors_AllowCredentials = True, cors_MaxAge = 300\<rparr>],
     echo_routes = [(''GET'', ''/health'', Health_endpoint), (''POST'', ''/webhooks/events'', Event_endpoint)]\<rparr>"

record http_server =
  hs_Addr :: string
  hs_Handler :: echo
  hs_IdleTimeout :: duration
  hs_ReadTimeout :: duration
  hs_WriteTimeout :: duration

definition http_server_of :: "config \<Rightarrow> http_server" where
  "http_server_of cfg = \<lparr>hs_Addr = '':'' @ show_int (cfg_Port cfg), hs_Handler = RegisterRoutes, hs_IdleTimeout = nano_minute,
     hs_ReadTimeout = 10 * nano_second, hs_WriteTimeout = 30 * nano_second\<rparr>"

section \<open>Shutting the server down\<close>

text \<open>
  The goroutines of a server next to what \<open>app\<close> has: the configuration listener, the refresh of its own cache, that of
  the service's cache, and whether the database is open.
\<close>

record running =
  rn_app :: app
  rn_configListener :: "(json option, config_cache) listener"
  rn_serverRefresh :: "(config_cache \<times> database) routine"
  rn_serviceRefresh :: "(config_cache \<times> database) routine"
  rn_db :: sql_db

definition start_running :: "app \<Rightarrow> sql_db \<Rightarrow> running" where
  "start_running a db = \<lparr>rn_app = a, rn_configListener = config_Start (srv_cache (app_server a)),
     rn_serverRefresh = started_routine False (srv_cache (app_server a), srv_db (app_server a)),
     rn_serviceRefresh = started_routine False (sv_cache (app_service a), sv_db (app_service a)), rn_db = db\<rparr>"

text \<open>
  The whole of \<open>NewServer\<close>: the connection pool, the structs and pools, the triggers, the goroutines, and the HTTP server that
  \<open>main\<close> lets listen. \<open>None\<close> is the end of the process, by \<open>log.Fatal\<close> or a panic.
\<close>

definition boot :: "(string \<Rightarrow> goerr option) \<Rightarrow> (nat \<Rightarrow> bool) \<Rightarrow> config \<Rightarrow> sql_db option \<Rightarrow> catalog \<Rightarrow> database \<Rightarrow>
    int \<Rightarrow> instant \<Rightarrow> (nat \<Rightarrow> instant) \<Rightarrow> (running \<times> http_server \<times> sql_db \<times> catalog) option" where
  "boot open_error up cfg dbInstance c d pid now clk = (case New_database open_error cfg dbInstance of
     None \<Rightarrow> None
   | Some (db, inst) \<Rightarrow> (case NewServer cfg d pid now clk of
       None \<Rightarrow> None
     | Some a \<Rightarrow> Some (start_running a (service_GetDB db), http_server_of cfg, db, setupDatabaseTriggers up c)))"

text \<open>
  Each \<open>Stop\<close> closes a channel, and panics (\<open>None\<close>) when it is closed already; then it waits for goroutines that end
  by themselves (\<open>stopped_listener_returns\<close>, \<open>stopped_routine_ends\<close>).
\<close>

definition WebhookService_Shutdown :: "running \<Rightarrow> running option" where
  "WebhookService_Shutdown r = Option.bind (StopPeriodicRefresh (rn_serviceRefresh r)) (\<lambda>x.
     Some (r\<lparr>rn_serviceRefresh := x, rn_app := (rn_app r)\<lparr>app_service := service_Shutdown (app_service (rn_app r))\<rparr>\<rparr>))"

definition running_Shutdown :: "goerr option \<Rightarrow> running \<Rightarrow> running option" where
  "running_Shutdown err r =
     Option.bind (config_Stop (rn_configListener r)) (\<lambda>l. let r = r\<lparr>rn_configListener := l\<rparr> in
     Option.bind (StopPeriodicRefresh (rn_serverRefresh r)) (\<lambda>x. let r = r\<lparr>rn_serverRefresh := x\<rparr> in
     Option.bind (manager_Stop (app_queue_goroutines (rn_app r))) (\<lambda>g.
       let r = r\<lparr>rn_app := (rn_app r)\<lparr>app_queue_goroutines := g\<rparr>\<rparr> in
     Option.bind (WebhookService_Shutdown r) (\<lambda>r. Some (r\<lparr>rn_db := snd (service_Close err (rn_db r))\<rparr>)))))"

definition all_running :: "running \<Rightarrow> bool" where
  "all_running r \<longleftrightarrow> \<not> ln_stopped (rn_configListener r) \<and> \<not> rt_stopped (rn_serverRefresh r) \<and>
     \<not> rt_stopped (rn_serviceRefresh r) \<and> \<not> qg_stopped (app_queue_goroutines (rn_app r))"

text \<open>\<open>Server.Shutdown\<close> forgets the requests. Called on a running server it stops the configuration listener, both refreshes, the event queue
  manager and all delivery workers, and closes the database; but the pool of the request workers is as it was, and so are
  the events that were answered with 202 and wait in its buffer. A second call panics.
\<close>

theorem shutdown_forgets_requests:
  assumes "all_running r"
  shows "\<exists>r'. running_Shutdown err r = Some r' \<and> ln_stopped (rn_configListener r') \<and> rt_stopped (rn_serverRefresh r') \<and>
    rt_stopped (rn_serviceRefresh r') \<and> qg_stopped (app_queue_goroutines (rn_app r')) \<and>
    wp_workers (sv_pool (app_service (rn_app r'))) = [] \<and> sq_closed (rn_db r') \<and>
    app_server (rn_app r') = app_server (rn_app r) \<and> running_Shutdown err' r' = None"
  using assms
  by (simp add: all_running_def running_Shutdown_def WebhookService_Shutdown_def config_Stop_def listener_Stop_def StopPeriodicRefresh_def
      manager_Stop_def Let_def service_Shutdown_def pool_Shutdown_def service_Close_def)

section \<open>The process\<close>

text \<open>
  Where the goroutine of \<open>main\<close> stands: in \<open>ListenAndServe\<close>, at \<open><-done\<close>, returned, or ended by a panic or a signal. And the
  one of \<open>gracefulShutdown\<close>: before \<open>NotifyContext\<close>, at \<open><-ctx.Done()\<close>, in \<open>apiServer.Shutdown\<close> since an instant, at
  \<open>done <- true\<close>, returned.
\<close>

datatype main_place = Serving | Waiting_done | Exited | Panicked | Killed

datatype helper_place = Starting | Awaiting_signal | Closing instant | Closed | Helper_returned

text \<open>
  \<open>pg_signalled\<close>: the context is done. \<open>pg_open\<close>: the listeners of the HTTP server are open. \<open>pg_requests\<close>: the requests
  it is handling. \<open>pg_done\<close>: the channel \<open>done\<close> holds a value. \<open>pg_system\<close>: all instances and the database; the process
  is instance 0. \<open>pg_closed_at\<close> is when \<open>Shutdown\<close> was called.
\<close>

record program =
  pg_main :: main_place
  pg_helper :: helper_place
  pg_signalled :: bool
  pg_open :: bool
  pg_requests :: nat
  pg_done :: bool
  pg_now :: instant
  pg_closed_at :: "instant option"
  pg_system :: system

definition started_program :: "instant \<Rightarrow> system \<Rightarrow> program" where
  "started_program now s = \<lparr>pg_main = Serving, pg_helper = Starting, pg_signalled = False, pg_open = True, pg_requests = 0,
     pg_done = False, pg_now = now, pg_closed_at = None, pg_system = s\<rparr>"

definition alive :: "program \<Rightarrow> bool" where
  "alive p \<longleftrightarrow> pg_main p = Serving \<or> pg_main p = Waiting_done"

text \<open>
  SIGINT or SIGTERM. Between \<open>NotifyContext\<close> and the deferred \<open>stop\<close> the signal only ends the context, which happens once;
  outside, it kills the process.
\<close>

definition deliver_signal :: "program \<Rightarrow> program" where
  "deliver_signal p = (if pg_helper p = Starting \<or> pg_helper p = Helper_returned then p\<lparr>pg_main := Killed\<rparr>
     else p\<lparr>pg_signalled := True\<rparr>)"

definition shutdown_timeout :: duration where
  "shutdown_timeout = 5 * nano_second"

text \<open>
  \<open>Shutdown\<close> closes the listeners, at which \<open>ListenAndServe\<close> returns \<open>ErrServerClosed\<close>; it returns when no request is
  left or its context has timed out, an error that is only logged. What the instances do meanwhile is free.
\<close>

inductive program_step :: "program \<Rightarrow> program \<Rightarrow> bool" where
  register: "alive p \<Longrightarrow> pg_helper p = Starting \<Longrightarrow> program_step p (p\<lparr>pg_helper := Awaiting_signal\<rparr>)"
| signal: "alive p \<Longrightarrow> program_step p (deliver_signal p)"
| begin_shutdown: "alive p \<Longrightarrow> pg_helper p = Awaiting_signal \<Longrightarrow> pg_signalled p \<Longrightarrow>
    program_step p (p\<lparr>pg_helper := Closing (pg_now p), pg_open := False, pg_closed_at := Some (pg_now p)\<rparr>)"
| shutdown_done: "alive p \<Longrightarrow> pg_helper p = Closing t \<Longrightarrow> pg_requests p = 0 \<Longrightarrow> program_step p (p\<lparr>pg_helper := Closed\<rparr>)"
| shutdown_forced: "alive p \<Longrightarrow> pg_helper p = Closing t \<Longrightarrow> t + shutdown_timeout \<le> pg_now p \<Longrightarrow>
    program_step p (p\<lparr>pg_helper := Closed\<rparr>)"
| notify_main: "alive p \<Longrightarrow> pg_helper p = Closed \<Longrightarrow> program_step p (p\<lparr>pg_helper := Helper_returned, pg_done := True\<rparr>)"
| serve_returns: "pg_main p = Serving \<Longrightarrow> \<not> pg_open p \<Longrightarrow> program_step p (p\<lparr>pg_main := Waiting_done\<rparr>)"
| serve_fails: "pg_main p = Serving \<Longrightarrow> pg_open p \<Longrightarrow> program_step p (p\<lparr>pg_main := Panicked\<rparr>)"
| main_returns: "pg_main p = Waiting_done \<Longrightarrow> pg_done p \<Longrightarrow> program_step p (p\<lparr>pg_main := Exited, pg_done := False\<rparr>)"
| arrive: "alive p \<Longrightarrow> pg_open p \<Longrightarrow> program_step p (p\<lparr>pg_requests := pg_requests p + 1\<rparr>)"
| answer: "alive p \<Longrightarrow> 0 < pg_requests p \<Longrightarrow> sys_nodes (pg_system p) = n # ns \<Longrightarrow>
    handleWebhookEvent (bind :: json option \<Rightarrow> webhook_event result) now now' req (node_server n (sys_db (pg_system p))) = (ans, v) \<Longrightarrow>
    program_step p (p\<lparr>pg_requests := pg_requests p - 1,
      pg_system := \<lparr>sys_db = srv_db v, sys_nodes = with_server v n # ns\<rparr>\<rparr>)"
| work: "alive p \<Longrightarrow> sys_step stall (pg_system p) s \<Longrightarrow> program_step p (p\<lparr>pg_system := s\<rparr>)"
| pass: "pg_now p \<le> t \<Longrightarrow> program_step p (p\<lparr>pg_now := t\<rparr>)"

section \<open>A graceful end\<close>

definition timed_out :: "program \<Rightarrow> bool" where
  "timed_out p \<longleftrightarrow> (\<exists>t. pg_closed_at p = Some t \<and> t + shutdown_timeout \<le> pg_now p)"

fun helper_ok :: "helper_place \<Rightarrow> program \<Rightarrow> bool" where
  "helper_ok Starting p \<longleftrightarrow> pg_open p \<and> \<not> pg_done p \<and> pg_main p \<notin> {Waiting_done, Exited}"
| "helper_ok Awaiting_signal p \<longleftrightarrow> pg_open p \<and> \<not> pg_done p \<and> pg_main p \<notin> {Waiting_done, Exited}"
| "helper_ok (Closing t) p \<longleftrightarrow> \<not> pg_open p \<and> \<not> pg_done p \<and> pg_main p \<noteq> Exited \<and> pg_closed_at p = Some t \<and> pg_signalled p"
| "helper_ok Closed p \<longleftrightarrow> \<not> pg_open p \<and> \<not> pg_done p \<and> pg_main p \<noteq> Exited \<and> pg_signalled p \<and> (pg_requests p = 0 \<or> timed_out p)"
| "helper_ok Helper_returned p \<longleftrightarrow> \<not> pg_open p \<and> pg_signalled p \<and> (pg_requests p = 0 \<or> timed_out p)"

definition program_ok :: "program \<Rightarrow> bool" where
  "program_ok p \<longleftrightarrow> helper_ok (pg_helper p) p"

lemma timed_out_later: "timed_out p \<Longrightarrow> pg_closed_at p' = pg_closed_at p \<Longrightarrow> pg_now p \<le> pg_now p' \<Longrightarrow> timed_out p'"
  unfolding timed_out_def by force

lemma program_step_ok: "program_step p p' \<Longrightarrow> program_ok p \<Longrightarrow> program_ok p'"
  by (cases rule: program_step.cases, assumption; cases "pg_helper p")
    (auto simp: program_ok_def deliver_signal_def timed_out_def alive_def)

text \<open>What an observer sees of the process: it takes requests, it drains, it has ended, or it was aborted.\<close>

datatype process_phase = Up | Draining | Ended_well | Aborted

inductive phase_step :: "process_phase \<Rightarrow> process_phase \<Rightarrow> bool" where
  close: "phase_step Up Draining"
| end_well: "phase_step Draining Ended_well"
| abort: "ph \<noteq> Ended_well \<Longrightarrow> phase_step ph Aborted"

definition process_phase_of :: "program \<Rightarrow> process_phase" where
  "process_phase_of p = (case pg_main p of Exited \<Rightarrow> Ended_well | Panicked \<Rightarrow> Aborted | Killed \<Rightarrow> Aborted
     | _ \<Rightarrow> if pg_open p then Up else Draining)"

lemma alive_phase: "alive p \<Longrightarrow> process_phase_of p = (if pg_open p then Up else Draining)"
  by (auto simp: alive_def process_phase_of_def)

lemma program_simulates:
  assumes "program_ok p" and "program_step p p'"
  shows "phase_step\<^sup>*\<^sup>* (process_phase_of p) (process_phase_of p')"
  using assms(2)
proof cases
  case signal
  then show ?thesis using phase_step.abort [of "process_phase_of p"]
    by (auto simp: deliver_signal_def process_phase_of_def alive_def)
next
  case begin_shutdown
  then show ?thesis using assms(1) phase_step.close by (auto simp: program_ok_def alive_def process_phase_of_def)
next
  case serve_fails
  then show ?thesis using phase_step.abort [of Up] by (auto simp: process_phase_of_def)
next
  case main_returns
  then have "\<not> pg_open p" using assms(1) by (cases "pg_helper p") (auto simp: program_ok_def)
  then show ?thesis using main_returns phase_step.end_well by (auto simp: process_phase_of_def)
qed (auto simp: process_phase_of_def alive_def)

interpretation process: refines program_step phase_step process_phase_of program_ok
  by unfold_locales (auto intro: program_step_ok program_simulates)

lemma started_ok: "program_ok (started_program now s)"
  by (simp add: program_ok_def started_program_def)

lemma no_way_back: "phase_step\<^sup>*\<^sup>* ph ph' \<Longrightarrow> ph \<noteq> Up \<Longrightarrow> ph' \<noteq> Up"
  by (induction rule: rtranclp_induct) (auto elim: phase_step.cases)

text \<open>a graceful end is one that a signal asked for and that let the requests finish or waited five seconds for them. When the process has
  ended without panic and without being killed, a signal had arrived, the listeners are closed, and no
  request is being handled unless the time was up; and once the listeners are closed no run opens them again.
\<close>

theorem graceful_end:
  assumes "program_step\<^sup>*\<^sup>* (started_program now s) p"
  shows "(pg_main p = Exited \<longrightarrow> pg_signalled p \<and> \<not> pg_open p \<and> (pg_requests p = 0 \<or> timed_out p)) \<and>
    (\<forall>p'. program_step\<^sup>*\<^sup>* p p' \<and> process_phase_of p \<noteq> Up \<longrightarrow> process_phase_of p' \<noteq> Up)"
proof (intro conjI impI allI)
  have ok: "program_ok p" using process.run_inv [OF assms started_ok] .
  show "process_phase_of p' \<noteq> Up" if "program_step\<^sup>*\<^sup>* p p' \<and> process_phase_of p \<noteq> Up" for p'
    using no_way_back [OF process.run_simulates [OF _ ok]] that by blast
  assume e: "pg_main p = Exited"
  have "pg_signalled p \<and> \<not> pg_open p \<and> (pg_requests p = 0 \<or> timed_out p)"
    using ok e by (cases "pg_helper p") (auto simp: program_ok_def)
  then show "pg_signalled p" "\<not> pg_open p" "pg_requests p = 0 \<or> timed_out p" by blast+
qed

text \<open>a second signal does not force the end. From the moment the shutdown begins until \<open>gracefulShutdown\<close> returns, a signal changes nothing,
  although the log asks to press Ctrl+C again: \<open>stop\<close>, which would give the signal its effect back, is deferred.
\<close>

theorem second_signal_is_swallowed:
  assumes "program_step\<^sup>*\<^sup>* (started_program now s) p" and "pg_helper p = Closing t \<or> pg_helper p = Closed"
  shows "deliver_signal p = p"
  using process.run_inv [OF assms(1) started_ok] assms(2) by (auto simp: program_ok_def deliver_signal_def)

section \<open>What is left behind\<close>

lemma shutdown_run:
  assumes "alive p" and "pg_helper p = Awaiting_signal" and "pg_main p = Serving" and "pg_requests p = 0"
  shows "\<exists>p'. program_step\<^sup>*\<^sup>* p p' \<and> pg_main p' = Exited \<and> pg_system p' = pg_system p"
proof -
  let ?p1 = "p\<lparr>pg_signalled := True\<rparr>"
  let ?p2 = "?p1\<lparr>pg_helper := Closing (pg_now p), pg_open := False, pg_closed_at := Some (pg_now p)\<rparr>"
  let ?p3 = "?p2\<lparr>pg_helper := Closed\<rparr>"
  let ?p4 = "?p3\<lparr>pg_helper := Helper_returned, pg_done := True\<rparr>"
  let ?p5 = "?p4\<lparr>pg_main := Waiting_done\<rparr>"
  let ?p6 = "?p5\<lparr>pg_main := Exited, pg_done := False\<rparr>"
  have "program_step p ?p1" using program_step.signal [OF assms(1)] assms(2) by (simp add: deliver_signal_def)
  moreover have "program_step ?p1 ?p2" using program_step.begin_shutdown [of ?p1] assms by (simp add: alive_def)
  moreover have "program_step ?p2 ?p3" using program_step.shutdown_done [of ?p2 "pg_now p"] assms by (simp add: alive_def)
  moreover have "program_step ?p3 ?p4" using program_step.notify_main [of ?p3] assms by (simp add: alive_def)
  moreover have "program_step ?p4 ?p5" using program_step.serve_returns [of ?p4] assms by simp
  moreover have "program_step ?p5 ?p6" using program_step.main_returns [of ?p5] by simp
  ultimately have "program_step\<^sup>*\<^sup>* p ?p6" by (meson rtranclp.rtrancl_refl converse_rtranclp_into_rtranclp)
  then show ?thesis by (intro exI [of _ ?p6]) simp
qed

lemma accepted_202:
  assumes "handleWebhookEvent bind now now' req s = (ans, v)" and "ans_status ans = 202"
  shows "\<exists>event. bind req = Inr event \<and> ch_buf (srv_requestBuffer v) = ch_buf (srv_requestBuffer s) @ [event]"
  using assms
  by (auto simp: handleWebhookEvent_def error_answer_def select_send_def Let_def split: sum.splits option.splits prod.splits if_splits)

text \<open>C32: an orderly restart loses accepted events. While the process serves, with no other request being handled, let a request be answered with 202. Then
  the process can receive its signal and end gracefully although the event is still in the request buffer, and no row was
  stored for it: the shutdown waits for requests, not for the workers, and never calls \<open>Server.Shutdown\<close>. What is in
  the memory of the process is gone with it.
\<close>

theorem graceful_end_loses_events:
  assumes p: "pg_main p = Serving" "pg_helper p = Awaiting_signal" "pg_open p" "pg_requests p = 0"
    and n: "sys_nodes (pg_system p) = n # ns"
    and h: "handleWebhookEvent (bind :: json option \<Rightarrow> webhook_event result) now now' req (node_server n (sys_db (pg_system p))) = (ans, v)"
    and acc: "ans_status ans = 202"
  shows "\<exists>p' n' event. program_step\<^sup>*\<^sup>* p p' \<and> pg_main p' = Exited \<and> bind req = Inr event \<and>
    sys_nodes (pg_system p') = n' # ns \<and> ch_buf (nd_buffer n') = ch_buf (nd_buffer n) @ [event] \<and>
    db_events (sys_db (pg_system p')) = db_events (sys_db (pg_system p))"
proof -
  let ?p1 = "p\<lparr>pg_requests := pg_requests p + 1\<rparr>"
  let ?s = "\<lparr>sys_db = srv_db v, sys_nodes = with_server v n # ns\<rparr>"
  let ?p2 = "?p1\<lparr>pg_requests := pg_requests ?p1 - 1, pg_system := ?s\<rparr>"
  have al: "alive p" "alive ?p1" "alive ?p2" using p(1) by (simp_all add: alive_def)
  have s1: "program_step p ?p1" using program_step.arrive [OF al(1) p(3)] .
  have s2: "program_step ?p1 ?p2" using program_step.answer [OF al(2), of n ns bind now now' req ans v] n h by simp
  obtain p' where p': "program_step\<^sup>*\<^sup>* ?p2 p'" "pg_main p' = Exited" "pg_system p' = pg_system ?p2"
    using shutdown_run [OF al(3)] p by auto
  have run: "program_step\<^sup>*\<^sup>* p p'"
    using converse_rtranclp_into_rtranclp [OF s1 converse_rtranclp_into_rtranclp [OF s2 p'(1)]] .
  obtain event where e: "bind req = Inr event" "ch_buf (srv_requestBuffer v) = ch_buf (nd_buffer n) @ [event]"
    using accepted_202 [OF h acc] by (auto simp: node_server_def)
  have "db_events (srv_db v) = db_events (sys_db (pg_system p))"
    using handleWebhookEvent_tables [OF h] by (auto simp: same_tables_def node_server_def dest: arg_cong [of _ _ db_events])
  with run p'(2,3) e show ?thesis
    by (intro exI [of _ p'] exI [of _ "with_server v n"] exI [of _ event]) (simp add: with_server_def)
qed

end
