(* ===== verification/Entry_Witnesses.thy ===== *)
theory Entry_Witnesses
  imports Witnesses Program_Entry
begin

text \<open>
  Concrete inputs for the properties of \<open>Program_Entry\<close>, over the sample instance of \<open>Witnesses\<close>.
\<close>

section \<open>The process\<close>

lemma shutdown_forgets_requests_witness:
  "\<exists>a r. NewServer default_config sample_db 42 0 (\<lambda>_. 0) = Some a \<and> running_Shutdown None (start_running a (sql_open [])) = Some r \<and>
    srv_requestPool (app_server (rn_app r)) = srv_requestPool (app_server a)"
proof -
  obtain a where a: "NewServer default_config sample_db 42 0 (\<lambda>_. 0) = Some a" "\<not> qg_stopped (app_queue_goroutines a)"
    by (simp add: NewServer_def NewEventQueueManager_def default_config_def NewWebhookService_def no_goroutines_def manager_Start_def Let_def)
  then have "all_running (start_running a (sql_open []))"
    by (simp add: all_running_def start_running_def config_Start_def started_listener_def started_routine_def)
  from shutdown_forgets_requests [OF this, of None None] a(1) show ?thesis by (auto simp: start_running_def)
qed

abbreviation sample_process :: program where
  "sample_process \<equiv> (started_program 0 sample_sys)\<lparr>pg_helper := Awaiting_signal\<rparr>"

lemma sample_process_run: "program_step\<^sup>*\<^sup>* (started_program 0 sample_sys) sample_process"
  using register [of "started_program 0 sample_sys"] by (simp add: alive_def started_program_def r_into_rtranclp)

lemma graceful_end_witness:
  "\<exists>p. program_step\<^sup>*\<^sup>* (started_program 0 sample_sys) p \<and> pg_main p = Exited \<and> pg_signalled p \<and> \<not> pg_open p"
proof -
  obtain p where "program_step\<^sup>*\<^sup>* sample_process p" "pg_main p = Exited"
    using shutdown_run [of sample_process] by (auto simp: alive_def started_program_def)
  with sample_process_run have "program_step\<^sup>*\<^sup>* (started_program 0 sample_sys) p" by simp
  from graceful_end [OF this] this \<open>pg_main p = Exited\<close> show ?thesis by blast
qed

lemma second_signal_is_swallowed_witness:
  "\<exists>p. pg_helper p = Closing 0 \<and> pg_open p = False \<and> deliver_signal p = p"
proof -
  let ?p1 = "sample_process\<lparr>pg_signalled := True\<rparr>"
  let ?p2 = "?p1\<lparr>pg_helper := Closing (pg_now ?p1), pg_open := False, pg_closed_at := Some (pg_now ?p1)\<rparr>"
  have "program_step sample_process ?p1"
    using signal [of sample_process] by (simp add: alive_def started_program_def deliver_signal_def)
  moreover have "program_step ?p1 ?p2" using begin_shutdown [of ?p1] by (simp add: alive_def started_program_def)
  ultimately have "program_step\<^sup>*\<^sup>* (started_program 0 sample_sys) ?p2" using sample_process_run by simp
  from second_signal_is_swallowed [OF this, of 0] show ?thesis
    by (intro exI [of _ ?p2]) (simp add: started_program_def)
qed

lemma graceful_end_loses_events_witness:
  "\<exists>p n. program_step\<^sup>*\<^sup>* sample_process p \<and> pg_main p = Exited \<and> sys_nodes (pg_system p) = [n] \<and>
    ch_buf (nd_buffer n) = [sample_event] \<and> db_events (sys_db (pg_system p)) = [sample_row]"
proof -
  let ?v = "node_server sample_node sample_db" and ?bind = "\<lambda>j :: json option. Inr sample_event :: webhook_event result"
  have c: "event_complete sample_event"
    by (simp add: event_complete_def subscriber_complete_def sample_subscriber_def event_name_defs unix_epoch_def nano_second_def)
  have w: "current_config (srv_db ?v) (ev_WebhookID sample_event) = Some sample_dto" by (simp add: sample_dto_def)
  have "ev_EventName sample_event \<in> set (dto_Events sample_dto)" by (simp add: sample_dto_def)
  moreover have "chan_room (srv_requestBuffer ?v)" "cache_agrees (current_config (srv_db ?v)) (srv_cache ?v)"
    by (simp_all add: node_server_def sample_node_def make_chan_def chan_room_def chan_len_def)
  ultimately obtain cc where "handleWebhookEvent (\<lambda>e. Inr e) 0 0 sample_event ?v =
      (\<lparr>ans_status = 202, ans_body = [(''message'', ''Event accepted for processing'')]\<rparr>,
       ?v\<lparr>srv_cache := cc, srv_requestBuffer := chan_send sample_event (srv_requestBuffer ?v)\<rparr>)"
    using handle_accepts [of ?v sample_event sample_dto 0 0] c w by auto
  then have h: "handleWebhookEvent ?bind 0 0 None (node_server sample_node (sys_db (pg_system sample_process))) =
      (\<lparr>ans_status = 202, ans_body = [(''message'', ''Event accepted for processing'')]\<rparr>,
       ?v\<lparr>srv_cache := cc, srv_requestBuffer := chan_send sample_event (srv_requestBuffer ?v)\<rparr>)"
    by (simp add: handleWebhookEvent_def started_program_def sample_sys_def)
  have p: "pg_main sample_process = Serving" "pg_helper sample_process = Awaiting_signal" "pg_open sample_process"
    "pg_requests sample_process = 0" "sys_nodes (pg_system sample_process) = sample_node # []"
    by (simp_all add: started_program_def sample_sys_def)
  have b: "ch_buf (nd_buffer sample_node) = []" "db_events (sys_db (pg_system sample_process)) = [sample_row]"
    by (simp_all add: sample_node_def make_chan_def started_program_def sample_sys_def)
  from graceful_end_loses_events [OF p h] b show ?thesis by auto
qed

end
